theory Spec2Isabelle
  imports Main "HOL-Library.Word"
begin

unbundle bit_operations_syntax

section \<open>Kernel types shared by the isolation subsystem\<close>

text \<open>
  \<open>BaseType_t\<close> is only ever used as a two-valued status in the modelled code
  (\<open>pdPASS\<close>/\<open>pdTRUE\<close> against \<open>pdFAIL\<close>/\<open>pdFALSE\<close>), so it is \<open>bool\<close>.
  \<open>UBaseType_t\<close> and \<open>TickType_t\<close> are the port's unsigned machine word; the port
  header is not among the sources, so the width is the type parameter \<open>'w\<close> and
  every arithmetic operation wraps as the C one does. The records take the word type
  itself as their parameter \<open>'u\<close>; the functions use them at \<open>'w word\<close>.
  A handle is a pointer: \<open>None\<close> is \<open>NULL\<close>, \<open>Some i\<close> is the address of slot \<open>i\<close> of
  the module's static array (for a task: the address of its control block).
\<close>

type_synonym BaseType_t = bool

abbreviation pdPASS :: BaseType_t where "pdPASS \<equiv> True"
abbreviation pdFAIL :: BaseType_t where "pdFAIL \<equiv> False"
abbreviation pdTRUE :: BaseType_t where "pdTRUE \<equiv> True"
abbreviation pdFALSE :: BaseType_t where "pdFALSE \<equiv> False"

type_synonym TaskHandle_t = "nat option"
type_synonym PidNamespaceHandle_t = "nat option"
type_synonym IpcNamespaceHandle_t = "nat option"
type_synonym CGroupHandle_t = "nat option"

abbreviation NULL :: "'a option" where "NULL \<equiv> None"

text \<open>The container fields the modified scheduler keeps in every task control block.\<close>

record 'u TCB_t =
  pvPidNamespace :: PidNamespaceHandle_t
  uxVirtualPid :: 'u
  pvIpcNamespace :: IpcNamespaceHandle_t

record 'u kernel =
  pxTCBs :: "nat \<rightharpoonup> 'u TCB_t"
  pxCurrentTCB :: TaskHandle_t

text \<open>
  Modelled from the spec: the scheduler's task primitives and the accessors of the
  per-task fields (\<open>xTaskCreate\<close>, \<open>vTaskDelete\<close>, \<open>pvTaskGetPidNamespace\<close>,
  \<open>uxTaskGetVirtualPid\<close>, \<open>xTaskSetPidNamespace\<close>, \<open>pvTaskGetIpcNamespace\<close>) live in the
  scheduler, which is not among the sources. The spec: "A per-task field stores both
  the owning namespace pointer and the allocated virtual PID; both fields are cleared
  on removal (sentinel value 0 for PID, null for namespace)"; a \<open>NULL\<close> task handle
  names the calling task. A handle with no control block reads as unbound and cannot
  be written.
\<close>

definition prvGetTCBFromHandle :: "'w word kernel \<Rightarrow> TaskHandle_t \<Rightarrow> TaskHandle_t" where
  "prvGetTCBFromHandle k xTask = (case xTask of None \<Rightarrow> pxCurrentTCB k | Some t \<Rightarrow> Some t)"

definition pxTCB_of :: "'w word kernel \<Rightarrow> TaskHandle_t \<Rightarrow> 'w word TCB_t option" where
  "pxTCB_of k xTask = (case prvGetTCBFromHandle k xTask of None \<Rightarrow> None | Some t \<Rightarrow> pxTCBs k t)"

definition pvTaskGetPidNamespace :: "'w word kernel \<Rightarrow> TaskHandle_t \<Rightarrow> PidNamespaceHandle_t" where
  "pvTaskGetPidNamespace k xTask =
     (case pxTCB_of k xTask of None \<Rightarrow> NULL | Some tcb \<Rightarrow> pvPidNamespace tcb)"

definition uxTaskGetVirtualPid :: "'w::len word kernel \<Rightarrow> TaskHandle_t \<Rightarrow> 'w word" where
  "uxTaskGetVirtualPid k xTask =
     (case pxTCB_of k xTask of None \<Rightarrow> 0 | Some tcb \<Rightarrow> uxVirtualPid tcb)"

definition xTaskSetPidNamespace ::
  "'w word kernel \<Rightarrow> TaskHandle_t \<Rightarrow> PidNamespaceHandle_t \<Rightarrow> 'w word \<Rightarrow> BaseType_t \<times> 'w word kernel" where
  "xTaskSetPidNamespace k xTask xNamespace ulVirtualPid =
     (case prvGetTCBFromHandle k xTask of
        None \<Rightarrow> (pdFAIL, k)
      | Some t \<Rightarrow>
          (case pxTCBs k t of
             None \<Rightarrow> (pdFAIL, k)
           | Some tcb \<Rightarrow>
               (pdPASS, k\<lparr>pxTCBs := (pxTCBs k)(t \<mapsto>
                  tcb\<lparr>pvPidNamespace := xNamespace, uxVirtualPid := ulVirtualPid\<rparr>)\<rparr>)))"

definition pvTaskGetIpcNamespace :: "'w word kernel \<Rightarrow> TaskHandle_t \<Rightarrow> IpcNamespaceHandle_t" where
  "pvTaskGetIpcNamespace k xTask =
     (case pxTCB_of k xTask of None \<Rightarrow> NULL | Some tcb \<Rightarrow> pvIpcNamespace tcb)"

text \<open>
  \<open>xTaskCreate\<close>: the scheduler either fails or returns a fresh control block
  \<open>xNew\<close> with every container field cleared. \<open>vTaskDelete\<close> removes the block.
\<close>

definition xTaskCreate :: "'w::len word kernel \<Rightarrow> TaskHandle_t \<Rightarrow> BaseType_t \<times> TaskHandle_t \<times> 'w word kernel" where
  "xTaskCreate k xNew =
     (case xNew of
        None \<Rightarrow> (pdFAIL, NULL, k)
      | Some t \<Rightarrow>
          (pdPASS, Some t,
           k\<lparr>pxTCBs := (pxTCBs k)(t \<mapsto>
              \<lparr>pvPidNamespace = NULL, uxVirtualPid = 0, pvIpcNamespace = NULL\<rparr>)\<rparr>))"

section \<open>PID namespace controller\<close>

definition configMAX_PID_NAMESPACES :: nat where
  "configMAX_PID_NAMESPACES = 4"

definition configMAX_PID_NAMESPACE_NAME_LEN :: nat where
  "configMAX_PID_NAMESPACE_NAME_LEN = 16"

definition configPID_NAMESPACE_MAX_PID :: nat where
  "configPID_NAMESPACE_MAX_PID = 10"

record 'u PidNamespace_t =
  pcNamespaceName :: string
  ulNamespaceId :: 'u
  ulNextPid :: 'u
  ulMaxPid :: 'u
  xTasks :: "TaskHandle_t list"
  uxTaskCount :: 'u
  xActive :: BaseType_t

text \<open>The file-static variables of the controller, with the scheduler's task table.\<close>

record 'u pid_state =
  xPidNamespaces :: "'u PidNamespace_t list"
  uxNamespaceBitmap :: 'u
  xRootNamespace :: PidNamespaceHandle_t
  ulNextNamespaceId :: 'u
  xKernel :: "'u kernel"

definition prvFindFreeNamespaceSlot :: "'w::len word pid_state \<Rightarrow> nat option" where
  "prvFindFreeNamespaceSlot s =
     find (\<lambda>ux. uxNamespaceBitmap s AND push_bit ux 1 = 0) [0..<configMAX_PID_NAMESPACES]"

definition prvAllocateVirtualPid :: "'w::len word PidNamespace_t \<Rightarrow> 'w word \<times> 'w word PidNamespace_t" where
  "prvAllocateVirtualPid pxNamespace =
     (if ulNextPid pxNamespace > ulMaxPid pxNamespace then (0, pxNamespace)
      else (ulNextPid pxNamespace, pxNamespace\<lparr>ulNextPid := ulNextPid pxNamespace + 1\<rparr>))"

definition prvInitializeNamespace ::
  "'w::len word PidNamespace_t \<Rightarrow> 'w word \<Rightarrow> string option \<Rightarrow> 'w word PidNamespace_t \<times> 'w word" where
  "prvInitializeNamespace pxNamespace ulNextId pcName =
     (pxNamespace\<lparr>
        ulNamespaceId := ulNextId,
        ulNextPid := 1,
        ulMaxPid := of_nat configPID_NAMESPACE_MAX_PID,
        uxTaskCount := 0,
        xActive := pdTRUE,
        pcNamespaceName :=
          (case pcName of
             Some nm \<Rightarrow> take (configMAX_PID_NAMESPACE_NAME_LEN - 1) nm
           | None \<Rightarrow> []),
        xTasks := replicate configPID_NAMESPACE_MAX_PID NULL\<rparr>,
      ulNextId + 1)"

definition xPidNamespaceCreate ::
  "'w::len word pid_state \<Rightarrow> string option \<Rightarrow> PidNamespaceHandle_t \<times> 'w word pid_state" where
  "xPidNamespaceCreate s pcName =
     (case prvFindFreeNamespaceSlot s of
        None \<Rightarrow> (NULL, s)
      | Some uxSlot \<Rightarrow>
          (case prvInitializeNamespace (xPidNamespaces s ! uxSlot) (ulNextNamespaceId s)
                  pcName of
             (ns, ulNextId) \<Rightarrow>
               (Some uxSlot,
                s\<lparr>xPidNamespaces := (xPidNamespaces s)[uxSlot := ns],
                  ulNextNamespaceId := ulNextId,
                  uxNamespaceBitmap := uxNamespaceBitmap s OR push_bit uxSlot 1\<rparr>)))"

text \<open>
  Static storage starts zeroed; \<open>prvPidNamespaceInit\<close> clears the active flags and the
  counters and creates the root namespace (the \<open>configASSERT\<close> that follows has no
  effect on the state).
\<close>

definition pid_boot :: "'w::len word pid_state" where
  "pid_boot =
     \<lparr>xPidNamespaces = replicate configMAX_PID_NAMESPACES
        \<lparr>pcNamespaceName = [], ulNamespaceId = 0, ulNextPid = 0, ulMaxPid = 0,
         xTasks = replicate configPID_NAMESPACE_MAX_PID NULL, uxTaskCount = 0,
         xActive = pdFALSE\<rparr>,
      uxNamespaceBitmap = 0, xRootNamespace = NULL, ulNextNamespaceId = 1,
      xKernel = \<lparr>pxTCBs = Map.empty, pxCurrentTCB = NULL\<rparr>\<rparr>"

definition prvPidNamespaceInit :: "'w::len word pid_state \<Rightarrow> 'w word pid_state" where
  "prvPidNamespaceInit s =
     (let s1 = s\<lparr>xPidNamespaces := map (\<lambda>ns. ns\<lparr>xActive := pdFALSE\<rparr>) (xPidNamespaces s),
                 uxNamespaceBitmap := 0, ulNextNamespaceId := 1\<rparr>
      in case xPidNamespaceCreate s1 (Some ''root'') of
           (xRoot, s2) \<Rightarrow> s2\<lparr>xRootNamespace := xRoot\<rparr>)"

text \<open>
  A handle that is not the address of a slot of \<open>xPidNamespaces\<close> is not a namespace
  handle; the model answers it as it answers \<open>NULL\<close>.
\<close>

definition xPidNamespaceDelete ::
  "'w::len word pid_state \<Rightarrow> PidNamespaceHandle_t \<Rightarrow> BaseType_t \<times> 'w word pid_state" where
  "xPidNamespaceDelete s xNamespace =
     (case xNamespace of
        None \<Rightarrow> (pdFAIL, s)
      | Some i \<Rightarrow>
          if \<not> i < length (xPidNamespaces s) then (pdFAIL, s)
          else let pxNamespace = xPidNamespaces s ! i in
            if xActive pxNamespace = pdFALSE then (pdFAIL, s)
            else if uxTaskCount pxNamespace > 0 then (pdFAIL, s)
            else if i < configMAX_PID_NAMESPACES then
              (pdPASS,
               s\<lparr>xPidNamespaces := (xPidNamespaces s)[i := pxNamespace\<lparr>xActive := pdFALSE\<rparr>],
                 uxNamespaceBitmap := uxNamespaceBitmap s AND NOT (push_bit i 1)\<rparr>)
            else (pdPASS, s))"

definition xPidNamespaceAddTask ::
  "'w::len word pid_state \<Rightarrow> PidNamespaceHandle_t \<Rightarrow> TaskHandle_t \<Rightarrow> BaseType_t \<times> 'w word pid_state" where
  "xPidNamespaceAddTask s xNamespace xTask =
     (case xNamespace of
        None \<Rightarrow> (pdFAIL, s)
      | Some i \<Rightarrow>
          if xTask = NULL \<or> \<not> i < length (xPidNamespaces s) then (pdFAIL, s)
          else let pxNamespace = xPidNamespaces s ! i in
            if xActive pxNamespace = pdFALSE then (pdFAIL, s)
            else if pvTaskGetPidNamespace (xKernel s) xTask \<noteq> NULL then (pdFAIL, s)
            else
              (case prvAllocateVirtualPid pxNamespace of
                 (ulVirtualPid, ns1) \<Rightarrow>
                   if ulVirtualPid \<noteq> 0 then
                     (case xTaskSetPidNamespace (xKernel s) xTask xNamespace ulVirtualPid of
                        (xSet, k1) \<Rightarrow>
                          if xSet = pdPASS then
                            (pdPASS,
                             s\<lparr>xPidNamespaces := (xPidNamespaces s)
                                  [i := ns1\<lparr>uxTaskCount := uxTaskCount ns1 + 1\<rparr>],
                               xKernel := k1\<rparr>)
                          else
                            (pdFAIL, s\<lparr>xPidNamespaces := (xPidNamespaces s)[i := ns1],
                                       xKernel := k1\<rparr>))
                   else (pdFAIL, s\<lparr>xPidNamespaces := (xPidNamespaces s)[i := ns1]\<rparr>)))"

definition xPidNamespaceRemoveTask ::
  "'w::len word pid_state \<Rightarrow> PidNamespaceHandle_t \<Rightarrow> TaskHandle_t \<Rightarrow> BaseType_t \<times> 'w word pid_state" where
  "xPidNamespaceRemoveTask s xNamespace xTask =
     (case xNamespace of
        None \<Rightarrow> (pdFAIL, s)
      | Some i \<Rightarrow>
          if xTask = NULL \<or> \<not> i < length (xPidNamespaces s) then (pdFAIL, s)
          else if pvTaskGetPidNamespace (xKernel s) xTask = xNamespace then
            (case xTaskSetPidNamespace (xKernel s) xTask NULL 0 of
               (xSet, k1) \<Rightarrow>
                 if xSet = pdPASS then
                   (let pxNamespace = xPidNamespaces s ! i in
                    (pdPASS,
                     s\<lparr>xPidNamespaces := (xPidNamespaces s)
                          [i := (if uxTaskCount pxNamespace > 0
                                 then pxNamespace\<lparr>uxTaskCount := uxTaskCount pxNamespace - 1\<rparr>
                                 else pxNamespace)],
                       xKernel := k1\<rparr>))
                 else (pdFAIL, s\<lparr>xKernel := k1\<rparr>))
          else (pdFAIL, s))"

text \<open>The scan of \<open>xTasks\<close>: the first non-\<open>NULL\<close> slot whose task has the wanted PID.\<close>

fun prvScanTasks :: "'w::len word kernel \<Rightarrow> 'w word \<Rightarrow> TaskHandle_t list \<Rightarrow> TaskHandle_t" where
  "prvScanTasks k ulVirtualPid [] = NULL"
| "prvScanTasks k ulVirtualPid (xTask # rest) =
     (if xTask \<noteq> NULL \<and> uxTaskGetVirtualPid k xTask = ulVirtualPid then xTask
      else prvScanTasks k ulVirtualPid rest)"

definition xPidNamespaceFindTaskByVirtualPid ::
  "'w::len word pid_state \<Rightarrow> PidNamespaceHandle_t \<Rightarrow> 'w word \<Rightarrow> TaskHandle_t" where
  "xPidNamespaceFindTaskByVirtualPid s xNamespace ulVirtualPid =
     (case xNamespace of
        None \<Rightarrow> NULL
      | Some i \<Rightarrow>
          if \<not> i < length (xPidNamespaces s) then NULL
          else let pxNamespace = xPidNamespaces s ! i in
            if xActive pxNamespace = pdFALSE \<or> ulVirtualPid = 0 then NULL
            else prvScanTasks (xKernel s) ulVirtualPid
                   (take configPID_NAMESPACE_MAX_PID (xTasks pxNamespace)))"

definition prvPidNamespaceTaskDelete :: "'w::len word pid_state \<Rightarrow> TaskHandle_t \<Rightarrow> 'w word pid_state" where
  "prvPidNamespaceTaskDelete s xTask =
     (if xTask \<noteq> NULL then
        (let xNamespace = pvTaskGetPidNamespace (xKernel s) xTask in
         if xNamespace \<noteq> NULL then snd (xPidNamespaceRemoveTask s xNamespace xTask) else s)
      else s)"

definition xPidNamespaceGetRoot :: "'w word pid_state \<Rightarrow> PidNamespaceHandle_t" where
  "xPidNamespaceGetRoot s = xRootNamespace s"

text \<open>
  \<open>xTaskCreateInNamespace\<close>: the argument \<open>xNew\<close> is the scheduler's answer to the
  task creation. The result carries the status, the value stored through
  \<open>pxCreatedTask\<close> (when the caller passes one) and the new state. The call of
  \<open>vTaskDelete\<close> on the failure path is commented out in the source.
\<close>

definition xTaskCreateInNamespace ::
  "'w::len word pid_state \<Rightarrow> PidNamespaceHandle_t \<Rightarrow> TaskHandle_t \<Rightarrow>
     BaseType_t \<times> TaskHandle_t option \<times> 'w word pid_state" where
  "xTaskCreateInNamespace s xNamespace xNew =
     (if xNamespace = NULL then (pdFAIL, None, s)
      else
        (case xTaskCreate (xKernel s) xNew of
           (xCreated, xNewTask, k1) \<Rightarrow>
             if xCreated = pdPASS then
               (case xPidNamespaceAddTask (s\<lparr>xKernel := k1\<rparr>) xNamespace xNewTask of
                  (xResult, s2) \<Rightarrow>
                    if xResult \<noteq> pdPASS then (xResult, Some NULL, s2)
                    else (xResult, Some xNewTask, s2))
             else (xCreated, None, s\<lparr>xKernel := k1\<rparr>)))"

text \<open>
  The operations a client can apply to the controller, and the state after a sequence
  of them. \<open>OpCreateInNamespace\<close> carries the scheduler's answer to the task creation,
  \<open>OpTaskDelete\<close> is the scheduler's task-delete hook.
\<close>

datatype pid_op =
    OpCreate "string option"
  | OpDelete PidNamespaceHandle_t
  | OpAddTask PidNamespaceHandle_t TaskHandle_t
  | OpRemoveTask PidNamespaceHandle_t TaskHandle_t
  | OpCreateInNamespace PidNamespaceHandle_t TaskHandle_t
  | OpTaskDelete TaskHandle_t

fun pid_step :: "'w::len word pid_state \<Rightarrow> pid_op \<Rightarrow> 'w word pid_state" where
  "pid_step s (OpCreate pcName) = snd (xPidNamespaceCreate s pcName)"
| "pid_step s (OpDelete xNamespace) = snd (xPidNamespaceDelete s xNamespace)"
| "pid_step s (OpAddTask xNamespace xTask) = snd (xPidNamespaceAddTask s xNamespace xTask)"
| "pid_step s (OpRemoveTask xNamespace xTask) = snd (xPidNamespaceRemoveTask s xNamespace xTask)"
| "pid_step s (OpCreateInNamespace xNamespace xNew) =
     snd (snd (xTaskCreateInNamespace s xNamespace xNew))"
| "pid_step s (OpTaskDelete xTask) = prvPidNamespaceTaskDelete s xTask"

text \<open>
  Slot \<open>i\<close> holds a namespace in use (its bitmap bit is set) that has handed out
  every virtual PID: \<open>ulNextPid\<close> has passed \<open>ulMaxPid\<close>.
\<close>

definition pid_exhausted :: "'w::len word pid_state \<Rightarrow> nat \<Rightarrow> bool" where
  "pid_exhausted s i \<longleftrightarrow>
     i < length (xPidNamespaces s) \<and> i < configMAX_PID_NAMESPACES \<and>
     uxNamespaceBitmap s AND push_bit i 1 \<noteq> 0 \<and>
     ulNextPid (xPidNamespaces s ! i) > ulMaxPid (xPidNamespaces s ! i)"

text \<open>
  No namespace holds a task handle in its \<open>xTasks\<close> array.
\<close>

definition pid_tasks_unset :: "'w::len word pid_state \<Rightarrow> bool" where
  "pid_tasks_unset s \<longleftrightarrow>
     (\<forall>ns \<in> set (xPidNamespaces s). \<forall>t \<in> set (xTasks ns). t = NULL)"

text \<open>
  Scenarios on a 32-bit port. \<open>pid_full\<close>: after initialisation a namespace "A" is
  created (slot 1) and ten tasks are created in it; \<open>pid_drain\<close> removes all ten.
  \<open>pid_two_namespaces\<close>: namespaces "A" and "B" (slots 1 and 2) with one task created
  in each (tasks 1 and 2).
\<close>

definition pid_fill :: "pid_op list" where
  "pid_fill = OpCreate (Some ''A'') #
     map (\<lambda>t. OpCreateInNamespace (Some 1) (Some t)) [1..<11]"

definition pid_drain :: "pid_op list" where
  "pid_drain = map (\<lambda>t. OpRemoveTask (Some 1) (Some t)) [1..<11]"

definition pid_full :: "32 word pid_state" where
  "pid_full = foldl pid_step (prvPidNamespaceInit pid_boot) pid_fill"

definition pid_two_namespaces :: "32 word pid_state" where
  "pid_two_namespaces =
     foldl pid_step (prvPidNamespaceInit pid_boot)
       [OpCreate (Some ''A''), OpCreate (Some ''B''),
        OpCreateInNamespace (Some 1) (Some 1), OpCreateInNamespace (Some 2) (Some 2)]"

section \<open>IPC namespace controller\<close>

text \<open>
  The fields and file-static variables that share a name with the PID controller's
  carry the prefix \<open>ipc_\<close>. An IPC object is an opaque pointer: \<open>Some a\<close> is the
  object at address \<open>a\<close>, \<open>None\<close> the \<open>NULL\<close> pointer that marks a free registry slot.
  The per-namespace \<open>xObjectList\<close> is the list of the registry slots linked into it.
\<close>

definition configMAX_IPC_NAMESPACES :: nat where
  "configMAX_IPC_NAMESPACES = 4"

definition configMAX_IPC_NAMESPACE_NAME_LEN :: nat where
  "configMAX_IPC_NAMESPACE_NAME_LEN = 16"

definition configMAX_IPC_OBJECTS_PER_NAMESPACE :: nat where
  "configMAX_IPC_OBJECTS_PER_NAMESPACE = 32"

definition configMAX_TASK_NAME_LEN :: nat where
  "configMAX_TASK_NAME_LEN = 16"

datatype IpcObjectType_t = IPC_TYPE_QUEUE | IPC_TYPE_SEMAPHORE | IPC_TYPE_MUTEX | IPC_TYPE_EVENT_GROUP

record 'u IpcObjectEntry_t =
  pvIpcObject :: "nat option"
  xObjectType :: IpcObjectType_t
  pcObjectName :: string
  ulObjectId :: 'u
  xNamespace :: IpcNamespaceHandle_t

record 'u IpcNamespace_t =
  ipc_pcNamespaceName :: string
  ipc_ulNamespaceId :: 'u
  ulNextObjectId :: 'u
  xObjectList :: "nat list"
  uxObjectCount :: 'u
  ipc_xActive :: BaseType_t

record 'u ipc_state =
  xIpcNamespaces :: "'u IpcNamespace_t list"
  ipc_uxNamespaceBitmap :: 'u
  xIpcObjectEntries :: "'u IpcObjectEntry_t list"
  uxObjectEntryCount :: 'u
  ipc_xRootNamespace :: IpcNamespaceHandle_t
  ipc_ulNextNamespaceId :: 'u

definition uxMaxEntries :: nat where
  "uxMaxEntries = configMAX_IPC_NAMESPACES * configMAX_IPC_OBJECTS_PER_NAMESPACE"

definition prvStrcpy :: "string \<Rightarrow> nat \<Rightarrow> string" where
  "prvStrcpy pcSource xMaxLength = take (xMaxLength - 1) pcSource"

definition ipc_prvFindFreeNamespaceSlot :: "'w::len word ipc_state \<Rightarrow> nat option" where
  "ipc_prvFindFreeNamespaceSlot s =
     find (\<lambda>ux. ipc_uxNamespaceBitmap s AND push_bit ux 1 = 0) [0..<configMAX_IPC_NAMESPACES]"

definition prvFindFreeObjectEntry :: "'w::len word ipc_state \<Rightarrow> nat option" where
  "prvFindFreeObjectEntry s =
     find (\<lambda>ux. pvIpcObject (xIpcObjectEntries s ! ux) = NULL) [0..<uxMaxEntries]"

definition prvFindObjectEntry ::
  "'w::len word ipc_state \<Rightarrow> IpcNamespaceHandle_t \<Rightarrow> nat option \<Rightarrow> nat option" where
  "prvFindObjectEntry s xNs pvObject =
     find (\<lambda>ux. xNamespace (xIpcObjectEntries s ! ux) = xNs \<and>
                 pvIpcObject (xIpcObjectEntries s ! ux) = pvObject) [0..<uxMaxEntries]"

definition ipc_prvInitializeNamespace ::
  "'w::len word IpcNamespace_t \<Rightarrow> 'w word \<Rightarrow> string \<Rightarrow> 'w word IpcNamespace_t \<times> 'w word" where
  "ipc_prvInitializeNamespace pxNamespace ulNextId pcName =
     (pxNamespace\<lparr>
        ipc_pcNamespaceName := prvStrcpy pcName configMAX_IPC_NAMESPACE_NAME_LEN,
        ipc_ulNamespaceId := ulNextId,
        ulNextObjectId := 1,
        xObjectList := [],
        uxObjectCount := 0,
        ipc_xActive := pdTRUE\<rparr>,
      ulNextId + 1)"

definition xIpcNamespaceCreate ::
  "'w::len word ipc_state \<Rightarrow> string option \<Rightarrow> IpcNamespaceHandle_t \<times> 'w word ipc_state" where
  "xIpcNamespaceCreate s pcName =
     (case pcName of
        None \<Rightarrow> (NULL, s)
      | Some nm \<Rightarrow>
          if length nm = 0 then (NULL, s)
          else
            (case ipc_prvFindFreeNamespaceSlot s of
               None \<Rightarrow> (NULL, s)
             | Some uxSlot \<Rightarrow>
                 (case ipc_prvInitializeNamespace (xIpcNamespaces s ! uxSlot)
                         (ipc_ulNextNamespaceId s) nm of
                    (ns, ulNextId) \<Rightarrow>
                      (Some uxSlot,
                       s\<lparr>xIpcNamespaces := (xIpcNamespaces s)[uxSlot := ns],
                         ipc_ulNextNamespaceId := ulNextId,
                         ipc_uxNamespaceBitmap :=
                           ipc_uxNamespaceBitmap s OR push_bit uxSlot 1\<rparr>))))"

definition ipc_boot :: "'w::len word ipc_state" where
  "ipc_boot =
     \<lparr>xIpcNamespaces = replicate configMAX_IPC_NAMESPACES
        \<lparr>ipc_pcNamespaceName = [], ipc_ulNamespaceId = 0, ulNextObjectId = 0,
         xObjectList = [], uxObjectCount = 0, ipc_xActive = pdFALSE\<rparr>,
      ipc_uxNamespaceBitmap = 0,
      xIpcObjectEntries = replicate uxMaxEntries
        \<lparr>pvIpcObject = NULL, xObjectType = IPC_TYPE_QUEUE, pcObjectName = [],
         ulObjectId = 0, xNamespace = NULL\<rparr>,
      uxObjectEntryCount = 0, ipc_xRootNamespace = NULL, ipc_ulNextNamespaceId = 1\<rparr>"

definition vIpcNamespaceInit :: "'w::len word ipc_state \<Rightarrow> 'w word ipc_state" where
  "vIpcNamespaceInit s =
     (let s1 = s\<lparr>xIpcNamespaces := map (\<lambda>ns. ns\<lparr>ipc_xActive := pdFALSE\<rparr>) (xIpcNamespaces s),
                 xIpcObjectEntries :=
                   map (\<lambda>e. e\<lparr>pvIpcObject := NULL, xNamespace := NULL\<rparr>) (xIpcObjectEntries s),
                 ipc_uxNamespaceBitmap := 0, uxObjectEntryCount := 0,
                 ipc_ulNextNamespaceId := 1\<rparr>
      in case xIpcNamespaceCreate s1 (Some ''root'') of
           (xRoot, s2) \<Rightarrow> s2\<lparr>ipc_xRootNamespace := xRoot\<rparr>)"

definition xIpcNamespaceDelete ::
  "'w::len word ipc_state \<Rightarrow> IpcNamespaceHandle_t \<Rightarrow> BaseType_t \<times> 'w word ipc_state" where
  "xIpcNamespaceDelete s xNs =
     (case xNs of
        None \<Rightarrow> (pdFAIL, s)
      | Some i \<Rightarrow>
          if \<not> i < length (xIpcNamespaces s) then (pdFAIL, s)
          else let pxNamespace = xIpcNamespaces s ! i in
            if ipc_xActive pxNamespace = pdFALSE then (pdFAIL, s)
            else if xNs = ipc_xRootNamespace s then (pdFAIL, s)
            else if uxObjectCount pxNamespace > 0 then (pdFAIL, s)
            else if i < configMAX_IPC_NAMESPACES then
              (pdPASS,
               s\<lparr>ipc_uxNamespaceBitmap := ipc_uxNamespaceBitmap s AND NOT (push_bit i 1),
                 xIpcNamespaces := (xIpcNamespaces s)[i := pxNamespace\<lparr>ipc_xActive := pdFALSE\<rparr>]\<rparr>)
            else (pdPASS, s))"

text \<open>
  \<open>vListInsert\<close> keeps the namespace's list ordered by object id; the ids handed out
  grow, so the new slot goes behind the slots whose id is not larger.
\<close>

definition vListInsert :: "'w::len word IpcObjectEntry_t list \<Rightarrow> nat list \<Rightarrow> nat \<Rightarrow> 'w word \<Rightarrow> nat list" where
  "vListInsert entries xList ux ulId =
     takeWhile (\<lambda>j. ulObjectId (entries ! j) \<le> ulId) xList
       @ ux # dropWhile (\<lambda>j. ulObjectId (entries ! j) \<le> ulId) xList"

definition ulIpcNamespaceRegisterObject ::
  "'w::len word ipc_state \<Rightarrow> IpcNamespaceHandle_t \<Rightarrow> nat option \<Rightarrow> IpcObjectType_t \<Rightarrow>
     string option \<Rightarrow> 'w word \<times> 'w word ipc_state" where
  "ulIpcNamespaceRegisterObject s xNs pvObject xType pcName =
     (case xNs of
        None \<Rightarrow> (0, s)
      | Some i \<Rightarrow>
          if pvObject = NULL \<or> \<not> i < length (xIpcNamespaces s) then (0, s)
          else let pxNamespace = xIpcNamespaces s ! i in
            if ipc_xActive pxNamespace = pdFALSE then (0, s)
            else if uxObjectCount pxNamespace \<ge> of_nat configMAX_IPC_OBJECTS_PER_NAMESPACE
              then (0, s)
            else
              (case prvFindFreeObjectEntry s of
                 None \<Rightarrow> (0, s)
               | Some ux \<Rightarrow>
                   (let ulId = ulNextObjectId pxNamespace;
                        pxEntry = (xIpcObjectEntries s ! ux)\<lparr>
                          pvIpcObject := pvObject, xObjectType := xType, xNamespace := xNs,
                          ulObjectId := ulId,
                          pcObjectName :=
                            (case pcName of
                               Some nm \<Rightarrow> prvStrcpy nm configMAX_TASK_NAME_LEN
                             | None \<Rightarrow> [])\<rparr>;
                        entries = (xIpcObjectEntries s)[ux := pxEntry]
                    in (ulId,
                        s\<lparr>xIpcObjectEntries := entries,
                          xIpcNamespaces := (xIpcNamespaces s)[i := pxNamespace\<lparr>
                            ulNextObjectId := ulId + 1,
                            xObjectList := vListInsert entries (xObjectList pxNamespace) ux ulId,
                            uxObjectCount := uxObjectCount pxNamespace + 1\<rparr>],
                          uxObjectEntryCount := uxObjectEntryCount s + 1\<rparr>))))"

definition xIpcNamespaceUnregisterObject ::
  "'w::len word ipc_state \<Rightarrow> IpcNamespaceHandle_t \<Rightarrow> nat option \<Rightarrow> BaseType_t \<times> 'w word ipc_state" where
  "xIpcNamespaceUnregisterObject s xNs pvObject =
     (case xNs of
        None \<Rightarrow> (pdFAIL, s)
      | Some i \<Rightarrow>
          if pvObject = NULL \<or> \<not> i < length (xIpcNamespaces s) then (pdFAIL, s)
          else let pxNamespace = xIpcNamespaces s ! i in
            if ipc_xActive pxNamespace = pdFALSE then (pdFAIL, s)
            else
              (case prvFindObjectEntry s xNs pvObject of
                 None \<Rightarrow> (pdFAIL, s)
               | Some ux \<Rightarrow>
                   (pdPASS,
                    s\<lparr>xIpcObjectEntries := (xIpcObjectEntries s)
                         [ux := (xIpcObjectEntries s ! ux)\<lparr>pvIpcObject := NULL, xNamespace := NULL\<rparr>],
                      xIpcNamespaces := (xIpcNamespaces s)[i := pxNamespace\<lparr>
                        xObjectList := removeAll ux (xObjectList pxNamespace),
                        uxObjectCount := uxObjectCount pxNamespace - 1\<rparr>],
                      uxObjectEntryCount := uxObjectEntryCount s - 1\<rparr>)))"

definition xIpcNamespaceGetTaskNamespace :: "'w word kernel \<Rightarrow> TaskHandle_t \<Rightarrow> IpcNamespaceHandle_t" where
  "xIpcNamespaceGetTaskNamespace k xTask = pvTaskGetIpcNamespace k xTask"

text \<open>
  The scan of \<open>xIpcNamespaceCheckAccess\<close>: the first registry slot that holds the object
  decides; when no slot holds it, the object is unregistered and access is allowed.
\<close>

fun prvScanAccess ::
  "IpcNamespaceHandle_t \<Rightarrow> IpcNamespaceHandle_t \<Rightarrow> nat option \<Rightarrow> 'u IpcObjectEntry_t list \<Rightarrow>
     BaseType_t" where
  "prvScanAccess xTaskNamespace xRoot pvObject [] = pdTRUE"
| "prvScanAccess xTaskNamespace xRoot pvObject (pxEntry # rest) =
     (if pvIpcObject pxEntry = pvObject then
        (if xNamespace pxEntry = xTaskNamespace then pdTRUE
         else if xTaskNamespace = xRoot then pdTRUE
         else pdFALSE)
      else prvScanAccess xTaskNamespace xRoot pvObject rest)"

definition xIpcNamespaceCheckAccess ::
  "'w::len word kernel \<Rightarrow> 'w word ipc_state \<Rightarrow> TaskHandle_t \<Rightarrow> nat option \<Rightarrow> BaseType_t" where
  "xIpcNamespaceCheckAccess k s xTask pvObject =
     (if pvObject = NULL then pdFALSE
      else
        (let xTaskNamespace =
               (case xIpcNamespaceGetTaskNamespace k xTask of
                  None \<Rightarrow> ipc_xRootNamespace s
                | Some n \<Rightarrow> Some n)
         in prvScanAccess xTaskNamespace (ipc_xRootNamespace s) pvObject
              (take uxMaxEntries (xIpcObjectEntries s))))"

text \<open>
  The vocabulary of the access rule: the IPC namespace a task acts in (the root
  namespace when the task is bound to none) and the registry entry of an object (the
  first slot that holds it; an object registered once has exactly one).
\<close>

definition ipc_task_namespace ::
  "'w::len word kernel \<Rightarrow> 'w word ipc_state \<Rightarrow> TaskHandle_t \<Rightarrow> IpcNamespaceHandle_t" where
  "ipc_task_namespace k s xTask =
     (if pvTaskGetIpcNamespace k xTask = NULL then ipc_xRootNamespace s
      else pvTaskGetIpcNamespace k xTask)"

definition ipc_registry_entry ::
  "'w::len word ipc_state \<Rightarrow> nat \<Rightarrow> 'w word IpcObjectEntry_t option" where
  "ipc_registry_entry s a =
     find (\<lambda>e. pvIpcObject e = Some a) (take uxMaxEntries (xIpcObjectEntries s))"

section \<open>CGroup controller\<close>

text \<open>
  The fields that share a name with the PID controller's carry the prefix \<open>cg_\<close>.
  \<open>xTaskCGroupMap\<close> holds the \<open>uxMapCount\<close> entries in use of the mapping table, in
  table order (the slots beyond \<open>uxMapCount\<close> are never read). The unused \<open>xTaskList\<close>
  of a cgroup is left out.
  The value of \<open>configCGROUP_CPU_WINDOW_DURATION\<close> is \<open>pdMS_TO_TICKS(1000)\<close>, which
  depends on the scheduler's tick rate; it is the parameter \<open>cfgWindow\<close> of the
  functions that use it. \<open>xCurrentTime\<close> is the answer of \<open>xTaskGetTickCount\<close> and
  \<open>xCurrentTask\<close> the answer of \<open>xTaskGetCurrentTaskHandle\<close>.
\<close>

definition configMAX_CGROUPS :: nat where
  "configMAX_CGROUPS = 8"

definition configMAX_CGROUP_NAME_LEN :: nat where
  "configMAX_CGROUP_NAME_LEN = 16"

definition CGROUP_NO_LIMIT :: "'w::len word" where
  "CGROUP_NO_LIMIT = - 1"

definition CGROUP_CPU_QUOTA_MAX :: "'w::len word" where
  "CGROUP_CPU_QUOTA_MAX = 1000"

record 'u MemoryLimits_t =
  ulMemoryLimit :: 'u
  ulMemoryUsed :: 'u
  ulMemoryPeak :: 'u

record 'u CpuLimits_t =
  ulCpuQuota :: 'u
  ulTicksUsed :: 'u
  ulTicksQuota :: 'u
  ulPenaltyTicksLeft :: 'u
  xWindowStartTime :: 'u
  xWindowDuration :: 'u

record 'u CGroup_t =
  pcGroupName :: string
  xMemoryLimits :: "'u MemoryLimits_t"
  xCpuLimits :: "'u CpuLimits_t"
  cg_uxTaskCount :: 'u
  cg_xActive :: BaseType_t

record 'u cg_state =
  xCGroups :: "'u CGroup_t list"
  uxCGroupBitmap :: 'u
  xTaskCGroupMap :: "(TaskHandle_t \<times> CGroupHandle_t) list"

definition prvFindFreeCGroupSlot :: "'w::len word cg_state \<Rightarrow> nat option" where
  "prvFindFreeCGroupSlot cs =
     find (\<lambda>xIndex. uxCGroupBitmap cs AND push_bit xIndex 1 = 0) [0..<configMAX_CGROUPS]"

text \<open>
  \<open>prvGetCGroupIndex\<close> finds the slot whose address the handle is; \<open>None\<close> stands for
  the source's \<open>-1\<close>.
\<close>

definition prvGetCGroupIndex :: "'w::len word cg_state \<Rightarrow> CGroupHandle_t \<Rightarrow> nat option" where
  "prvGetCGroupIndex cs xCGroup =
     (case xCGroup of
        None \<Rightarrow> None
      | Some i \<Rightarrow> if i < configMAX_CGROUPS \<and> i < length (xCGroups cs) then Some i else None)"

definition prvGetCGroupFromTask :: "'w::len word cg_state \<Rightarrow> TaskHandle_t \<Rightarrow> CGroupHandle_t" where
  "prvGetCGroupFromTask cs xTask =
     (if xTask = NULL then NULL
      else (case find (\<lambda>e. fst e = xTask) (xTaskCGroupMap cs) of
              None \<Rightarrow> NULL
            | Some e \<Rightarrow> snd e))"

definition prvAddTaskToMap ::
  "'w::len word cg_state \<Rightarrow> TaskHandle_t \<Rightarrow> CGroupHandle_t \<Rightarrow> BaseType_t \<times> 'w word cg_state" where
  "prvAddTaskToMap cs xTask xCGroup =
     (if length (xTaskCGroupMap cs) \<ge> configMAX_CGROUPS * 8 then (pdFAIL, cs)
      else if prvGetCGroupFromTask cs xTask \<noteq> NULL then (pdFAIL, cs)
      else (pdPASS, cs\<lparr>xTaskCGroupMap := xTaskCGroupMap cs @ [(xTask, xCGroup)]\<rparr>))"

text \<open>
  \<open>prvCalculatePenalty\<close> divides by the tick quota. With a quota of zero and ticks
  used, the division is by zero, which C leaves undefined: the result is \<open>None\<close>.
\<close>

definition prvCalculatePenalty :: "'w::len word \<Rightarrow> 'w word CGroup_t \<Rightarrow> 'w word CGroup_t option" where
  "prvCalculatePenalty cfgWindow pxCGroup =
     (let lim = xCpuLimits pxCGroup in
      if ulTicksQuota lim \<noteq> CGROUP_NO_LIMIT \<and> ulTicksUsed lim > ulTicksQuota lim then
        (let ulExcess = ulTicksUsed lim - ulTicksQuota lim in
         if ulTicksQuota lim = 0 then None
         else Some (pxCGroup\<lparr>xCpuLimits := lim\<lparr>ulPenaltyTicksLeft :=
                ulPenaltyTicksLeft lim + ulExcess * cfgWindow div ulTicksQuota lim\<rparr>\<rparr>))
      else Some pxCGroup)"

definition prvUpdateCpuWindow ::
  "'w::len word \<Rightarrow> 'w word \<Rightarrow> 'w word CGroup_t \<Rightarrow> 'w word CGroup_t option" where
  "prvUpdateCpuWindow cfgWindow xCurrentTime pxCGroup =
     (if xCurrentTime - xWindowStartTime (xCpuLimits pxCGroup)
           \<ge> xWindowDuration (xCpuLimits pxCGroup) then
        (case prvCalculatePenalty cfgWindow pxCGroup of
           None \<Rightarrow> None
         | Some g1 \<Rightarrow>
             (let lim = (xCpuLimits g1)\<lparr>xWindowStartTime := xCurrentTime, ulTicksUsed := 0\<rparr> in
              Some (g1\<lparr>xCpuLimits :=
                (if ulPenaltyTicksLeft lim > 0 then
                   lim\<lparr>ulPenaltyTicksLeft :=
                     (if ulPenaltyTicksLeft lim > 1 then ulPenaltyTicksLeft lim - 1 else 0)\<rparr>
                 else lim)\<rparr>)))
      else Some pxCGroup)"

definition xCGroupCreate ::
  "'w::len word \<Rightarrow> 'w word \<Rightarrow> 'w word cg_state \<Rightarrow> string \<Rightarrow> 'w word \<Rightarrow> 'w word \<Rightarrow>
     CGroupHandle_t \<times> 'w word cg_state" where
  "xCGroupCreate cfgWindow xCurrentTime cs pcName ulMemLimit ulQuota =
     (case prvFindFreeCGroupSlot cs of
        None \<Rightarrow> (NULL, cs)
      | Some xIndex \<Rightarrow>
          (Some xIndex,
           cs\<lparr>uxCGroupBitmap := uxCGroupBitmap cs OR push_bit xIndex 1,
              xCGroups := (xCGroups cs)[xIndex :=
                \<lparr>pcGroupName = take (configMAX_CGROUP_NAME_LEN - 1) pcName,
                 xMemoryLimits =
                   \<lparr>ulMemoryLimit = ulMemLimit, ulMemoryUsed = 0, ulMemoryPeak = 0\<rparr>,
                 xCpuLimits =
                   \<lparr>ulCpuQuota = ulQuota, ulTicksUsed = 0,
                    ulTicksQuota =
                      (if ulQuota = CGROUP_CPU_QUOTA_MAX then CGROUP_NO_LIMIT else ulQuota),
                    ulPenaltyTicksLeft = 0, xWindowStartTime = xCurrentTime,
                    xWindowDuration = cfgWindow\<rparr>,
                 cg_uxTaskCount = 0, cg_xActive = pdTRUE\<rparr>]\<rparr>))"

definition xCGroupDelete ::
  "'w::len word cg_state \<Rightarrow> CGroupHandle_t \<Rightarrow> BaseType_t \<times> 'w word cg_state" where
  "xCGroupDelete cs xCGroup =
     (if xCGroup = NULL then (pdFAIL, cs)
      else
        (case prvGetCGroupIndex cs xCGroup of
           None \<Rightarrow> (pdFAIL, cs)
         | Some xIndex \<Rightarrow>
             (let pxCGroup = xCGroups cs ! xIndex in
              if cg_uxTaskCount pxCGroup > 0 then (pdFAIL, cs)
              else
                (pdPASS,
                 cs\<lparr>xCGroups := (xCGroups cs)[xIndex := pxCGroup\<lparr>cg_xActive := pdFALSE\<rparr>],
                    uxCGroupBitmap := uxCGroupBitmap cs AND NOT (push_bit xIndex 1)\<rparr>))))"

text \<open>
  A handle that is not the address of a slot of \<open>xCGroups\<close> is not a cgroup handle;
  \<open>xCGroupAddTask\<close> and \<open>xCGroupSetCpuQuota\<close> answer it in the model as they answer
  \<open>NULL\<close>, so every handle in the mapping table names a slot.
\<close>

definition xCGroupAddTask ::
  "'w::len word cg_state \<Rightarrow> CGroupHandle_t \<Rightarrow> TaskHandle_t \<Rightarrow> BaseType_t \<times> 'w word cg_state" where
  "xCGroupAddTask cs xCGroup xTask =
     (case xCGroup of
        None \<Rightarrow> (pdFAIL, cs)
      | Some i \<Rightarrow>
          if xTask = NULL \<or> \<not> i < length (xCGroups cs) then (pdFAIL, cs)
          else if cg_xActive (xCGroups cs ! i) = pdFALSE then (pdFAIL, cs)
          else
            (case prvAddTaskToMap cs xTask xCGroup of
               (xResult, cs1) \<Rightarrow>
                 if xResult = pdPASS then
                   (pdPASS,
                    cs1\<lparr>xCGroups := (xCGroups cs1)[i := (xCGroups cs1 ! i)
                          \<lparr>cg_uxTaskCount := cg_uxTaskCount (xCGroups cs1 ! i) + 1\<rparr>]\<rparr>)
                 else (xResult, cs1)))"

definition xCGroupSetCpuQuota ::
  "'w::len word cg_state \<Rightarrow> CGroupHandle_t \<Rightarrow> 'w word \<Rightarrow> BaseType_t \<times> 'w word cg_state" where
  "xCGroupSetCpuQuota cs xCGroup ulQuota =
     (case xCGroup of
        None \<Rightarrow> (pdFAIL, cs)
      | Some i \<Rightarrow>
          if \<not> i < length (xCGroups cs) then (pdFAIL, cs)
          else if cg_xActive (xCGroups cs ! i) = pdFALSE then (pdFAIL, cs)
          else if ulQuota > CGROUP_CPU_QUOTA_MAX then (pdFAIL, cs)
          else
            (pdPASS,
             cs\<lparr>xCGroups := (xCGroups cs)[i := (xCGroups cs ! i)\<lparr>xCpuLimits :=
                  (xCpuLimits (xCGroups cs ! i))\<lparr>
                     ulCpuQuota := ulQuota,
                     ulTicksQuota :=
                       (if ulQuota = CGROUP_CPU_QUOTA_MAX then CGROUP_NO_LIMIT else ulQuota)\<rparr>\<rparr>]\<rparr>))"

text \<open>The cgroup a task is bound to: the slot its mapping entry points at.\<close>

definition pxCGroupOfTask :: "'w::len word cg_state \<Rightarrow> TaskHandle_t \<Rightarrow> 'w word CGroup_t option" where
  "pxCGroupOfTask cs xTask =
     (case prvGetCGroupFromTask cs xTask of
        None \<Rightarrow> None
      | Some i \<Rightarrow> if i < length (xCGroups cs) then Some (xCGroups cs ! i) else None)"

definition prvCGroupCanTaskRun :: "'w::len word cg_state \<Rightarrow> TaskHandle_t \<Rightarrow> BaseType_t" where
  "prvCGroupCanTaskRun cs xTask =
     (if xTask = NULL then pdTRUE
      else
        (case pxCGroupOfTask cs xTask of
           None \<Rightarrow> pdTRUE
         | Some pxCGroup \<Rightarrow>
             if ulPenaltyTicksLeft (xCpuLimits pxCGroup) > 0 then pdFALSE
             else if ulTicksQuota (xCpuLimits pxCGroup) \<noteq> CGROUP_NO_LIMIT \<and>
                     ulTicksUsed (xCpuLimits pxCGroup) \<ge> ulTicksQuota (xCpuLimits pxCGroup)
               then pdFALSE
             else pdTRUE))"

text \<open>
  The tick hook. First the cgroup of the running task is charged one tick; then every
  slot in use and active has its window checked and its penalty reduced.
\<close>

definition prvChargeCurrentTask :: "'w::len word cg_state \<Rightarrow> TaskHandle_t \<Rightarrow> 'w word cg_state" where
  "prvChargeCurrentTask cs xCurrentTask =
     (if xCurrentTask \<noteq> NULL then
        (case prvGetCGroupFromTask cs xCurrentTask of
           None \<Rightarrow> cs
         | Some i \<Rightarrow>
             if i < length (xCGroups cs) then
               cs\<lparr>xCGroups := (xCGroups cs)[i := (xCGroups cs ! i)\<lparr>xCpuLimits :=
                    (xCpuLimits (xCGroups cs ! i))\<lparr>ulTicksUsed :=
                       ulTicksUsed (xCpuLimits (xCGroups cs ! i)) + 1\<rparr>\<rparr>]\<rparr>
             else cs)
      else cs)"

definition prvTickCGroup ::
  "'w::len word \<Rightarrow> 'w word \<Rightarrow> 'w word CGroup_t \<Rightarrow> 'w word CGroup_t option" where
  "prvTickCGroup cfgWindow xCurrentTime pxCGroup =
     (case prvUpdateCpuWindow cfgWindow xCurrentTime pxCGroup of
        None \<Rightarrow> None
      | Some g \<Rightarrow>
          Some (if ulPenaltyTicksLeft (xCpuLimits g) > 0
                then g\<lparr>xCpuLimits := (xCpuLimits g)\<lparr>ulPenaltyTicksLeft :=
                         ulPenaltyTicksLeft (xCpuLimits g) - 1\<rparr>\<rparr>
                else g))"

fun prvTickLoop ::
  "'w::len word \<Rightarrow> 'w word \<Rightarrow> 'w word \<Rightarrow> nat list \<Rightarrow> 'w word CGroup_t list \<Rightarrow>
     'w word CGroup_t list option" where
  "prvTickLoop cfgWindow xCurrentTime uxBitmap [] groups = Some groups"
| "prvTickLoop cfgWindow xCurrentTime uxBitmap (xIndex # rest) groups =
     (if uxBitmap AND push_bit xIndex 1 \<noteq> 0 \<and> cg_xActive (groups ! xIndex) = pdTRUE then
        (case prvTickCGroup cfgWindow xCurrentTime (groups ! xIndex) of
           None \<Rightarrow> None
         | Some g \<Rightarrow> prvTickLoop cfgWindow xCurrentTime uxBitmap rest (groups[xIndex := g]))
      else prvTickLoop cfgWindow xCurrentTime uxBitmap rest groups)"

definition prvCGroupUpdateTick ::
  "'w::len word \<Rightarrow> 'w word \<Rightarrow> TaskHandle_t \<Rightarrow> 'w word cg_state \<Rightarrow> 'w word cg_state option" where
  "prvCGroupUpdateTick cfgWindow xCurrentTime xCurrentTask cs =
     (let cs1 = prvChargeCurrentTask cs xCurrentTask in
      case prvTickLoop cfgWindow xCurrentTime (uxCGroupBitmap cs1) [0..<configMAX_CGROUPS]
             (xCGroups cs1) of
        None \<Rightarrow> None
      | Some groups \<Rightarrow> Some (cs1\<lparr>xCGroups := groups\<rparr>))"

definition cg_boot :: "'w::len word cg_state" where
  "cg_boot =
     \<lparr>xCGroups = replicate configMAX_CGROUPS
        \<lparr>pcGroupName = [],
         xMemoryLimits = \<lparr>ulMemoryLimit = 0, ulMemoryUsed = 0, ulMemoryPeak = 0\<rparr>,
         xCpuLimits = \<lparr>ulCpuQuota = 0, ulTicksUsed = 0, ulTicksQuota = 0,
                       ulPenaltyTicksLeft = 0, xWindowStartTime = 0, xWindowDuration = 0\<rparr>,
         cg_uxTaskCount = 0, cg_xActive = pdFALSE\<rparr>,
      uxCGroupBitmap = 0, xTaskCGroupMap = []\<rparr>"

text \<open>
  The vocabulary of the claims about CPU accounting.
  \<open>cg_quota_consistent\<close>: the tick quota is the one \<open>xCGroupCreate\<close> and
  \<open>xCGroupSetCpuQuota\<close> derive from the CPU quota (the only writers of both fields).
  \<open>cg_excess_penalty\<close>: the penalty for the window that ends,
  \<open>(max(0, ticks-used - quota) * window) / quota\<close>, nothing for an unlimited quota.
  \<open>cg_charged\<close>: the ticks used by slot \<open>i\<close> once the running task has been charged.
  \<open>cg_dec\<close>: one tick less of penalty, stopping at zero.
\<close>

definition cg_quota_consistent :: "'w::len word CGroup_t \<Rightarrow> bool" where
  "cg_quota_consistent g \<longleftrightarrow>
     ulTicksQuota (xCpuLimits g) =
       (if ulCpuQuota (xCpuLimits g) = CGROUP_CPU_QUOTA_MAX then CGROUP_NO_LIMIT
        else ulCpuQuota (xCpuLimits g))"

definition cg_excess_penalty :: "'w::len word \<Rightarrow> 'w word \<Rightarrow> 'w word \<Rightarrow> 'w word" where
  "cg_excess_penalty cfgWindow ulUsed ulQuota =
     (if ulQuota = CGROUP_NO_LIMIT \<or> ulUsed \<le> ulQuota then 0
      else (ulUsed - ulQuota) * cfgWindow div ulQuota)"

definition cg_charged :: "'w::len word cg_state \<Rightarrow> TaskHandle_t \<Rightarrow> nat \<Rightarrow> 'w word" where
  "cg_charged cs xCurrentTask i =
     (if xCurrentTask \<noteq> NULL \<and> prvGetCGroupFromTask cs xCurrentTask = Some i
      then ulTicksUsed (xCpuLimits (xCGroups cs ! i)) + 1
      else ulTicksUsed (xCpuLimits (xCGroups cs ! i)))"

definition cg_dec :: "'w::len word \<Rightarrow> 'w word" where
  "cg_dec p = (if p > 0 then p - 1 else 0)"

text \<open>
  The remaining functions of the controller that write its state.
  \<open>prvRemoveTaskFromMap\<close> finds the first entry of the task, moves the last entry of
  the table into its place and shortens the table by one.
\<close>

definition prvRemoveTaskFromMap ::
  "'w::len word cg_state \<Rightarrow> TaskHandle_t \<Rightarrow> BaseType_t \<times> 'w word cg_state" where
  "prvRemoveTaskFromMap cs xTask =
     (let ux = length (takeWhile (\<lambda>e. fst e \<noteq> xTask) (xTaskCGroupMap cs)) in
      if ux < length (xTaskCGroupMap cs) then
        (pdPASS,
         cs\<lparr>xTaskCGroupMap :=
              butlast (if ux < length (xTaskCGroupMap cs) - 1
                       then (xTaskCGroupMap cs)[ux := last (xTaskCGroupMap cs)]
                       else xTaskCGroupMap cs)\<rparr>)
      else (pdFAIL, cs))"

definition xCGroupRemoveTask ::
  "'w::len word cg_state \<Rightarrow> CGroupHandle_t \<Rightarrow> TaskHandle_t \<Rightarrow> BaseType_t \<times> 'w word cg_state" where
  "xCGroupRemoveTask cs xCGroup xTask =
     (case xCGroup of
        None \<Rightarrow> (pdFAIL, cs)
      | Some i \<Rightarrow>
          if xTask = NULL then (pdFAIL, cs)
          else if prvGetCGroupFromTask cs xTask \<noteq> xCGroup then (pdFAIL, cs)
          else
            (case prvRemoveTaskFromMap cs xTask of
               (xResult, cs1) \<Rightarrow>
                 if xResult = pdPASS then
                   (pdPASS,
                    cs1\<lparr>xCGroups := (xCGroups cs1)[i := (xCGroups cs1 ! i)
                          \<lparr>cg_uxTaskCount := cg_uxTaskCount (xCGroups cs1 ! i) - 1\<rparr>]\<rparr>)
                 else (xResult, cs1)))"

text \<open>
  \<open>lMemoryDelta\<close> is a signed word. Negating the most negative value overflows,
  which C leaves undefined: the result is \<open>None\<close>.
\<close>

definition xCGroupUpdateMemoryUsage ::
  "'w::len word cg_state \<Rightarrow> TaskHandle_t \<Rightarrow> 'w word \<Rightarrow> (BaseType_t \<times> 'w word cg_state) option" where
  "xCGroupUpdateMemoryUsage cs xTask lMemoryDelta =
     (if xTask = NULL then Some (pdPASS, cs)
      else
        (case prvGetCGroupFromTask cs xTask of
           None \<Rightarrow> Some (pdPASS, cs)
         | Some i \<Rightarrow>
             (let pxCGroup = xCGroups cs ! i; mem = xMemoryLimits pxCGroup in
              if sint lMemoryDelta > 0 then
                (let ulUsed = ulMemoryUsed mem + lMemoryDelta in
                 Some (pdPASS,
                   cs\<lparr>xCGroups := (xCGroups cs)[i := pxCGroup\<lparr>xMemoryLimits :=
                     mem\<lparr>ulMemoryUsed := ulUsed,
                         ulMemoryPeak :=
                           (if ulUsed > ulMemoryPeak mem then ulUsed else ulMemoryPeak mem)\<rparr>\<rparr>]\<rparr>))
              else if sint lMemoryDelta = - (2 ^ (LENGTH('w) - 1)) then None
              else
                (let ulDealloc = - lMemoryDelta in
                 Some (pdPASS,
                   cs\<lparr>xCGroups := (xCGroups cs)[i := pxCGroup\<lparr>xMemoryLimits :=
                     mem\<lparr>ulMemoryUsed :=
                           (if ulDealloc > ulMemoryUsed mem then 0
                            else ulMemoryUsed mem - ulDealloc)\<rparr>\<rparr>]\<rparr>)))))"

text \<open>
  \<open>xCGroupGetStats\<close> updates the CPU window of the cgroup before it copies the
  statistics out; the copies are the second component of the result. The two output
  pointers are taken to be non-\<open>NULL\<close>; with a \<open>NULL\<close> one the function returns
  \<open>pdFAIL\<close> and changes nothing.
\<close>

definition xCGroupGetStats ::
  "'w::len word \<Rightarrow> 'w word \<Rightarrow> 'w word cg_state \<Rightarrow> CGroupHandle_t \<Rightarrow>
     (BaseType_t \<times> ('w word MemoryLimits_t \<times> 'w word CpuLimits_t) option \<times> 'w word cg_state) option"
  where
  "xCGroupGetStats cfgWindow xCurrentTime cs xCGroup =
     (case xCGroup of
        None \<Rightarrow> Some (pdFAIL, None, cs)
      | Some i \<Rightarrow>
          if \<not> i < length (xCGroups cs) then Some (pdFAIL, None, cs)
          else if cg_xActive (xCGroups cs ! i) = pdFALSE then Some (pdFAIL, None, cs)
          else
            (case prvUpdateCpuWindow cfgWindow xCurrentTime (xCGroups cs ! i) of
               None \<Rightarrow> None
             | Some pxCGroup \<Rightarrow>
                 Some (pdPASS, Some (xMemoryLimits pxCGroup, xCpuLimits pxCGroup),
                       cs\<lparr>xCGroups := (xCGroups cs)[i := pxCGroup]\<rparr>)))"

definition xCGroupSetMemoryLimit ::
  "'w::len word cg_state \<Rightarrow> CGroupHandle_t \<Rightarrow> 'w word \<Rightarrow> BaseType_t \<times> 'w word cg_state" where
  "xCGroupSetMemoryLimit cs xCGroup ulMemLimit =
     (case xCGroup of
        None \<Rightarrow> (pdFAIL, cs)
      | Some i \<Rightarrow>
          if \<not> i < length (xCGroups cs) then (pdFAIL, cs)
          else if cg_xActive (xCGroups cs ! i) = pdFALSE then (pdFAIL, cs)
          else
            (pdPASS,
             cs\<lparr>xCGroups := (xCGroups cs)[i := (xCGroups cs ! i)\<lparr>xMemoryLimits :=
                  (xMemoryLimits (xCGroups cs ! i))\<lparr>ulMemoryLimit := ulMemLimit\<rparr>\<rparr>]\<rparr>))"

definition xCGroupResetMemoryStats ::
  "'w::len word cg_state \<Rightarrow> CGroupHandle_t \<Rightarrow> BaseType_t \<times> 'w word cg_state" where
  "xCGroupResetMemoryStats cs xCGroup =
     (case xCGroup of
        None \<Rightarrow> (pdFAIL, cs)
      | Some i \<Rightarrow>
          if \<not> i < length (xCGroups cs) then (pdFAIL, cs)
          else if cg_xActive (xCGroups cs ! i) = pdFALSE then (pdFAIL, cs)
          else
            (pdPASS,
             cs\<lparr>xCGroups := (xCGroups cs)[i := (xCGroups cs ! i)\<lparr>xMemoryLimits :=
                  (xMemoryLimits (xCGroups cs ! i))\<lparr>ulMemoryUsed := 0, ulMemoryPeak := 0\<rparr>\<rparr>]\<rparr>))"

text \<open>
  Modelled from the spec: the scheduler's tick. The scheduler calls the tick hook
  once per tick, with the tick count one more than at the previous call, and hands it
  the task that is running; \<open>xTaskGetTickCount\<close> answers the same count until the
  next tick.

  \<open>cg_world\<close> is the controller together with the tick count. \<open>cg_op\<close> lists the
  calls that change either: every function of the controller that writes its state,
  and the tick. \<open>cg_run\<close> performs a sequence of calls and is \<open>None\<close> when one of them
  has no defined result. At start-up the controller's tables are zero-initialised
  (\<open>cg_boot\<close>).
\<close>

record 'u cg_world =
  xTickCount :: 'u
  xCG :: "'u cg_state"

datatype 'u cg_op =
    CgCreate string 'u 'u
  | CgDelete CGroupHandle_t
  | CgAddTask CGroupHandle_t TaskHandle_t
  | CgRemoveTask CGroupHandle_t TaskHandle_t
  | CgUpdateMemoryUsage TaskHandle_t 'u
  | CgGetStats CGroupHandle_t
  | CgSetMemoryLimit CGroupHandle_t 'u
  | CgSetCpuQuota CGroupHandle_t 'u
  | CgResetMemoryStats CGroupHandle_t
  | CgTick TaskHandle_t

fun cg_step ::
  "'w::len word \<Rightarrow> 'w word cg_world \<Rightarrow> 'w word cg_op \<Rightarrow> 'w word cg_world option" where
  "cg_step cfgWindow W (CgCreate pcName ulMemLimit ulQuota) =
     Some (W\<lparr>xCG := snd (xCGroupCreate cfgWindow (xTickCount W) (xCG W) pcName ulMemLimit ulQuota)\<rparr>)"
| "cg_step cfgWindow W (CgDelete xCGroup) =
     Some (W\<lparr>xCG := snd (xCGroupDelete (xCG W) xCGroup)\<rparr>)"
| "cg_step cfgWindow W (CgAddTask xCGroup xTask) =
     Some (W\<lparr>xCG := snd (xCGroupAddTask (xCG W) xCGroup xTask)\<rparr>)"
| "cg_step cfgWindow W (CgRemoveTask xCGroup xTask) =
     Some (W\<lparr>xCG := snd (xCGroupRemoveTask (xCG W) xCGroup xTask)\<rparr>)"
| "cg_step cfgWindow W (CgUpdateMemoryUsage xTask lMemoryDelta) =
     (case xCGroupUpdateMemoryUsage (xCG W) xTask lMemoryDelta of
        None \<Rightarrow> None
      | Some (xResult, cs) \<Rightarrow> Some (W\<lparr>xCG := cs\<rparr>))"
| "cg_step cfgWindow W (CgGetStats xCGroup) =
     (case xCGroupGetStats cfgWindow (xTickCount W) (xCG W) xCGroup of
        None \<Rightarrow> None
      | Some (xResult, xStats, cs) \<Rightarrow> Some (W\<lparr>xCG := cs\<rparr>))"
| "cg_step cfgWindow W (CgSetMemoryLimit xCGroup ulMemLimit) =
     Some (W\<lparr>xCG := snd (xCGroupSetMemoryLimit (xCG W) xCGroup ulMemLimit)\<rparr>)"
| "cg_step cfgWindow W (CgSetCpuQuota xCGroup ulQuota) =
     Some (W\<lparr>xCG := snd (xCGroupSetCpuQuota (xCG W) xCGroup ulQuota)\<rparr>)"
| "cg_step cfgWindow W (CgResetMemoryStats xCGroup) =
     Some (W\<lparr>xCG := snd (xCGroupResetMemoryStats (xCG W) xCGroup)\<rparr>)"
| "cg_step cfgWindow W (CgTick xCurrentTask) =
     (case prvCGroupUpdateTick cfgWindow (xTickCount W + 1) xCurrentTask (xCG W) of
        None \<Rightarrow> None
      | Some cs \<Rightarrow> Some \<lparr>xTickCount = xTickCount W + 1, xCG = cs\<rparr>)"

fun cg_run ::
  "'w::len word \<Rightarrow> 'w word cg_world \<Rightarrow> 'w word cg_op list \<Rightarrow> 'w word cg_world option" where
  "cg_run cfgWindow W [] = Some W"
| "cg_run cfgWindow W (op # ops) =
     (case cg_step cfgWindow W op of
        None \<Rightarrow> None
      | Some W1 \<Rightarrow> cg_run cfgWindow W1 ops)"

text \<open>
  What every state the controller reaches satisfies. The table of cgroups keeps its
  size; every entry of the mapping table names a slot that is active; the task count
  of a slot is the number of entries naming it; a slot is active exactly when its bit
  of the bitmap is set; and an active slot has the tick quota that belongs to its CPU
  quota, has used no more ticks than have passed since its window started, and its
  window started less than a full turn of the tick counter ago.
\<close>

definition cg_slot_ok :: "'w::len word \<Rightarrow> 'w word CGroup_t \<Rightarrow> bool" where
  "cg_slot_ok now g \<longleftrightarrow>
     (cg_xActive g \<longrightarrow>
        cg_quota_consistent g \<and>
        unat (ulTicksUsed (xCpuLimits g)) \<le> unat (now - xWindowStartTime (xCpuLimits g)) \<and>
        now - xWindowStartTime (xCpuLimits g) \<noteq> - 1)"

definition cg_inv :: "'w::len word \<Rightarrow> 'w word cg_state \<Rightarrow> bool" where
  "cg_inv now cs \<longleftrightarrow>
     length (xCGroups cs) = configMAX_CGROUPS \<and>
     (\<forall>e \<in> set (xTaskCGroupMap cs).
        \<exists>i < configMAX_CGROUPS. snd e = Some i \<and> cg_xActive (xCGroups cs ! i)) \<and>
     (\<forall>i < configMAX_CGROUPS.
        unat (cg_uxTaskCount (xCGroups cs ! i))
          = length (filter (\<lambda>e. snd e = Some i) (xTaskCGroupMap cs)) \<and>
        (cg_xActive (xCGroups cs ! i) \<longleftrightarrow> bit (uxCGroupBitmap cs) i) \<and>
        cg_slot_ok now (xCGroups cs ! i))"

text \<open>
  A sequence of tick-hook calls, each with the tick count and the running task of
  that tick; the run stops with \<open>None\<close> at a division by zero.
\<close>

fun cg_ticks ::
  "'w::len word \<Rightarrow> ('w word \<times> TaskHandle_t) list \<Rightarrow> 'w word cg_state \<Rightarrow> 'w word cg_state option" where
  "cg_ticks cfgWindow [] cs = Some cs"
| "cg_ticks cfgWindow ((xCurrentTime, xCurrentTask) # rest) cs =
     (case prvCGroupUpdateTick cfgWindow xCurrentTime xCurrentTask cs of
        None \<Rightarrow> None
      | Some cs1 \<Rightarrow> cg_ticks cfgWindow rest cs1)"

text \<open>
  Scenarios on a 32-bit port whose window is ten ticks. At tick 0 a cgroup with a
  quota of two ticks per window is created (slot 0) and task 1 joins it.
  \<open>cg_throttled\<close>: task 1 has run for the ticks 1 and 2.
  \<open>cg_before_rollover\<close>: task 1 has run for the ticks 1 to 5 and no task of the cgroup
  for the ticks 6 to 9. \<open>cg_after_rollover\<close>: the state after the tick hook of tick 10,
  at which the window rolls over.
\<close>

definition cg_demo :: "32 word cg_state" where
  "cg_demo = snd (xCGroupAddTask (snd (xCGroupCreate 10 0 cg_boot ''Hi'' 16384 2)) (Some 0) (Some 1))"

definition cg_throttled :: "32 word cg_state" where
  "cg_throttled =
     (case cg_ticks 10 [(1, Some 1), (2, Some 1)] cg_demo of Some cs \<Rightarrow> cs | None \<Rightarrow> cg_boot)"

definition cg_before_rollover :: "32 word cg_state" where
  "cg_before_rollover =
     (case cg_ticks 10 [(1, Some 1), (2, Some 1), (3, Some 1), (4, Some 1), (5, Some 1),
                        (6, NULL), (7, NULL), (8, NULL), (9, NULL)] cg_demo of
        Some cs \<Rightarrow> cs | None \<Rightarrow> cg_boot)"

definition cg_after_rollover :: "32 word cg_state" where
  "cg_after_rollover =
     (case prvCGroupUpdateTick 10 10 NULL cg_before_rollover of
        Some cs \<Rightarrow> cs | None \<Rightarrow> cg_boot)"

text \<open>
  \<open>cg_two_groups\<close>: on a 32-bit port whose window is ten ticks, a cgroup with a quota
  of two ticks (slot 0, task 1) and a cgroup with the quota \<open>CGROUP_CPU_QUOTA_MAX\<close>
  (slot 1, task 2) are created at tick 0; task 1 runs for two ticks, then task 2 for
  one. Task 3 is bound to no cgroup.
\<close>

definition cg_two_groups_ops :: "32 word cg_op list" where
  "cg_two_groups_ops =
     [CgCreate ''Hi'' 16384 2, CgCreate ''Free'' 16384 CGROUP_CPU_QUOTA_MAX,
      CgAddTask (Some 0) (Some 1), CgAddTask (Some 1) (Some 2),
      CgTick (Some 1), CgTick (Some 1), CgTick (Some 2)]"

definition cg_two_groups :: "32 word cg_world" where
  "cg_two_groups =
     (case cg_run 10 \<lparr>xTickCount = 0, xCG = cg_boot\<rparr> cg_two_groups_ops of
        Some W \<Rightarrow> W
      | None \<Rightarrow> \<lparr>xTickCount = 0, xCG = cg_boot\<rparr>)"

section \<open>Container manager: creation\<close>

text \<open>
  The three controllers are compiled in (\<open>configUSE_CGROUPS\<close>, \<open>configUSE_PID_NAMESPACE\<close>
  and \<open>configUSE_IPC_NAMESPACE\<close> are 1). The linked list \<open>pxContainerList\<close> is a list
  with the head first. The fields of \<open>Container_t\<close> that share a name with a cgroup
  field carry the prefix \<open>ct_\<close>; the constant function pointer and the \<open>NULL\<close> parameter
  pointer are left out. \<open>uxHeapContainers\<close> counts the \<open>Container_t\<close> blocks obtained
  from \<open>pvPortMalloc\<close> and not yet given to \<open>vPortFree\<close>.
\<close>

datatype ContainerState_t =
  CONTAINER_STATE_STOPPED | CONTAINER_STATE_RUNNING | CONTAINER_STATE_PAUSED | CONTAINER_STATE_ERROR

record 'u Container_t =
  ulContainerID :: "32 word"
  pcContainerName :: string
  eState :: ContainerState_t
  xTaskHandle :: TaskHandle_t
  ulStackSize :: "32 word"
  uxPriority :: 'u
  pcRootPath :: string
  elfName :: string
  xCGroup :: CGroupHandle_t
  xPidNamespace :: PidNamespaceHandle_t
  xIpcNamespace :: IpcNamespaceHandle_t
  ct_ulMemoryLimit :: "32 word"
  ct_ulCpuQuota :: "32 word"
  xReadySemaphore :: "nat option"

record 'u ct_state =
  ct_cgroups :: "'u cg_state"
  ct_pids :: "'u pid_state"
  ct_ipcs :: "'u ipc_state"
  pxContainerList :: "'u Container_t list"
  ulNextContainerID :: "32 word"
  uxHeapContainers :: nat

text \<open>\<open>uint32_to_string\<close>: the decimal digits, collected in reverse and then reversed.\<close>

function prvDigitsReversed :: "nat \<Rightarrow> string" where
  "prvDigitsReversed v = (if v > 0 then char_of (48 + v mod 10) # prvDigitsReversed (v div 10) else [])"
  by pat_completeness auto
termination
  by (relation "measure id") auto

declare prvDigitsReversed.simps [simp del]

definition uint32_to_string :: "32 word \<Rightarrow> string" where
  "uint32_to_string v = (if v = 0 then ''0'' else rev (prvDigitsReversed (unat v)))"

text \<open>
  \<open>xContainerCreateWithLimits\<close>. \<open>xMalloc\<close> tells whether \<open>pvPortMalloc\<close> returned a
  block, \<open>xMutexTaken\<close> whether \<open>xSemaphoreTake\<close> on the list mutex returned \<open>pdTRUE\<close>.
  A failed creation of the cgroup or of a namespace leaves the handle \<open>NULL\<close> and the
  function goes on, as the source's comments say ("continue without it").
\<close>

definition xContainerCreateWithLimits ::
  "'w::len word \<Rightarrow> 'w word \<Rightarrow> 'w word ct_state \<Rightarrow> string option \<Rightarrow> string \<Rightarrow> 32 word \<Rightarrow>
     'w word \<Rightarrow> 32 word \<Rightarrow> 32 word \<Rightarrow> bool \<Rightarrow> bool \<Rightarrow> BaseType_t \<times> 'w word ct_state" where
  "xContainerCreateWithLimits cfgWindow xCurrentTime st pcName pcElf ulStack uxPrio ulMemLimit
       ulQuota xMalloc xMutexTaken =
     (case pcName of
        None \<Rightarrow> (pdFAIL, st)
      | Some nm \<Rightarrow>
          if \<not> xMalloc then (pdFAIL, st)
          else
            (let ulMemLimitW = (if ulMemLimit > 0 then ucast ulMemLimit else 8192);
                 ulCpuLimitW = (if ulQuota > 0 then ucast ulQuota else 100);
                 pcResourceName = take 31 nm
             in
             case xCGroupCreate cfgWindow xCurrentTime (ct_cgroups st) pcResourceName
                    ulMemLimitW ulCpuLimitW of
               (xCg, cg1) \<Rightarrow>
             case xPidNamespaceCreate (ct_pids st) (Some pcResourceName) of
               (xPid, pid1) \<Rightarrow>
             case xIpcNamespaceCreate (ct_ipcs st) (Some pcResourceName) of
               (xIpc, ipc1) \<Rightarrow>
             (let pxNewContainer =
                    \<lparr>ulContainerID = ulNextContainerID st,
                     pcContainerName = take 31 nm,
                     eState = CONTAINER_STATE_STOPPED,
                     xTaskHandle = NULL,
                     ulStackSize = ulStack,
                     uxPriority = uxPrio,
                     pcRootPath = ''/var/container/'' @ uint32_to_string (ulNextContainerID st),
                     elfName = pcElf,
                     xCGroup = xCg,
                     xPidNamespace = xPid,
                     xIpcNamespace = xIpc,
                     ct_ulMemoryLimit = ucast ulMemLimitW,
                     ct_ulCpuQuota = ucast ulCpuLimitW,
                     xReadySemaphore = NULL\<rparr>;
                  st1 = st\<lparr>ct_cgroups := cg1, ct_pids := pid1, ct_ipcs := ipc1,
                          ulNextContainerID := ulNextContainerID st + 1,
                          uxHeapContainers := uxHeapContainers st + 1\<rparr>
              in
              if xMutexTaken then
                (pdPASS, st1\<lparr>pxContainerList := pxNewContainer # pxContainerList st1\<rparr>)
              else
                (let cg2 = (if xCGroup pxNewContainer \<noteq> NULL
                            then snd (xCGroupDelete cg1 (xCGroup pxNewContainer)) else cg1);
                     pid2 = (if xPidNamespace pxNewContainer \<noteq> NULL
                             then snd (xPidNamespaceDelete pid1 (xPidNamespace pxNewContainer))
                             else pid1);
                     ipc2 = (if xIpcNamespace pxNewContainer \<noteq> NULL
                             then snd (xIpcNamespaceDelete ipc1 (xIpcNamespace pxNewContainer))
                             else ipc1)
                 in (pdFAIL,
                     st1\<lparr>ct_cgroups := cg2, ct_pids := pid2, ct_ipcs := ipc2,
                         uxHeapContainers := uxHeapContainers st1 - 1\<rparr>)))))"

text \<open>
  The controller tables have their declared sizes, and the IPC root namespace, when
  there is one, occupies a slot in use.
\<close>

definition ct_wf :: "'w::len word ct_state \<Rightarrow> bool" where
  "ct_wf st \<longleftrightarrow>
     length (xCGroups (ct_cgroups st)) = configMAX_CGROUPS \<and>
     length (xPidNamespaces (ct_pids st)) = configMAX_PID_NAMESPACES \<and>
     length (xIpcNamespaces (ct_ipcs st)) = configMAX_IPC_NAMESPACES \<and>
     (case ipc_xRootNamespace (ct_ipcs st) of
        None \<Rightarrow> True
      | Some r \<Rightarrow> ipc_uxNamespaceBitmap (ct_ipcs st) AND push_bit r 1 \<noteq> 0)"

text \<open>
  Scenarios on a 32-bit port. \<open>ct_boot\<close>: the controllers initialised, no container.
  \<open>ct_cgroups_full\<close>: all eight cgroup slots taken by other users.
\<close>

definition ct_boot :: "32 word ct_state" where
  "ct_boot =
     \<lparr>ct_cgroups = cg_boot, ct_pids = prvPidNamespaceInit pid_boot,
      ct_ipcs = vIpcNamespaceInit ipc_boot, pxContainerList = [],
      ulNextContainerID = 1, uxHeapContainers = 0\<rparr>"

definition ct_cgroups_full :: "32 word ct_state" where
  "ct_cgroups_full =
     ct_boot\<lparr>ct_cgroups :=
       foldl (\<lambda>cs nm. snd (xCGroupCreate 1000 0 cs nm 16384 300)) cg_boot
         [''g0'', ''g1'', ''g2'', ''g3'', ''g4'', ''g5'', ''g6'', ''g7'']\<rparr>"

text \<open>
  What "nothing of the new container is left" means for a controller: its bitmap of
  slots in use is as before, no slot is active that was not, and its other tables
  (task mapping, task control blocks, object registry, root handle) are as before.
\<close>

definition cg_no_new :: "'w::len word cg_state \<Rightarrow> 'w word cg_state \<Rightarrow> bool" where
  "cg_no_new cs cs' \<longleftrightarrow>
     uxCGroupBitmap cs' = uxCGroupBitmap cs \<and> xTaskCGroupMap cs' = xTaskCGroupMap cs \<and>
     length (xCGroups cs') = length (xCGroups cs) \<and>
     (\<forall>k < length (xCGroups cs). cg_xActive (xCGroups cs' ! k) \<longrightarrow> cg_xActive (xCGroups cs ! k))"

definition pid_no_new :: "'w::len word pid_state \<Rightarrow> 'w word pid_state \<Rightarrow> bool" where
  "pid_no_new s s' \<longleftrightarrow>
     uxNamespaceBitmap s' = uxNamespaceBitmap s \<and> xKernel s' = xKernel s \<and>
     xRootNamespace s' = xRootNamespace s \<and>
     length (xPidNamespaces s') = length (xPidNamespaces s) \<and>
     (\<forall>k < length (xPidNamespaces s).
        xActive (xPidNamespaces s' ! k) \<longrightarrow> xActive (xPidNamespaces s ! k))"

definition ipc_no_new :: "'w::len word ipc_state \<Rightarrow> 'w word ipc_state \<Rightarrow> bool" where
  "ipc_no_new s s' \<longleftrightarrow>
     ipc_uxNamespaceBitmap s' = ipc_uxNamespaceBitmap s \<and>
     xIpcObjectEntries s' = xIpcObjectEntries s \<and>
     ipc_xRootNamespace s' = ipc_xRootNamespace s \<and>
     length (xIpcNamespaces s') = length (xIpcNamespaces s) \<and>
     (\<forall>k < length (xIpcNamespaces s).
        ipc_xActive (xIpcNamespaces s' ! k) \<longrightarrow> ipc_xActive (xIpcNamespaces s ! k))"

text \<open>
  A container created on \<open>ct_cgroups_full\<close> with the list mutex taken, and one attempted
  on \<open>ct_boot\<close> with the list mutex not taken.
\<close>

definition ct_created_without_cgroup :: "BaseType_t \<times> 32 word ct_state" where
  "ct_created_without_cgroup =
     xContainerCreateWithLimits 1000 5 ct_cgroups_full (Some ''web'') ''app.elf'' 2048 3 0 0
       True True"

definition ct_rolled_back :: "BaseType_t \<times> 32 word ct_state" where
  "ct_rolled_back =
     xContainerCreateWithLimits 1000 5 ct_boot (Some ''web'') ''app.elf'' 2048 3 0 0 True False"

section \<open>Container image codec\<close>

subsection \<open>The filesystem\<close>

text \<open>
  Modelled from the spec: the filesystem implementation (littlefs behind the table
  \<open>lfs_ops\<close>) is not among the sources. The spec treats it "as a key\<rightarrow>byte-array store
  supporting directories, sequential read/write, stat, rename, remove". Here it is a
  list of (path, node) pairs in creation order, which is the order a directory is
  read in, with the number of bytes still free. The root directory \<open>/\<close> always exists.
  An operation fails only for the reason its error code names; a read returns the
  bytes that are left when fewer than asked for remain. The codec runs in a task
  whose root path is \<open>/\<close>, so the wrappers hand every path on unchanged.
\<close>

type_synonym byte = "8 word"

datatype lfs_node = LfsDir | LfsReg "byte list"

datatype lfs_type = LFS_TYPE_REG | LFS_TYPE_DIR

datatype lfs_error =
  LFS_ERR_NOENT | LFS_ERR_EXIST | LFS_ERR_NOTDIR | LFS_ERR_ISDIR | LFS_ERR_NOTEMPTY | LFS_ERR_NOSPC

record lfs_info =
  info_name :: string
  info_type :: lfs_type
  info_size :: nat

record lfs =
  lfs_nodes :: "(string \<times> lfs_node) list"
  lfs_free :: nat

definition lfs_lookup :: "lfs \<Rightarrow> string \<Rightarrow> lfs_node option" where
  "lfs_lookup fs p = (if p = ''/'' then Some LfsDir else map_of (lfs_nodes fs) p)"

definition lfs_dirname :: "string \<Rightarrow> string" where
  "lfs_dirname p =
     (let d = rev (drop 1 (dropWhile (\<lambda>c. c \<noteq> CHR ''/'') (rev p)))
      in if d = [] then ''/'' else d)"

definition lfs_basename :: "string \<Rightarrow> string" where
  "lfs_basename p = rev (takeWhile (\<lambda>c. c \<noteq> CHR ''/'') (rev p))"

definition lfs_node_size :: "lfs_node \<Rightarrow> nat" where
  "lfs_node_size n = (case n of LfsDir \<Rightarrow> 0 | LfsReg bs \<Rightarrow> length bs)"

definition lfs_node_type :: "lfs_node \<Rightarrow> lfs_type" where
  "lfs_node_type n = (case n of LfsDir \<Rightarrow> LFS_TYPE_DIR | LfsReg bs \<Rightarrow> LFS_TYPE_REG)"

definition lfs_children :: "lfs \<Rightarrow> string \<Rightarrow> (string \<times> lfs_node) list" where
  "lfs_children fs d = filter (\<lambda>(p, n). lfs_dirname p = d) (lfs_nodes fs)"

definition lfs_stat :: "lfs \<Rightarrow> string \<Rightarrow> lfs_error + lfs_node" where
  "lfs_stat fs p = (case lfs_lookup fs p of None \<Rightarrow> Inl LFS_ERR_NOENT | Some n \<Rightarrow> Inr n)"

definition lfs_mkdir :: "lfs \<Rightarrow> string \<Rightarrow> lfs_error + lfs" where
  "lfs_mkdir fs p =
     (if lfs_lookup fs p \<noteq> None then Inl LFS_ERR_EXIST
      else if lfs_lookup fs (lfs_dirname p) \<noteq> Some LfsDir then Inl LFS_ERR_NOENT
      else Inr (fs\<lparr>lfs_nodes := lfs_nodes fs @ [(p, LfsDir)]\<rparr>))"

definition lfs_remove :: "lfs \<Rightarrow> string \<Rightarrow> lfs_error + lfs" where
  "lfs_remove fs p =
     (case map_of (lfs_nodes fs) p of
        None \<Rightarrow> Inl LFS_ERR_NOENT
      | Some n \<Rightarrow>
          if n = LfsDir \<and> lfs_children fs p \<noteq> [] then Inl LFS_ERR_NOTEMPTY
          else Inr (fs\<lparr>lfs_nodes := filter (\<lambda>(q, m). q \<noteq> p) (lfs_nodes fs),
                      lfs_free := lfs_free fs + lfs_node_size n\<rparr>))"

text \<open>Opening for reading yields the content, which the reads then consume.\<close>

definition lfs_file_open_rdonly :: "lfs \<Rightarrow> string \<Rightarrow> lfs_error + byte list" where
  "lfs_file_open_rdonly fs p =
     (case lfs_lookup fs p of
        None \<Rightarrow> Inl LFS_ERR_NOENT
      | Some LfsDir \<Rightarrow> Inl LFS_ERR_ISDIR
      | Some (LfsReg bs) \<Rightarrow> Inr bs)"

text \<open>Opening with \<open>LFS_O_WRONLY | LFS_O_CREAT | LFS_O_TRUNC\<close>: an empty file at the path.\<close>

definition lfs_file_open_trunc :: "lfs \<Rightarrow> string \<Rightarrow> lfs_error + lfs" where
  "lfs_file_open_trunc fs p =
     (case lfs_lookup fs p of
        Some LfsDir \<Rightarrow> Inl LFS_ERR_ISDIR
      | Some (LfsReg bs) \<Rightarrow>
          Inr (fs\<lparr>lfs_nodes := map (\<lambda>(q, m). if q = p then (q, LfsReg []) else (q, m))
                                  (lfs_nodes fs),
                    lfs_free := lfs_free fs + length bs\<rparr>)
      | None \<Rightarrow>
          if lfs_lookup fs (lfs_dirname p) \<noteq> Some LfsDir then Inl LFS_ERR_NOENT
          else Inr (fs\<lparr>lfs_nodes := lfs_nodes fs @ [(p, LfsReg [])]\<rparr>))"

definition lfs_file_write :: "lfs \<Rightarrow> string \<Rightarrow> byte list \<Rightarrow> lfs_error + lfs" where
  "lfs_file_write fs p bs =
     (if length bs > lfs_free fs then Inl LFS_ERR_NOSPC
      else Inr (fs\<lparr>lfs_nodes :=
                    map (\<lambda>(q, m). if q = p then (q, LfsReg ((case m of LfsReg old \<Rightarrow> old | LfsDir \<Rightarrow> []) @ bs))
                                  else (q, m)) (lfs_nodes fs),
                  lfs_free := lfs_free fs - length bs\<rparr>))"

text \<open>Reading a directory: the entries \<open>.\<close> and \<open>..\<close>, then the children in order.\<close>

definition lfs_dir_entries :: "lfs \<Rightarrow> string \<Rightarrow> lfs_info list" where
  "lfs_dir_entries fs d =
     \<lparr>info_name = ''.'', info_type = LFS_TYPE_DIR, info_size = 0\<rparr> #
     \<lparr>info_name = ''..'', info_type = LFS_TYPE_DIR, info_size = 0\<rparr> #
     map (\<lambda>(p, n). \<lparr>info_name = lfs_basename p, info_type = lfs_node_type n,
                     info_size = lfs_node_size n\<rparr>) (lfs_children fs d)"

subsection \<open>The codec\<close>

text \<open>
  \<open>uxMallocOk n\<close> tells whether \<open>pvPortMalloc\<close> grants a block of \<open>n\<close> bytes. The file
  size field is eight bytes, least significant first, as the little-endian target
  stores a \<open>uint64_t\<close>. littlefs counts bytes in 32 bits (\<open>lfs_size_t\<close>) and returns
  \<open>int\<close> results, against which the source compares \<open>(int)ullFileSize\<close>.
\<close>

definition prvContainerDir :: "32 word \<Rightarrow> string" where
  "prvContainerDir ulId = take 63 (''/var/container/'' @ uint32_to_string ulId)"

definition ullFromBytes :: "byte list \<Rightarrow> 64 word" where
  "ullFromBytes bs = foldr (\<lambda>b acc. ucast b OR push_bit 8 acc) bs 0"

definition ullToBytes :: "64 word \<Rightarrow> byte list" where
  "ullToBytes v = map (\<lambda>i. ucast (drop_bit (8 * i) v)) [0..<8]"

definition prvCString :: "byte list \<Rightarrow> string" where
  "prvCString bs = map (\<lambda>b. char_of (unat b)) (takeWhile (\<lambda>b. b \<noteq> 0) bs)"

definition prvEnsureDirectoryExists :: "lfs \<Rightarrow> string \<Rightarrow> BaseType_t \<times> lfs" where
  "prvEnsureDirectoryExists fs pcPath =
     (case lfs_stat fs pcPath of
        Inr n \<Rightarrow> if lfs_node_type n = LFS_TYPE_DIR then (pdPASS, fs) else (pdFAIL, fs)
      | Inl e \<Rightarrow>
          if e = LFS_ERR_NOENT then
            (case lfs_mkdir fs pcPath of Inr fs1 \<Rightarrow> (pdPASS, fs1) | Inl e1 \<Rightarrow> (pdFAIL, fs))
          else (pdFAIL, fs))"

definition prvDirectoryExists :: "lfs \<Rightarrow> string \<Rightarrow> BaseType_t" where
  "prvDirectoryExists fs pcPath =
     (case lfs_stat fs pcPath of
        Inr n \<Rightarrow> if lfs_node_type n = LFS_TYPE_DIR then pdTRUE else pdFALSE
      | Inl e \<Rightarrow> pdFALSE)"

text \<open>
  One round of the record loop of \<open>xContainerUnpackImage\<close>; \<open>img\<close> is what is left to
  read of the image. \<open>Inl\<close> is the jump to \<open>cleanup_file\<close>, which closes the image and
  returns \<open>pdFAIL\<close>: the block that should remove the container directory is empty.
  \<open>Inr\<close> carries what is left of the image after the record.
\<close>

definition prvUnpackRecord ::
  "(nat \<Rightarrow> bool) \<Rightarrow> string \<Rightarrow> byte list \<Rightarrow> lfs \<Rightarrow> lfs + (byte list \<times> lfs)" where
  "prvUnpackRecord uxMallocOk acContainerDir img fs =
     (if length (take 8 img) \<noteq> 8 then Inl fs
      else if length (take 256 (drop 8 img)) \<noteq> 256 then Inl fs
      else
        (let ullFileSize = ullFromBytes (take 8 img);
             aucFilenameBuf = (take 256 (drop 8 img))[255 := 0];
             acFilePath = take 319 (acContainerDir @ ''/'' @ prvCString aucFilenameBuf);
             rest = drop 264 img;
             payload = take (unat (ucast ullFileSize :: 32 word)) rest
         in
         if ullFileSize > 0 \<and> \<not> uxMallocOk (unat ullFileSize) then Inl fs
         else if ullFileSize > 0 \<and> int (length payload) \<noteq> sint (ucast ullFileSize :: 32 word)
           then Inl fs
         else
           (case lfs_file_open_trunc fs acFilePath of
              Inl e \<Rightarrow> Inl fs
            | Inr fs1 \<Rightarrow>
                if ullFileSize > 0 then
                  (case lfs_file_write fs1 acFilePath payload of
                     Inl e \<Rightarrow> Inl fs1
                   | Inr fs2 \<Rightarrow> Inr (drop (length payload) rest, fs2))
                else Inr (rest, fs1))))"

fun prvUnpackFiles ::
  "(nat \<Rightarrow> bool) \<Rightarrow> string \<Rightarrow> nat \<Rightarrow> byte list \<Rightarrow> lfs \<Rightarrow> BaseType_t \<times> lfs" where
  "prvUnpackFiles uxMallocOk acContainerDir 0 img fs = (pdPASS, fs)"
| "prvUnpackFiles uxMallocOk acContainerDir (Suc k) img fs =
     (case prvUnpackRecord uxMallocOk acContainerDir img fs of
        Inl fs1 \<Rightarrow> (pdFAIL, fs1)
      | Inr (rest, fs1) \<Rightarrow> prvUnpackFiles uxMallocOk acContainerDir k rest fs1)"

definition xContainerUnpackImage ::
  "(nat \<Rightarrow> bool) \<Rightarrow> lfs \<Rightarrow> string option \<Rightarrow> 32 word \<Rightarrow> BaseType_t \<times> lfs" where
  "xContainerUnpackImage uxMallocOk fs pcImagePath ulId =
     (case pcImagePath of
        None \<Rightarrow> (pdFAIL, fs)
      | Some pcPath \<Rightarrow>
          (let acContainerDir = prvContainerDir ulId in
           case prvEnsureDirectoryExists fs ''/var'' of
             (xVar, fs1) \<Rightarrow>
           if xVar \<noteq> pdPASS then (pdFAIL, fs1)
           else
           case prvEnsureDirectoryExists fs1 ''/var/container'' of
             (xVarContainer, fs2) \<Rightarrow>
           if xVarContainer \<noteq> pdPASS then (pdFAIL, fs2)
           else if prvDirectoryExists fs2 acContainerDir = pdTRUE then (pdFAIL, fs2)
           else
             (case lfs_mkdir fs2 acContainerDir of
                Inl e \<Rightarrow> (pdFAIL, fs2)
              | Inr fs3 \<Rightarrow>
                  (case lfs_file_open_rdonly fs3 pcPath of
                     Inl e \<Rightarrow>
                       (pdFAIL,
                        (case lfs_remove fs3 acContainerDir of Inr fs4 \<Rightarrow> fs4 | Inl e1 \<Rightarrow> fs3))
                   | Inr img \<Rightarrow>
                       (case img of
                          [] \<Rightarrow> (pdFAIL, fs3)
                        | ucNumFiles # rest \<Rightarrow>
                            if ucNumFiles = 0 then (pdPASS, fs3)
                            else prvUnpackFiles uxMallocOk acContainerDir (unat ucNumFiles)
                                   rest fs3)))))"

text \<open>
  The first pass of \<open>xContainerPackImage\<close> counts the regular files in a byte; \<open>None\<close>
  is the overflow exit (more than 255 files).
\<close>

fun prvCountFiles :: "lfs_info list \<Rightarrow> byte \<Rightarrow> byte option" where
  "prvCountFiles [] ucNumFiles = Some ucNumFiles"
| "prvCountFiles (info # rest) ucNumFiles =
     (if info_name info = ''.'' \<or> info_name info = ''..'' then prvCountFiles rest ucNumFiles
      else if info_type info = LFS_TYPE_REG then
        (if ucNumFiles + 1 = 0 then None else prvCountFiles rest (ucNumFiles + 1))
      else prvCountFiles rest ucNumFiles)"

text \<open>
  The second pass. \<open>prvPackRecord\<close> packs one regular file: \<open>Inl\<close> is the jump to
  \<open>cleanup\<close>, \<open>Inr\<close> the filesystem after the record. The loop returns whether every
  step succeeded, how many files were packed and the filesystem reached; \<open>entries\<close> is
  what is left of the directory.
\<close>

definition prvPackRecord ::
  "(nat \<Rightarrow> bool) \<Rightarrow> string \<Rightarrow> string \<Rightarrow> lfs_info \<Rightarrow> lfs \<Rightarrow> lfs + lfs" where
  "prvPackRecord uxMallocOk acContainerDir pcPath info fs =
     (let ullFileSize = (of_nat (info_size info) :: 64 word);
          aucFilenameBuf =
            map (\<lambda>c. of_nat (of_char c) :: byte) (take 255 (info_name info))
              @ replicate (256 - length (take 255 (info_name info))) 0;
          acFilePath = take 511 (acContainerDir @ ''/'' @ info_name info)
      in
      case lfs_file_write fs pcPath (ullToBytes ullFileSize) of
        Inl e \<Rightarrow> Inl fs
      | Inr fs1 \<Rightarrow>
      case lfs_file_write fs1 pcPath aucFilenameBuf of
        Inl e \<Rightarrow> Inl fs1
      | Inr fs2 \<Rightarrow>
      case lfs_file_open_rdonly fs2 acFilePath of
        Inl e \<Rightarrow> Inl fs2
      | Inr content \<Rightarrow>
          if ullFileSize > 0 then
            (let payload = take (unat (ucast ullFileSize :: 32 word)) content in
             if \<not> uxMallocOk (unat ullFileSize) then Inl fs2
             else if int (length payload) \<noteq> sint (ucast ullFileSize :: 32 word) then Inl fs2
             else
               (case lfs_file_write fs2 pcPath payload of
                  Inl e \<Rightarrow> Inl fs2
                | Inr fs3 \<Rightarrow> Inr fs3))
          else Inr fs2)"

fun prvPackFiles ::
  "(nat \<Rightarrow> bool) \<Rightarrow> string \<Rightarrow> string \<Rightarrow> byte \<Rightarrow> byte \<Rightarrow> lfs_info list \<Rightarrow> lfs \<Rightarrow>
     bool \<times> byte \<times> lfs" where
  "prvPackFiles uxMallocOk acContainerDir pcPath ucNumFiles ucFileCount [] fs =
     (True, ucFileCount, fs)"
| "prvPackFiles uxMallocOk acContainerDir pcPath ucNumFiles ucFileCount (info # rest) fs =
     (if \<not> ucFileCount < ucNumFiles then (True, ucFileCount, fs)
      else if info_name info = ''.'' \<or> info_name info = ''..'' then
        prvPackFiles uxMallocOk acContainerDir pcPath ucNumFiles ucFileCount rest fs
      else if info_type info \<noteq> LFS_TYPE_REG then
        prvPackFiles uxMallocOk acContainerDir pcPath ucNumFiles ucFileCount rest fs
      else
        (case prvPackRecord uxMallocOk acContainerDir pcPath info fs of
           Inl fs1 \<Rightarrow> (False, ucFileCount, fs1)
         | Inr fs1 \<Rightarrow>
             prvPackFiles uxMallocOk acContainerDir pcPath ucNumFiles (ucFileCount + 1) rest fs1))"

definition xContainerPackImage ::
  "(nat \<Rightarrow> bool) \<Rightarrow> lfs \<Rightarrow> 32 word \<Rightarrow> string option \<Rightarrow> BaseType_t \<times> lfs" where
  "xContainerPackImage uxMallocOk fs ulId pcImagePath =
     (case pcImagePath of
        None \<Rightarrow> (pdFAIL, fs)
      | Some pcPath \<Rightarrow>
          (let acContainerDir = prvContainerDir ulId in
           if prvDirectoryExists fs acContainerDir \<noteq> pdTRUE then (pdFAIL, fs)
           else
             (case prvCountFiles (lfs_dir_entries fs acContainerDir) 0 of
                None \<Rightarrow> (pdFAIL, fs)
              | Some ucNumFiles \<Rightarrow>
                  if ucNumFiles = 0 then (pdFAIL, fs)
                  else
                    (case lfs_file_open_trunc fs pcPath of
                       Inl e \<Rightarrow> (pdFAIL, fs)
                     | Inr fs1 \<Rightarrow>
                         (let xDone =
                                (case lfs_file_write fs1 pcPath [ucNumFiles] of
                                   Inl e \<Rightarrow> (False, 0, fs1)
                                 | Inr fs2 \<Rightarrow>
                                     prvPackFiles uxMallocOk acContainerDir pcPath ucNumFiles 0
                                       (lfs_dir_entries fs2 acContainerDir) fs2);
                              fs3 = snd (snd xDone)
                          in
                          if fst xDone \<and> fst (snd xDone) = ucNumFiles then (pdPASS, fs3)
                          else
                            (pdFAIL,
                             (case lfs_remove fs3 pcPath of
                                Inr fs4 \<Rightarrow> fs4 | Inl e \<Rightarrow> fs3)))))))"

text \<open>
  A filesystem is well formed when no path occurs twice and every node lies in a
  directory that exists.
\<close>

definition lfs_wf :: "lfs \<Rightarrow> bool" where
  "lfs_wf fs \<longleftrightarrow>
     distinct (map fst (lfs_nodes fs)) \<and>
     (\<forall>(p, n) \<in> set (lfs_nodes fs). p \<noteq> ''/'' \<and> lfs_lookup fs (lfs_dirname p) = Some LfsDir)"

text \<open>
  Scenarios. \<open>fs_empty_image\<close>: an image file \<open>/img\<close> of zero bytes.
  \<open>fs_truncated_image\<close>: an image that announces one file and ends.
  \<open>fs_zero_image\<close>: the one-byte image \<open>0x00\<close>.
  \<open>fs_empty_container\<close>: the container directory of container 1, with no file in it.
\<close>

definition fs_empty_image :: lfs where
  "fs_empty_image = \<lparr>lfs_nodes = [(''/img'', LfsReg [])], lfs_free = 4096\<rparr>"

definition fs_truncated_image :: lfs where
  "fs_truncated_image = \<lparr>lfs_nodes = [(''/img'', LfsReg [1])], lfs_free = 4096\<rparr>"

definition fs_zero_image :: lfs where
  "fs_zero_image = \<lparr>lfs_nodes = [(''/img'', LfsReg [0])], lfs_free = 4096\<rparr>"

definition fs_empty_container :: lfs where
  "fs_empty_container =
     \<lparr>lfs_nodes = [(''/var'', LfsDir), (''/var/container'', LfsDir),
                   (''/var/container/1'', LfsDir)],
      lfs_free = 4096\<rparr>"

definition uxMallocAlways :: "nat \<Rightarrow> bool" where
  "uxMallocAlways n = True"

text \<open>
  \<open>lfs_with_dir fs fs' p\<close>: \<open>fs'\<close> is \<open>fs\<close> with the directory \<open>p\<close> present, either
  because it was there or because it has just been made.
\<close>

definition lfs_with_dir :: "lfs \<Rightarrow> lfs \<Rightarrow> string \<Rightarrow> bool" where
  "lfs_with_dir fs fs' p \<longleftrightarrow>
     (fs' = fs \<and> lfs_lookup fs p = Some LfsDir) \<or>
     (fs' = fs\<lparr>lfs_nodes := lfs_nodes fs @ [(p, LfsDir)]\<rparr> \<and> lfs_lookup fs p = None)"

section \<open>Bitmaps of slots\<close>

lemma find_free_slot_Some:
  assumes "find (\<lambda>ux. b AND push_bit ux 1 = (0::'w::len word)) [0..<n] = Some j"
  shows "j < n \<and> b AND push_bit j 1 = 0"
  using assms by (auto simp: find_Some_iff)


section \<open>Properties of the PID namespace controller\<close>

lemma prvAllocateVirtualPid_exhausted:
  "ulNextPid ns > ulMaxPid ns \<Longrightarrow> prvAllocateVirtualPid ns = (0, ns)"
  by (simp add: prvAllocateVirtualPid_def)

lemma add_task_exhausted:
  assumes "pid_exhausted s i"
  shows "xPidNamespaceAddTask s (Some i) xTask = (pdFAIL, s)"
  using assms
  by (simp add: xPidNamespaceAddTask_def pid_exhausted_def prvAllocateVirtualPid_exhausted
        Let_def)

lemma bitmap_test_iff: "(b AND 2 ^ i = (0::'w::len word)) = (\<not> bit b i)"
  by (simp add: and_exp_eq_0_iff_not_bit)

lemma add_task_keeps_exhausted:
  assumes "pid_exhausted s i"
  shows "pid_exhausted (snd (xPidNamespaceAddTask s xNs xTask)) i"
proof (cases "xNs = Some i")
  case True
  then show ?thesis using assms by (simp add: add_task_exhausted)
next
  case False
  then show ?thesis using assms
    by (auto simp: xPidNamespaceAddTask_def pid_exhausted_def Let_def nth_list_update
             split: option.splits prod.splits if_splits)
qed

lemma remove_task_keeps_exhausted:
  assumes "pid_exhausted s i"
  shows "pid_exhausted (snd (xPidNamespaceRemoveTask s xNs xTask)) i"
  using assms
  by (cases "xNs = Some i")
     (auto simp: xPidNamespaceRemoveTask_def pid_exhausted_def Let_def nth_list_update
             split: option.splits prod.splits if_splits)

lemma create_keeps_exhausted:
  assumes "pid_exhausted s i"
  shows "pid_exhausted (snd (xPidNamespaceCreate s pcName)) i"
proof (cases "prvFindFreeNamespaceSlot s")
  case None
  then show ?thesis using assms by (simp add: xPidNamespaceCreate_def)
next
  case (Some j)
  then have "uxNamespaceBitmap s AND push_bit j 1 = 0"
    by (auto simp: prvFindFreeNamespaceSlot_def find_Some_iff)
  with assms have ji: "j \<noteq> i" by (auto simp: pid_exhausted_def)
  from assms have "bit (uxNamespaceBitmap s) i"
    by (simp add: pid_exhausted_def bitmap_test_iff)
  then have "bit (uxNamespaceBitmap s OR push_bit j 1) i" by (simp add: bit_or_iff)
  then show ?thesis using assms Some ji
    by (simp add: xPidNamespaceCreate_def pid_exhausted_def bitmap_test_iff
             split: prod.splits)
qed

lemma delete_other_keeps_exhausted:
  assumes "pid_exhausted s i" "xNs \<noteq> Some i"
  shows "pid_exhausted (snd (xPidNamespaceDelete s xNs)) i"
proof -
  have "bit (uxNamespaceBitmap s AND NOT (push_bit j 1)) i" if "j \<noteq> i" for j
    using assms(1) that
    by (auto simp: pid_exhausted_def bitmap_test_iff bit_and_iff bit_not_iff bit_exp_iff
             dest: bit_imp_possible_bit)
  then show ?thesis using assms
    by (auto simp: xPidNamespaceDelete_def pid_exhausted_def Let_def bitmap_test_iff
           split: option.splits)
qed

lemma create_in_namespace_keeps_exhausted:
  assumes "pid_exhausted s i"
  shows "pid_exhausted (snd (snd (xTaskCreateInNamespace s xNs xNew))) i"
proof -
  have k: "pid_exhausted (s\<lparr>xKernel := k\<rparr>) i" for k
    using assms by (simp add: pid_exhausted_def)
  show ?thesis
    using assms add_task_keeps_exhausted [OF k]
    by (simp add: xTaskCreateInNamespace_def k split: prod.splits)
       (metis snd_conv)
qed

lemma task_delete_keeps_exhausted:
  assumes "pid_exhausted s i"
  shows "pid_exhausted (prvPidNamespaceTaskDelete s xTask) i"
  using assms remove_task_keeps_exhausted [OF assms]
  by (simp add: prvPidNamespaceTaskDelete_def Let_def)

lemma pid_step_keeps_exhausted:
  assumes "pid_exhausted s i" "op \<noteq> OpDelete (Some i)"
  shows "pid_exhausted (pid_step s op) i"
  using assms
  by (cases op)
     (simp_all add: create_keeps_exhausted delete_other_keeps_exhausted
        add_task_keeps_exhausted remove_task_keeps_exhausted
        create_in_namespace_keeps_exhausted task_delete_keeps_exhausted)

lemma pid_run_keeps_exhausted:
  assumes "pid_exhausted s i" "OpDelete (Some i) \<notin> set ops"
  shows "pid_exhausted (foldl pid_step s ops) i"
  using assms
proof (induction ops arbitrary: s)
  case Nil
  then show ?case by simp
next
  case (Cons op ops)
  then have "pid_exhausted (pid_step s op) i"
    by (intro pid_step_keeps_exhausted) auto
  with Cons show ?case by simp
qed

text \<open>
  Claim C10. Once a namespace \<open>N\<close> (slot \<open>i\<close>) has handed out every virtual PID
  (\<open>ulNextPid > ulMaxPid\<close>), then after any further sequence of controller operations
  that does not delete \<open>N\<close> (creating and deleting other namespaces, adding, creating
  and removing tasks, task-delete hooks), \<open>xPidNamespaceAddTask\<close> on \<open>N\<close> returns
  \<open>pdFAIL\<close> and leaves the whole controller state, \<open>N\<close> included, unchanged: removing
  tasks never makes a PID available again.
\<close>

theorem pid_exhausted_add_fails:
  assumes "pid_exhausted s i" and "OpDelete (Some i) \<notin> set ops"
  shows "xPidNamespaceAddTask (foldl pid_step s ops) (Some i) xTask
           = (pdFAIL, foldl pid_step s ops)"
  using assms by (intro add_task_exhausted pid_run_keeps_exhausted)

theorem pid_exhausted_add_fails_witness:
  "pid_exhausted pid_full 1 \<and> OpDelete (Some 1) \<notin> set pid_drain \<and>
   uxTaskCount (xPidNamespaces (foldl pid_step pid_full pid_drain) ! 1) = 0 \<and>
   xPidNamespaceAddTask (foldl pid_step pid_full pid_drain) (Some 1) (Some 11)
     = (pdFAIL, foldl pid_step pid_full pid_drain)"
proof -
  have h1: "pid_exhausted pid_full 1" by code_simp
  have h2: "OpDelete (Some 1) \<notin> set pid_drain" by code_simp
  have h3: "uxTaskCount (xPidNamespaces (foldl pid_step pid_full pid_drain) ! 1) = 0"
    by code_simp
  show ?thesis
    using h1 h2 h3 pid_exhausted_add_fails [OF h1 h2, of "Some 11"] by blast
qed

text \<open>
  The \<open>xTasks\<close> array of a namespace is filled with \<open>NULL\<close> when the namespace is
  initialised and no operation of the controller writes it afterwards, so the lookup
  by virtual PID answers \<open>NULL\<close> in every state the controller can reach.
\<close>

lemma prvScanTasks_unset:
  "\<forall>t \<in> set ts. t = NULL \<Longrightarrow> prvScanTasks k p ts = NULL"
  by (induction ts) auto

lemma pid_find_unset:
  assumes "pid_tasks_unset s"
  shows "xPidNamespaceFindTaskByVirtualPid s xNs p = NULL"
proof -
  have "\<forall>t \<in> set (take configPID_NAMESPACE_MAX_PID (xTasks (xPidNamespaces s ! i))). t = NULL"
    if "i < length (xPidNamespaces s)" for i
    using assms that by (auto simp: pid_tasks_unset_def dest!: in_set_takeD)
  then show ?thesis
    by (auto simp: xPidNamespaceFindTaskByVirtualPid_def Let_def prvScanTasks_unset
             split: option.splits)
qed

lemma nth_update_if:
  "j < length xs \<Longrightarrow> xs[i := v] ! j = (if i = j then v else xs ! j)"
  by simp

lemma pid_unset_iff:
  "pid_tasks_unset s \<longleftrightarrow>
     (\<forall>i < length (xPidNamespaces s). \<forall>t \<in> set (xTasks (xPidNamespaces s ! i)). t = NULL)"
  by (simp add: pid_tasks_unset_def all_set_conv_all_nth)

lemma pid_unset_kernel: "pid_tasks_unset (s\<lparr>xKernel := k\<rparr>) = pid_tasks_unset s"
  by (simp add: pid_tasks_unset_def)

lemma pid_create_unset:
  assumes "pid_tasks_unset s"
  shows "pid_tasks_unset (snd (xPidNamespaceCreate s pcName))"
  using assms
  by (auto simp: xPidNamespaceCreate_def prvInitializeNamespace_def pid_unset_iff nth_update_if
        split: option.splits if_splits)

lemma pid_delete_unset:
  assumes "pid_tasks_unset s"
  shows "pid_tasks_unset (snd (xPidNamespaceDelete s xNs))"
  using assms
  by (auto simp: xPidNamespaceDelete_def pid_unset_iff Let_def nth_update_if
        split: option.splits if_splits)

lemma pid_add_unset:
  assumes "pid_tasks_unset s"
  shows "pid_tasks_unset (snd (xPidNamespaceAddTask s xNs xTask))"
  using assms
  by (auto simp: xPidNamespaceAddTask_def prvAllocateVirtualPid_def pid_unset_iff Let_def
                 nth_update_if
        split: option.splits prod.splits if_splits)

lemma pid_remove_unset:
  assumes "pid_tasks_unset s"
  shows "pid_tasks_unset (snd (xPidNamespaceRemoveTask s xNs xTask))"
  using assms
  by (auto simp: xPidNamespaceRemoveTask_def pid_unset_iff Let_def nth_update_if
        split: option.splits prod.splits if_splits)

lemma pid_step_unset:
  assumes "pid_tasks_unset s"
  shows "pid_tasks_unset (pid_step s op)"
proof (cases op)
  case (OpCreateInNamespace xNs xNew)
  have "pid_tasks_unset (snd (xPidNamespaceAddTask (s\<lparr>xKernel := k\<rparr>) xNs t))" for k t
    using assms by (intro pid_add_unset) (simp add: pid_unset_kernel)
  then show ?thesis
    using assms OpCreateInNamespace
    by (auto simp: xTaskCreateInNamespace_def pid_unset_kernel split: prod.splits if_splits)
       (metis snd_conv)+
next
  case (OpTaskDelete xTask)
  then show ?thesis
    using assms pid_remove_unset [OF assms]
    by (simp add: prvPidNamespaceTaskDelete_def Let_def)
qed (use assms in \<open>simp_all add: pid_create_unset pid_delete_unset pid_add_unset pid_remove_unset\<close>)

lemma pid_boot_unset: "pid_tasks_unset (prvPidNamespaceInit pid_boot)"
proof -
  have "pid_tasks_unset (pid_boot\<lparr>xPidNamespaces := map (\<lambda>ns. ns\<lparr>xActive := pdFALSE\<rparr>) (xPidNamespaces pid_boot),
                 uxNamespaceBitmap := 0, ulNextNamespaceId := 1\<rparr> :: 'a word pid_state)"
    by (auto simp: pid_tasks_unset_def pid_boot_def)
  from pid_create_unset [OF this, of "Some ''root''"] show ?thesis
    by (simp add: prvPidNamespaceInit_def Let_def pid_tasks_unset_def split: prod.splits)
qed

lemma pid_run_unset:
  "pid_tasks_unset s \<Longrightarrow> pid_tasks_unset (foldl pid_step s ops)"
  by (induction ops arbitrary: s) (simp_all add: pid_step_unset)

lemma pid_find_always_null:
  "xPidNamespaceFindTaskByVirtualPid (foldl pid_step (prvPidNamespaceInit pid_boot) ops) xNs p = NULL"
  by (intro pid_find_unset pid_run_unset pid_boot_unset)

text \<open>
  Claim C1 (the code departs from it). Two namespaces "A" and "B" each receive one
  task. Both tasks are bound (their control blocks name their namespace and carry
  virtual PID 1), yet the lookup of virtual PID 1 returns \<open>NULL\<close> in both namespaces:
  \<open>xPidNamespaceAddTask\<close> never stores the task in \<open>xTasks\<close>, the only place
  \<open>xPidNamespaceFindTaskByVirtualPid\<close> searches.
\<close>

theorem pid_find_misses_bound_tasks:
  "pvTaskGetPidNamespace (xKernel pid_two_namespaces) (Some 1) = Some 1 \<and>
   uxTaskGetVirtualPid (xKernel pid_two_namespaces) (Some 1) = 1 \<and>
   pvTaskGetPidNamespace (xKernel pid_two_namespaces) (Some 2) = Some 2 \<and>
   uxTaskGetVirtualPid (xKernel pid_two_namespaces) (Some 2) = 1 \<and>
   xPidNamespaceFindTaskByVirtualPid pid_two_namespaces (Some 1) 1 = NULL \<and>
   xPidNamespaceFindTaskByVirtualPid pid_two_namespaces (Some 2) 1 = NULL"
  by code_simp

text \<open>
  Claim C8 (the code departs from it). After initialisation the root namespace is
  slot 0 and active; \<open>xPidNamespaceDelete\<close> applied to it returns \<open>pdPASS\<close> and
  leaves it inactive: the PID controller has no guard for the root namespace.
\<close>

theorem pid_root_namespace_deleted:
  "xPidNamespaceGetRoot (prvPidNamespaceInit (pid_boot :: 32 word pid_state)) = Some 0 \<and>
   xActive (xPidNamespaces (prvPidNamespaceInit (pid_boot :: 32 word pid_state)) ! 0) \<and>
   fst (xPidNamespaceDelete (prvPidNamespaceInit (pid_boot :: 32 word pid_state)) (Some 0))
     = pdPASS \<and>
   \<not> xActive (xPidNamespaces (snd (xPidNamespaceDelete
        (prvPidNamespaceInit (pid_boot :: 32 word pid_state)) (Some 0))) ! 0)"
  by code_simp

text \<open>
  Claim C9 (the code departs from it). In the exhausted namespace of \<open>pid_full\<close> the
  scheduler creates task 11, the bind fails, \<open>xTaskCreateInNamespace\<close> returns
  \<open>pdFAIL\<close> and hands back \<open>NULL\<close>, and task 11, absent before the call, still exists
  afterwards: it was not deleted.
\<close>

theorem pid_failed_bind_leaks_task:
  "(case xTaskCreateInNamespace pid_full (Some 1) (Some 11) of
      (xResult, pxCreatedTask, s) \<Rightarrow>
        xResult = pdFAIL \<and> pxCreatedTask = Some NULL \<and>
        pxTCBs (xKernel pid_full) 11 = None \<and> pxTCBs (xKernel s) 11 \<noteq> None)"
  by code_simp

section \<open>Properties of the IPC namespace controller\<close>

lemma prvScanAccess_find:
  "prvScanAccess xTaskNamespace xRoot pvObject entries =
     (case find (\<lambda>e. pvIpcObject e = pvObject) entries of
        None \<Rightarrow> True
      | Some e \<Rightarrow> xNamespace e = xTaskNamespace \<or> xTaskNamespace = xRoot)"
  by (induction entries) auto

text \<open>
  Claim C2. For every task \<open>T\<close> and every IPC object \<open>O\<close> (the object at address \<open>a\<close>):
  when \<open>O\<close> has a registry entry, \<open>xIpcNamespaceCheckAccess\<close> returns true exactly when
  the IPC namespace of \<open>T\<close> (the root namespace when \<open>T\<close> is unbound) is the entry's owner
  namespace or is the root namespace; when \<open>O\<close> has no registry entry it returns true.
\<close>

theorem ipc_check_access_iff:
  "xIpcNamespaceCheckAccess k s xTask (Some a) =
     (case ipc_registry_entry s a of
        None \<Rightarrow> pdTRUE
      | Some e \<Rightarrow> ipc_task_namespace k s xTask = xNamespace e \<or>
                  ipc_task_namespace k s xTask = ipc_xRootNamespace s)"
proof -
  have ns: "(case xIpcNamespaceGetTaskNamespace k xTask of
               None \<Rightarrow> ipc_xRootNamespace s | Some n \<Rightarrow> Some n)
            = ipc_task_namespace k s xTask"
    by (simp add: ipc_task_namespace_def xIpcNamespaceGetTaskNamespace_def split: option.splits)
  show ?thesis
    unfolding xIpcNamespaceCheckAccess_def ipc_registry_entry_def Let_def ns
    by (auto simp: prvScanAccess_find split: option.splits)
qed

section \<open>Properties of the CGroup controller\<close>

text \<open>
  The test of \<open>prvCGroupCanTaskRun\<close> in terms of the stored tick quota: a bound task
  may run exactly when its cgroup has no penalty left and the tick quota is
  \<open>CGROUP_NO_LIMIT\<close> or exceeds the ticks used.
\<close>

lemma cgroup_can_run_ticks_quota:
  "prvCGroupCanTaskRun cs xTask \<longleftrightarrow>
     (case pxCGroupOfTask cs xTask of
        None \<Rightarrow> True
      | Some g \<Rightarrow>
          ulPenaltyTicksLeft (xCpuLimits g) = 0 \<and>
          (ulTicksQuota (xCpuLimits g) = CGROUP_NO_LIMIT \<or>
           ulTicksUsed (xCpuLimits g) < ulTicksQuota (xCpuLimits g)))"
proof (cases "pxCGroupOfTask cs xTask")
  case None
  then show ?thesis by (simp add: prvCGroupCanTaskRun_def)
next
  case (Some g)
  have nn: "xTask \<noteq> NULL"
    using Some by (auto simp: pxCGroupOfTask_def prvGetCGroupFromTask_def split: if_splits)
  show ?thesis
    using Some nn
    by (auto simp: prvCGroupCanTaskRun_def word_greater_zero_iff not_le split: if_splits)
qed

text \<open>
  In terms of the CPU quota: when the tick quota of the cgroup is the one that belongs
  to its CPU quota and the tick counter is below the all-ones value, the test is the
  comparison of the ticks used with the CPU quota, \<open>CGROUP_CPU_QUOTA_MAX\<close> standing for
  no limit.
\<close>

lemma prvCGroupCanTaskRun_consistent:
  assumes "case pxCGroupOfTask cs xTask of
             None \<Rightarrow> True
           | Some g \<Rightarrow> cg_quota_consistent g \<and> ulTicksUsed (xCpuLimits g) \<noteq> CGROUP_NO_LIMIT"
  shows "prvCGroupCanTaskRun cs xTask \<longleftrightarrow>
     (case pxCGroupOfTask cs xTask of
        None \<Rightarrow> True
      | Some g \<Rightarrow>
          ulPenaltyTicksLeft (xCpuLimits g) = 0 \<and>
          (ulCpuQuota (xCpuLimits g) = CGROUP_CPU_QUOTA_MAX \<or>
           ulTicksUsed (xCpuLimits g) < ulCpuQuota (xCpuLimits g)))"
proof (cases "pxCGroupOfTask cs xTask")
  case None
  then show ?thesis by (simp add: prvCGroupCanTaskRun_def)
next
  case (Some g)
  from assms Some have c: "cg_quota_consistent g"
    and u: "ulTicksUsed (xCpuLimits g) \<noteq> - 1"
    by (simp_all add: CGROUP_NO_LIMIT_def)
  have nn: "xTask \<noteq> NULL"
    using Some by (auto simp: pxCGroupOfTask_def prvGetCGroupFromTask_def split: if_splits)
  from u have lt: "ulTicksUsed (xCpuLimits g) < - 1"
    by (simp add: word_order.not_eq_extremum)
  show ?thesis
    using Some c nn lt
    by (auto simp: prvCGroupCanTaskRun_def cg_quota_consistent_def CGROUP_NO_LIMIT_def
          word_greater_zero_iff not_le split: if_splits)
qed

lemma prvTickLoop_length:
  "prvTickLoop cfgWindow now bm idxs groups = Some groups' \<Longrightarrow> length groups' = length groups"
  by (induction idxs arbitrary: groups) (auto split: if_splits option.splits)

lemma prvTickLoop_nth:
  assumes "prvTickLoop cfgWindow now bm idxs groups = Some groups'"
      and "distinct idxs" and "i < length groups"
  shows "if i \<in> set idxs \<and> bm AND push_bit i 1 \<noteq> 0 \<and> cg_xActive (groups ! i)
         then prvTickCGroup cfgWindow now (groups ! i) = Some (groups' ! i)
         else groups' ! i = groups ! i"
  using assms
proof (induction idxs arbitrary: groups)
  case Nil
  then show ?case by simp
next
  case (Cons j idxs)
  show ?case
  proof (cases "bm AND push_bit j 1 \<noteq> 0 \<and> cg_xActive (groups ! j)")
    case False
    with Cons.prems have "prvTickLoop cfgWindow now bm idxs groups = Some groups'"
      by auto
    from Cons.IH [OF this] Cons.prems False show ?thesis by auto
  next
    case True
    with Cons.prems obtain g where g: "prvTickCGroup cfgWindow now (groups ! j) = Some g"
      and rest: "prvTickLoop cfgWindow now bm idxs (groups[j := g]) = Some groups'"
      by (auto split: option.splits)
    from Cons.IH [OF rest] Cons.prems
    have ih: "if i \<in> set idxs \<and> bm AND push_bit i 1 \<noteq> 0 \<and> cg_xActive (groups[j := g] ! i)
         then prvTickCGroup cfgWindow now (groups[j := g] ! i) = Some (groups' ! i)
         else groups' ! i = groups[j := g] ! i"
      by simp
    show ?thesis
    proof (cases "i = j")
      case True
      with Cons.prems have "i \<notin> set idxs" by simp
      with ih True \<open>bm AND push_bit j 1 \<noteq> 0 \<and> cg_xActive (groups ! j)\<close> g Cons.prems
      show ?thesis by simp
    next
      case False
      with ih Cons.prems show ?thesis by (auto simp: nth_list_update split: if_splits)
    qed
  qed
qed


lemma word_pos_le1: "0 < p \<Longrightarrow> \<not> 1 < p \<Longrightarrow> p = (1::'w::len word)"
  by unat_arith

lemma cg_dec_cases:
  "(if p > 0 then (if p > 1 then p - 1 else 0) else p) = cg_dec (p::'w::len word)"
  using word_pos_le1 [of p] by (auto simp: cg_dec_def word_gt_0)

lemma prvCalculatePenalty_limits:
  assumes "prvCalculatePenalty cfgWindow g = Some g1"
  shows "xCpuLimits g1 = (xCpuLimits g)\<lparr>ulPenaltyTicksLeft :=
           ulPenaltyTicksLeft (xCpuLimits g) +
           cg_excess_penalty cfgWindow (ulTicksUsed (xCpuLimits g)) (ulTicksQuota (xCpuLimits g))\<rparr>"
  using assms
  by (auto simp: prvCalculatePenalty_def Let_def cg_excess_penalty_def not_le split: if_splits)

lemma prvUpdateCpuWindow_rolled:
  assumes "prvUpdateCpuWindow cfgWindow now g = Some g2"
      and "now - xWindowStartTime (xCpuLimits g) \<ge> xWindowDuration (xCpuLimits g)"
  shows "xCpuLimits g2 = (xCpuLimits g)\<lparr>
           xWindowStartTime := now, ulTicksUsed := 0,
           ulPenaltyTicksLeft := cg_dec (ulPenaltyTicksLeft (xCpuLimits g) +
             cg_excess_penalty cfgWindow (ulTicksUsed (xCpuLimits g))
               (ulTicksQuota (xCpuLimits g)))\<rparr>"
proof -
  obtain g1 where g1: "prvCalculatePenalty cfgWindow g = Some g1"
    using assms by (auto simp: prvUpdateCpuWindow_def split: option.splits)
  define p where "p = ulPenaltyTicksLeft (xCpuLimits g1)"
  define lim where "lim = (xCpuLimits g1)\<lparr>xWindowStartTime := now, ulTicksUsed := 0\<rparr>"
  have pl: "ulPenaltyTicksLeft lim = p" by (simp add: lim_def p_def)
  have "g2 = g1\<lparr>xCpuLimits :=
           (if ulPenaltyTicksLeft lim > 0 then
              lim\<lparr>ulPenaltyTicksLeft :=
                (if ulPenaltyTicksLeft lim > 1 then ulPenaltyTicksLeft lim - 1 else 0)\<rparr>
            else lim)\<rparr>"
    using assms g1 by (simp add: prvUpdateCpuWindow_def Let_def lim_def [symmetric])
  then have "xCpuLimits g2 =
          (if p > 0 then lim\<lparr>ulPenaltyTicksLeft := (if p > 1 then p - 1 else 0)\<rparr> else lim)"
    by (simp add: pl)
  also have "\<dots> = lim\<lparr>ulPenaltyTicksLeft := (if p > 0 then (if p > 1 then p - 1 else 0) else p)\<rparr>"
    using pl by auto
  also have "\<dots> = lim\<lparr>ulPenaltyTicksLeft := cg_dec p\<rparr>"
    by (simp only: cg_dec_cases)
  finally show ?thesis
    by (simp add: lim_def p_def prvCalculatePenalty_limits [OF g1])
qed

lemma prvTickCGroup_limits:
  assumes "prvTickCGroup cfgWindow now g = Some g'"
  obtains g2 where "prvUpdateCpuWindow cfgWindow now g = Some g2"
    and "xCpuLimits g' = (xCpuLimits g2)\<lparr>ulPenaltyTicksLeft :=
           cg_dec (ulPenaltyTicksLeft (xCpuLimits g2))\<rparr>"
proof -
  obtain g2 where g2: "prvUpdateCpuWindow cfgWindow now g = Some g2"
    using assms by (auto simp: prvTickCGroup_def split: option.splits)
  have "xCpuLimits g' = (xCpuLimits g2)\<lparr>ulPenaltyTicksLeft :=
           cg_dec (ulPenaltyTicksLeft (xCpuLimits g2))\<rparr>"
    using assms g2 by (auto simp: prvTickCGroup_def cg_dec_def word_gt_0)
  with g2 that show ?thesis by blast
qed

lemma prvTickCGroup_rolled:
  assumes "prvTickCGroup cfgWindow now g = Some g'"
      and "now - xWindowStartTime (xCpuLimits g) \<ge> xWindowDuration (xCpuLimits g)"
  shows "ulPenaltyTicksLeft (xCpuLimits g') =
             cg_dec (cg_dec (ulPenaltyTicksLeft (xCpuLimits g) +
               cg_excess_penalty cfgWindow (ulTicksUsed (xCpuLimits g)) (ulTicksQuota (xCpuLimits g))))"
    and "ulTicksUsed (xCpuLimits g') = 0" and "xWindowStartTime (xCpuLimits g') = now"
proof -
  from assms(1) obtain g2 where g2: "prvUpdateCpuWindow cfgWindow now g = Some g2"
    and l: "xCpuLimits g' = (xCpuLimits g2)\<lparr>ulPenaltyTicksLeft :=
           cg_dec (ulPenaltyTicksLeft (xCpuLimits g2))\<rparr>"
    by (rule prvTickCGroup_limits)
  note r = prvUpdateCpuWindow_rolled [OF g2 assms(2)]
  show "ulPenaltyTicksLeft (xCpuLimits g') =
             cg_dec (cg_dec (ulPenaltyTicksLeft (xCpuLimits g) +
               cg_excess_penalty cfgWindow (ulTicksUsed (xCpuLimits g)) (ulTicksQuota (xCpuLimits g))))"
    and "ulTicksUsed (xCpuLimits g') = 0" and "xWindowStartTime (xCpuLimits g') = now"
    by (simp_all add: l r)
qed

lemma prvTickCGroup_not_rolled:
  assumes "prvTickCGroup cfgWindow now g = Some g'"
      and "\<not> now - xWindowStartTime (xCpuLimits g) \<ge> xWindowDuration (xCpuLimits g)"
  shows "ulPenaltyTicksLeft (xCpuLimits g') = cg_dec (ulPenaltyTicksLeft (xCpuLimits g))"
    and "ulTicksUsed (xCpuLimits g') = ulTicksUsed (xCpuLimits g)"
    and "xWindowStartTime (xCpuLimits g') = xWindowStartTime (xCpuLimits g)"
  using assms
  by (auto simp: prvTickCGroup_def prvUpdateCpuWindow_def cg_dec_def word_gt_0 split: if_splits)

lemma xCGroupCreate_consistent:
  assumes "xCGroupCreate cfgWindow now cs nm m q = (Some i, cs')" and "i < length (xCGroups cs)"
  shows "cg_quota_consistent (xCGroups cs' ! i)"
  using assms
  by (auto simp: xCGroupCreate_def cg_quota_consistent_def split: option.splits)

lemma xCGroupSetCpuQuota_consistent:
  assumes "xCGroupSetCpuQuota cs (Some i) q = (pdPASS, cs')"
  shows "cg_quota_consistent (xCGroups cs' ! i)"
  using assms
  by (auto simp: xCGroupSetCpuQuota_def cg_quota_consistent_def split: if_splits)

lemma prvTickCGroup_consistent:
  assumes "prvTickCGroup cfgWindow now g = Some g'" and "cg_quota_consistent g"
  shows "cg_quota_consistent g'"
proof -
  from assms(1) obtain g2 where g2: "prvUpdateCpuWindow cfgWindow now g = Some g2"
    and l: "xCpuLimits g' = (xCpuLimits g2)\<lparr>ulPenaltyTicksLeft :=
           cg_dec (ulPenaltyTicksLeft (xCpuLimits g2))\<rparr>"
    by (rule prvTickCGroup_limits)
  show ?thesis
  proof (cases "now - xWindowStartTime (xCpuLimits g) \<ge> xWindowDuration (xCpuLimits g)")
    case True
    from prvUpdateCpuWindow_rolled [OF g2 True] l assms(2) show ?thesis
      by (simp add: cg_quota_consistent_def)
  next
    case False
    with g2 have "g2 = g" by (simp add: prvUpdateCpuWindow_def)
    with l assms(2) show ?thesis by (simp add: cg_quota_consistent_def)
  qed
qed

lemma prvChargeCurrentTask_nth:
  assumes "i < length (xCGroups cs)"
  shows "xCGroups (prvChargeCurrentTask cs xCurrentTask) ! i =
           (xCGroups cs ! i)\<lparr>xCpuLimits :=
              (xCpuLimits (xCGroups cs ! i))\<lparr>ulTicksUsed := cg_charged cs xCurrentTask i\<rparr>\<rparr>"
  using assms
  by (auto simp: prvChargeCurrentTask_def cg_charged_def nth_list_update split: option.splits)

lemma prvChargeCurrentTask_frame:
  "uxCGroupBitmap (prvChargeCurrentTask cs xCurrentTask) = uxCGroupBitmap cs"
  "length (xCGroups (prvChargeCurrentTask cs xCurrentTask)) = length (xCGroups cs)"
  by (auto simp: prvChargeCurrentTask_def split: option.splits)

text \<open>
  The tick hook completes whenever no active cgroup in use has a tick quota of zero
  (the only division of the hook is by the tick quota).
\<close>

lemma prvCalculatePenalty_completes:
  assumes "ulTicksQuota (xCpuLimits g) \<noteq> 0"
  shows "\<exists>g1. prvCalculatePenalty cfgWindow g = Some g1 \<and>
              ulTicksQuota (xCpuLimits g1) = ulTicksQuota (xCpuLimits g) \<and>
              cg_xActive g1 = cg_xActive g"
  using assms by (simp add: prvCalculatePenalty_def Let_def)

lemma prvTickCGroup_completes:
  assumes "ulTicksQuota (xCpuLimits g) \<noteq> 0"
  shows "\<exists>g'. prvTickCGroup cfgWindow now g = Some g'"
proof -
  obtain g1 where "prvCalculatePenalty cfgWindow g = Some g1"
    using prvCalculatePenalty_completes [OF assms] by blast
  then show ?thesis
    by (simp add: prvTickCGroup_def prvUpdateCpuWindow_def Let_def)
qed

lemma prvTickLoop_completes:
  assumes "distinct idxs"
      and "\<forall>i \<in> set idxs. bm AND push_bit i 1 \<noteq> 0 \<and> cg_xActive (groups ! i)
             \<longrightarrow> ulTicksQuota (xCpuLimits (groups ! i)) \<noteq> 0"
  shows "\<exists>groups'. prvTickLoop cfgWindow now bm idxs groups = Some groups'"
  using assms
proof (induction idxs arbitrary: groups)
  case Nil
  then show ?case by simp
next
  case (Cons j idxs)
  show ?case
  proof (cases "bm AND push_bit j 1 \<noteq> 0 \<and> cg_xActive (groups ! j)")
    case False
    then show ?thesis using Cons by auto
  next
    case True
    with Cons.prems have "ulTicksQuota (xCpuLimits (groups ! j)) \<noteq> 0" by simp
    then obtain g where g: "prvTickCGroup cfgWindow now (groups ! j) = Some g"
      using prvTickCGroup_completes by blast
    have "\<forall>i \<in> set idxs. bm AND push_bit i 1 \<noteq> 0 \<and> cg_xActive (groups[j := g] ! i)
             \<longrightarrow> ulTicksQuota (xCpuLimits (groups[j := g] ! i)) \<noteq> 0"
    proof
      fix i assume i: "i \<in> set idxs"
      with Cons.prems(1) have "i \<noteq> j" by auto
      then have "groups[j := g] ! i = groups ! i" by simp
      with Cons.prems(2) i
      show "bm AND push_bit i 1 \<noteq> 0 \<and> cg_xActive (groups[j := g] ! i)
             \<longrightarrow> ulTicksQuota (xCpuLimits (groups[j := g] ! i)) \<noteq> 0"
        by simp
    qed
    with Cons.IH [of "groups[j := g]"] Cons.prems(1)
    obtain groups' where "prvTickLoop cfgWindow now bm idxs (groups[j := g]) = Some groups'"
      by auto
    with True g show ?thesis by simp
  qed
qed

lemma prvChargeCurrentTask_quota:
  "ulTicksQuota (xCpuLimits (xCGroups (prvChargeCurrentTask cs xCurrentTask) ! i))
     = ulTicksQuota (xCpuLimits (xCGroups cs ! i)) \<and>
   cg_xActive (xCGroups (prvChargeCurrentTask cs xCurrentTask) ! i) = cg_xActive (xCGroups cs ! i) \<and>
   uxCGroupBitmap (prvChargeCurrentTask cs xCurrentTask) = uxCGroupBitmap cs"
  by (auto simp: prvChargeCurrentTask_def nth_list_update split: option.splits)

lemma prvCGroupUpdateTick_completes:
  assumes "\<forall>i < configMAX_CGROUPS.
             uxCGroupBitmap cs AND push_bit i 1 \<noteq> 0 \<and> cg_xActive (xCGroups cs ! i)
               \<longrightarrow> ulTicksQuota (xCpuLimits (xCGroups cs ! i)) \<noteq> 0"
  shows "\<exists>cs'. prvCGroupUpdateTick cfgWindow now xCurrentTask cs = Some cs'"
proof -
  define cs1 where "cs1 = prvChargeCurrentTask cs xCurrentTask"
  have "\<forall>i \<in> set [0..<configMAX_CGROUPS].
          uxCGroupBitmap cs1 AND push_bit i 1 \<noteq> 0 \<and> cg_xActive (xCGroups cs1 ! i)
            \<longrightarrow> ulTicksQuota (xCpuLimits (xCGroups cs1 ! i)) \<noteq> 0"
    using assms by (simp add: cs1_def prvChargeCurrentTask_quota)
  from prvTickLoop_completes [OF _ this, of cfgWindow now]
  obtain groups' where
    "prvTickLoop cfgWindow now (uxCGroupBitmap cs1) [0..<configMAX_CGROUPS] (xCGroups cs1)
       = Some groups'"
    by auto
  then show ?thesis
    by (simp add: prvCGroupUpdateTick_def Let_def cs1_def [symmetric])
qed

text \<open>
  Claim C4, as amended. A tick hook that completes leaves every cgroup in use and
  active as follows, \<open>used\<close> being its ticks used once the running task has been charged.
  On the tick at which current-time - window-start reaches the window duration, the
  penalty for the window, \<open>(max(0, used - quota) * window) / quota\<close> and zero for an
  unlimited quota, is added to the penalty ticks left, which are then reduced twice in the
  same tick, by one each time and not below zero (once by the window update, once by
  the hook); ticks used become zero and the window starts at the current time. On any
  other tick the penalty ticks left are reduced by exactly one when positive, and the
  window is untouched.
\<close>

theorem cgroup_tick_effect:
  assumes "prvCGroupUpdateTick cfgWindow xCurrentTime xCurrentTask cs = Some cs'"
      and "i < configMAX_CGROUPS" and "i < length (xCGroups cs)"
      and "uxCGroupBitmap cs AND push_bit i 1 \<noteq> 0" and "cg_xActive (xCGroups cs ! i)"
  shows "if xCurrentTime - xWindowStartTime (xCpuLimits (xCGroups cs ! i))
              \<ge> xWindowDuration (xCpuLimits (xCGroups cs ! i))
         then
           ulPenaltyTicksLeft (xCpuLimits (xCGroups cs' ! i)) =
             cg_dec (cg_dec (ulPenaltyTicksLeft (xCpuLimits (xCGroups cs ! i)) +
               cg_excess_penalty cfgWindow (cg_charged cs xCurrentTask i)
                 (ulTicksQuota (xCpuLimits (xCGroups cs ! i))))) \<and>
           ulTicksUsed (xCpuLimits (xCGroups cs' ! i)) = 0 \<and>
           xWindowStartTime (xCpuLimits (xCGroups cs' ! i)) = xCurrentTime
         else
           ulPenaltyTicksLeft (xCpuLimits (xCGroups cs' ! i)) =
             cg_dec (ulPenaltyTicksLeft (xCpuLimits (xCGroups cs ! i))) \<and>
           ulTicksUsed (xCpuLimits (xCGroups cs' ! i)) = cg_charged cs xCurrentTask i \<and>
           xWindowStartTime (xCpuLimits (xCGroups cs' ! i)) =
             xWindowStartTime (xCpuLimits (xCGroups cs ! i))"
proof -
  define cs1 where "cs1 = prvChargeCurrentTask cs xCurrentTask"
  define g where "g = xCGroups cs1 ! i"
  have g_eq: "g = (xCGroups cs ! i)\<lparr>xCpuLimits :=
              (xCpuLimits (xCGroups cs ! i))\<lparr>ulTicksUsed := cg_charged cs xCurrentTask i\<rparr>\<rparr>"
    unfolding g_def cs1_def using assms(3) by (rule prvChargeCurrentTask_nth)
  from assms(1) obtain groups where
    loop: "prvTickLoop cfgWindow xCurrentTime (uxCGroupBitmap cs1) [0..<configMAX_CGROUPS]
             (xCGroups cs1) = Some groups"
    and cs': "cs' = cs1\<lparr>xCGroups := groups\<rparr>"
    by (auto simp: prvCGroupUpdateTick_def Let_def cs1_def split: option.splits)
  have len: "i < length (xCGroups cs1)"
    using assms(3) by (simp add: cs1_def prvChargeCurrentTask_frame)
  have cond: "i \<in> set [0..<configMAX_CGROUPS] \<and> uxCGroupBitmap cs1 AND push_bit i 1 \<noteq> 0 \<and>
              cg_xActive (xCGroups cs1 ! i)"
    using assms(2,4,5) g_eq by (simp add: cs1_def prvChargeCurrentTask_frame g_def)
  from prvTickLoop_nth [OF loop _ len] cond
  have step: "prvTickCGroup cfgWindow xCurrentTime g = Some (xCGroups cs' ! i)"
    by (simp add: g_def cs')
  show ?thesis
    using prvTickCGroup_rolled [OF step] prvTickCGroup_not_rolled [OF step]
    by (simp add: g_eq)
qed


text \<open>
  Claim C4 as stated fails: at the rollover of \<open>cg_before_rollover\<close> (quota 2, used 5,
  window 10, no penalty left) the penalty for the window is 15, and the penalty ticks
  left after the tick are 13, not 15.
\<close>

theorem cgroup_rollover_penalty_counterexample:
  "prvCGroupUpdateTick 10 10 NULL cg_before_rollover = Some cg_after_rollover \<and>
   uxCGroupBitmap cg_before_rollover AND push_bit 0 1 \<noteq> 0 \<and>
   cg_xActive (xCGroups cg_before_rollover ! 0) \<and>
   ulTicksQuota (xCpuLimits (xCGroups cg_before_rollover ! 0)) = 2 \<and>
   ulTicksUsed (xCpuLimits (xCGroups cg_before_rollover ! 0)) = 5 \<and>
   xWindowDuration (xCpuLimits (xCGroups cg_before_rollover ! 0)) = 10 \<and>
   10 - xWindowStartTime (xCpuLimits (xCGroups cg_before_rollover ! 0)) = 10 \<and>
   ulPenaltyTicksLeft (xCpuLimits (xCGroups cg_before_rollover ! 0)) + (5 - 2) * 10 div 2 = 15 \<and>
   ulPenaltyTicksLeft (xCpuLimits (xCGroups cg_after_rollover ! 0)) = 13 \<and>
   ulPenaltyTicksLeft (xCpuLimits (xCGroups cg_after_rollover ! 0)) \<noteq>
     ulPenaltyTicksLeft (xCpuLimits (xCGroups cg_before_rollover ! 0)) +
       cg_excess_penalty 10 (ulTicksUsed (xCpuLimits (xCGroups cg_before_rollover ! 0)))
         (ulTicksQuota (xCpuLimits (xCGroups cg_before_rollover ! 0)))"
  by code_simp

theorem cgroup_tick_effect_witness:
  "prvCGroupUpdateTick 10 10 NULL cg_before_rollover = Some cg_after_rollover \<and>
   (0::nat) < configMAX_CGROUPS \<and> 0 < length (xCGroups cg_before_rollover) \<and>
   uxCGroupBitmap cg_before_rollover AND push_bit 0 1 \<noteq> 0 \<and>
   cg_xActive (xCGroups cg_before_rollover ! 0) \<and>
   10 - xWindowStartTime (xCpuLimits (xCGroups cg_before_rollover ! 0))
     \<ge> xWindowDuration (xCpuLimits (xCGroups cg_before_rollover ! 0)) \<and>
   ulPenaltyTicksLeft (xCpuLimits (xCGroups cg_after_rollover ! 0)) =
     cg_dec (cg_dec (ulPenaltyTicksLeft (xCpuLimits (xCGroups cg_before_rollover ! 0)) +
       cg_excess_penalty 10 (cg_charged cg_before_rollover NULL 0)
         (ulTicksQuota (xCpuLimits (xCGroups cg_before_rollover ! 0))))) \<and>
   ulTicksUsed (xCpuLimits (xCGroups cg_after_rollover ! 0)) = 0 \<and>
   xWindowStartTime (xCpuLimits (xCGroups cg_after_rollover ! 0)) = 10"
proof -
  have h1: "prvCGroupUpdateTick 10 10 NULL cg_before_rollover = Some cg_after_rollover"
    by code_simp
  have h2: "(0::nat) < configMAX_CGROUPS" by code_simp
  have h3: "0 < length (xCGroups cg_before_rollover)" by code_simp
  have h4: "uxCGroupBitmap cg_before_rollover AND push_bit 0 1 \<noteq> 0" by code_simp
  have h5: "cg_xActive (xCGroups cg_before_rollover ! 0)" by code_simp
  have h6: "10 - xWindowStartTime (xCpuLimits (xCGroups cg_before_rollover ! 0))
     \<ge> xWindowDuration (xCpuLimits (xCGroups cg_before_rollover ! 0))" by code_simp
  show ?thesis
    using h1 h2 h3 h4 h5 h6 cgroup_tick_effect [OF h1 h2 h3 h4 h5] by simp
qed


section \<open>The states the CGroup controller reaches\<close>

text \<open>
  Arithmetic of machine words and of the mapping table used below.
\<close>

lemma unat_max_word: "unat (- 1 :: 'w::len word) = 2 ^ LENGTH('w) - 1"
  by (simp add: unsigned_minus_1_eq_mask mask_eq_exp_minus_1)

lemma unat_plus_one:
  fixes d :: "'w::len word"
  assumes "unat d + 1 < 2 ^ LENGTH('w)"
  shows "unat (d + 1) = unat d + 1"
  using assms by (simp add: unat_add_lem [THEN iffD1])

lemma unat_succ_not_max:
  fixes d :: "'w::len word"
  assumes "d \<noteq> - 1"
  shows "unat d + 1 < 2 ^ LENGTH('w)"
proof -
  have "unat d \<noteq> unat (- 1 :: 'w word)" using assms by (simp add: word_unat_eq_iff)
  moreover have "unat d < 2 ^ LENGTH('w)" by (rule unsigned_less)
  ultimately show ?thesis unfolding unat_max_word by arith
qed

lemma word_less_not_max: "x < y \<Longrightarrow> x \<noteq> - 1" for x :: "'w::len word"
  by (metis word_order.extremum_strict)

lemma find_takeWhile:
  "find P xs =
     (if length (takeWhile (\<lambda>x. \<not> P x) xs) < length xs
      then Some (xs ! length (takeWhile (\<lambda>x. \<not> P x) xs)) else None)"
  by (induction xs) auto

lemma filter_update_length:
  assumes "k < length xs"
  shows "length (filter P (xs[k := v])) + (if P (xs ! k) then 1 else 0)
           = length (filter P xs) + (if P v then 1 else 0)"
proof -
  have a: "xs[k := v] = take k xs @ v # drop (Suc k) xs"
    using assms by (rule upd_conv_take_nth_drop)
  have b: "xs = take k xs @ xs ! k # drop (Suc k) xs"
    using assms by (rule id_take_nth_drop)
  have "length (filter P xs) =
          length (filter P (take k xs @ xs ! k # drop (Suc k) xs))"
    using b by simp
  then show ?thesis unfolding a by simp
qed

lemma remove_entry_count:
  assumes "k < length m"
  shows "length (filter P (butlast (if k < length m - 1 then m[k := last m] else m)))
           + (if P (m ! k) then 1 else 0) = length (filter P m)"
proof (cases m rule: rev_cases)
  case Nil
  with assms show ?thesis by simp
next
  case (snoc xs l)
  show ?thesis
  proof (cases "k < length xs")
    case True
    then have "butlast (if k < length m - 1 then m[k := last m] else m) = xs[k := l]"
      using snoc by (simp add: list_update_append)
    moreover have "m ! k = xs ! k" using snoc True by (simp add: nth_append)
    ultimately show ?thesis
      using filter_update_length [OF True, of P l] snoc by simp
  next
    case False
    with assms snoc have k: "k = length xs" by simp
    then show ?thesis using snoc by simp
  qed
qed

lemma remove_entry_set:
  "set (butlast (if k < length m - 1 then m[k := last m] else m)) \<subseteq> set m"
proof (cases "m = []")
  case True
  then show ?thesis by simp
next
  case False
  then have "set (m[k := last m]) \<subseteq> set m"
    using set_update_subset_insert [of m k "last m"] by auto
  then show ?thesis by (auto dest!: in_set_butlastD)
qed

text \<open>
  The invariant \<open>cg_inv\<close> and what it gives for a slot and for a task.
\<close>

lemma prvGetCGroupFromTask_entry:
  assumes "prvGetCGroupFromTask cs xTask = Some i"
  shows "length (takeWhile (\<lambda>e. fst e \<noteq> xTask) (xTaskCGroupMap cs)) < length (xTaskCGroupMap cs) \<and>
         snd (xTaskCGroupMap cs ! length (takeWhile (\<lambda>e. fst e \<noteq> xTask) (xTaskCGroupMap cs))) = Some i"
  using assms find_takeWhile [of "\<lambda>e. fst e = xTask" "xTaskCGroupMap cs"]
  by (auto simp: prvGetCGroupFromTask_def split: if_splits option.splits)

lemma cg_invI:
  assumes "length (xCGroups cs) = configMAX_CGROUPS"
      and "\<And>e. e \<in> set (xTaskCGroupMap cs) \<Longrightarrow>
             \<exists>i < configMAX_CGROUPS. snd e = Some i \<and> cg_xActive (xCGroups cs ! i)"
      and "\<And>i. i < configMAX_CGROUPS \<Longrightarrow>
             unat (cg_uxTaskCount (xCGroups cs ! i))
               = length (filter (\<lambda>e. snd e = Some i) (xTaskCGroupMap cs))"
      and "\<And>i. i < configMAX_CGROUPS \<Longrightarrow>
             cg_xActive (xCGroups cs ! i) \<longleftrightarrow> bit (uxCGroupBitmap cs) i"
      and "\<And>i. i < configMAX_CGROUPS \<Longrightarrow> cg_slot_ok now (xCGroups cs ! i)"
  shows "cg_inv now cs"
  unfolding cg_inv_def by (intro conjI ballI allI impI assms)

lemma cg_inv_length: "cg_inv now cs \<Longrightarrow> length (xCGroups cs) = configMAX_CGROUPS"
  by (simp add: cg_inv_def)

lemma cg_inv_entry:
  assumes "cg_inv now cs" and "e \<in> set (xTaskCGroupMap cs)"
  shows "\<exists>i<configMAX_CGROUPS. snd e = Some i \<and> cg_xActive (xCGroups cs ! i)"
  using assms by (simp add: cg_inv_def)

lemma cg_inv_count:
  "cg_inv now cs \<Longrightarrow> i < configMAX_CGROUPS \<Longrightarrow>
     unat (cg_uxTaskCount (xCGroups cs ! i))
       = length (filter (\<lambda>e. snd e = Some i) (xTaskCGroupMap cs))"
  by (simp add: cg_inv_def)

lemma cg_inv_active:
  "cg_inv now cs \<Longrightarrow> i < configMAX_CGROUPS \<Longrightarrow>
     cg_xActive (xCGroups cs ! i) \<longleftrightarrow> bit (uxCGroupBitmap cs) i"
  by (simp add: cg_inv_def)

lemma cg_inv_slot:
  "cg_inv now cs \<Longrightarrow> i < configMAX_CGROUPS \<Longrightarrow> cg_slot_ok now (xCGroups cs ! i)"
  by (simp add: cg_inv_def)

lemma cg_inv_task:
  assumes "cg_inv now cs" and "prvGetCGroupFromTask cs xTask = Some i"
  shows "i < configMAX_CGROUPS \<and> cg_xActive (xCGroups cs ! i)"
proof -
  from prvGetCGroupFromTask_entry [OF assms(2)]
  obtain k where k: "k < length (xTaskCGroupMap cs)" "snd (xTaskCGroupMap cs ! k) = Some i"
    by blast
  then have "xTaskCGroupMap cs ! k \<in> set (xTaskCGroupMap cs)" by simp
  from cg_inv_entry [OF assms(1) this] k(2) show ?thesis by auto
qed

lemma cg_inv_no_entry:
  assumes "cg_inv now cs" and "\<not> cg_xActive (xCGroups cs ! i)"
  shows "filter (\<lambda>e. snd e = Some i) (xTaskCGroupMap cs) = []"
proof -
  have "snd e \<noteq> Some i" if "e \<in> set (xTaskCGroupMap cs)" for e
    using cg_inv_entry [OF assms(1) that] assms(2) by auto
  then show ?thesis by (simp add: filter_empty_conv)
qed

lemma cg_inv_slot_update:
  assumes inv: "cg_inv now cs" and i: "i < configMAX_CGROUPS"
      and "cg_uxTaskCount g = cg_uxTaskCount (xCGroups cs ! i)"
      and "cg_xActive g = cg_xActive (xCGroups cs ! i)"
      and "cg_slot_ok now g"
  shows "cg_inv now (cs\<lparr>xCGroups := (xCGroups cs)[i := g]\<rparr>)"
proof (rule cg_invI)
  note len = cg_inv_length [OF inv]
  show "length (xCGroups (cs\<lparr>xCGroups := (xCGroups cs)[i := g]\<rparr>)) = configMAX_CGROUPS"
    using len by simp
  fix k assume k: "k < configMAX_CGROUPS"
  show "unat (cg_uxTaskCount (xCGroups (cs\<lparr>xCGroups := (xCGroups cs)[i := g]\<rparr>) ! k))
      = length (filter (\<lambda>e. snd e = Some k)
          (xTaskCGroupMap (cs\<lparr>xCGroups := (xCGroups cs)[i := g]\<rparr>)))"
    using cg_inv_count [OF inv k] assms(3) len i by (cases "k = i") simp_all
  show "cg_xActive (xCGroups (cs\<lparr>xCGroups := (xCGroups cs)[i := g]\<rparr>) ! k)
      = bit (uxCGroupBitmap (cs\<lparr>xCGroups := (xCGroups cs)[i := g]\<rparr>)) k"
    using cg_inv_active [OF inv k] assms(4) len i by (cases "k = i") simp_all
  show "cg_slot_ok now (xCGroups (cs\<lparr>xCGroups := (xCGroups cs)[i := g]\<rparr>) ! k)"
    using cg_inv_slot [OF inv k] assms(5) len i by (cases "k = i") simp_all
next
  note len = cg_inv_length [OF inv]
  fix e assume "e \<in> set (xTaskCGroupMap (cs\<lparr>xCGroups := (xCGroups cs)[i := g]\<rparr>))"
  then have "e \<in> set (xTaskCGroupMap cs)" by simp
  from cg_inv_entry [OF inv this]
  obtain k where k: "k < configMAX_CGROUPS" "snd e = Some k" "cg_xActive (xCGroups cs ! k)"
    by auto
  then have "cg_xActive ((xCGroups cs)[i := g] ! k)"
    using assms(4) len i by (cases "k = i") simp_all
  with k show "\<exists>k<configMAX_CGROUPS. snd e = Some k \<and>
       cg_xActive (xCGroups (cs\<lparr>xCGroups := (xCGroups cs)[i := g]\<rparr>) ! k)"
    by auto
qed

lemma cg_slot_ok_memory:
  "cg_slot_ok now (g\<lparr>xMemoryLimits := m\<rparr>) = cg_slot_ok now g"
  by (simp add: cg_slot_ok_def cg_quota_consistent_def)

lemma cg_inv_set_memory_limit:
  assumes "cg_inv now cs"
  shows "cg_inv now (snd (xCGroupSetMemoryLimit cs xGroup m))"
proof (cases "fst (xCGroupSetMemoryLimit cs xGroup m)")
  case False
  then have "snd (xCGroupSetMemoryLimit cs xGroup m) = cs"
    by (auto simp: xCGroupSetMemoryLimit_def split: option.splits if_splits)
  with assms show ?thesis by simp
next
  case True
  then obtain i where i: "xGroup = Some i" "i < length (xCGroups cs)"
    by (auto simp: xCGroupSetMemoryLimit_def split: option.splits if_splits)
  then have i8: "i < configMAX_CGROUPS" using cg_inv_length [OF assms] by simp
  have eq: "snd (xCGroupSetMemoryLimit cs xGroup m) =
        cs\<lparr>xCGroups := (xCGroups cs)[i := (xCGroups cs ! i)\<lparr>xMemoryLimits :=
                  (xMemoryLimits (xCGroups cs ! i))\<lparr>ulMemoryLimit := m\<rparr>\<rparr>]\<rparr>"
    using True i by (auto simp: xCGroupSetMemoryLimit_def split: if_splits)
  show ?thesis
    unfolding eq
    by (rule cg_inv_slot_update [OF assms i8])
       (simp_all add: cg_slot_ok_memory cg_inv_slot [OF assms i8])
qed

lemma cg_inv_reset_memory_stats:
  assumes "cg_inv now cs"
  shows "cg_inv now (snd (xCGroupResetMemoryStats cs xGroup))"
proof (cases "fst (xCGroupResetMemoryStats cs xGroup)")
  case False
  then have "snd (xCGroupResetMemoryStats cs xGroup) = cs"
    by (auto simp: xCGroupResetMemoryStats_def split: option.splits if_splits)
  with assms show ?thesis by simp
next
  case True
  then obtain i where i: "xGroup = Some i" "i < length (xCGroups cs)"
    by (auto simp: xCGroupResetMemoryStats_def split: option.splits if_splits)
  then have i8: "i < configMAX_CGROUPS" using cg_inv_length [OF assms] by simp
  have eq: "snd (xCGroupResetMemoryStats cs xGroup) =
        cs\<lparr>xCGroups := (xCGroups cs)[i := (xCGroups cs ! i)\<lparr>xMemoryLimits :=
                  (xMemoryLimits (xCGroups cs ! i))\<lparr>ulMemoryUsed := 0, ulMemoryPeak := 0\<rparr>\<rparr>]\<rparr>"
    using True i by (auto simp: xCGroupResetMemoryStats_def split: if_splits)
  show ?thesis
    unfolding eq
    by (rule cg_inv_slot_update [OF assms i8])
       (simp_all add: cg_slot_ok_memory cg_inv_slot [OF assms i8])
qed

lemma cg_inv_update_memory_usage:
  assumes "cg_inv now cs" and "xCGroupUpdateMemoryUsage cs xTask d = Some (r, cs')"
  shows "cg_inv now cs'"
proof (cases "xTask \<noteq> NULL \<and> prvGetCGroupFromTask cs xTask \<noteq> NULL")
  case False
  with assms(2) have "cs' = cs"
    by (auto simp: xCGroupUpdateMemoryUsage_def split: option.splits if_splits)
  with assms(1) show ?thesis by simp
next
  case True
  then obtain i where i: "prvGetCGroupFromTask cs xTask = Some i" by auto
  then have i8: "i < configMAX_CGROUPS" using cg_inv_task [OF assms(1)] by blast
  from assms(2) True i obtain m where
    "cs' = cs\<lparr>xCGroups := (xCGroups cs)[i := (xCGroups cs ! i)\<lparr>xMemoryLimits := m\<rparr>]\<rparr>"
    by (auto simp: xCGroupUpdateMemoryUsage_def Let_def split: if_splits)
  then show ?thesis
    using cg_inv_slot_update [OF assms(1) i8, of "(xCGroups cs ! i)\<lparr>xMemoryLimits := m\<rparr>"]
    by (simp add: cg_slot_ok_memory cg_inv_slot [OF assms(1) i8])
qed

text \<open>
  Every call of the controller keeps the invariant.
\<close>

lemma cg_inv_create:
  assumes inv: "cg_inv now (cs :: 'w::len word cg_state)" and w: "8 \<le> LENGTH('w)"
  shows "cg_inv now (snd (xCGroupCreate cfgWindow now cs nm m q))"
proof (cases "prvFindFreeCGroupSlot cs")
  case None
  with inv show ?thesis by (simp add: xCGroupCreate_def)
next
  case (Some j)
  then have j: "j < configMAX_CGROUPS" "uxCGroupBitmap cs AND push_bit j 1 = 0"
    using find_free_slot_Some [of "uxCGroupBitmap cs" configMAX_CGROUPS j]
    by (simp_all add: prvFindFreeCGroupSlot_def)
  then have nb: "\<not> bit (uxCGroupBitmap cs) j" by (simp add: bitmap_test_iff)
  with cg_inv_active [OF inv j(1)] have na: "\<not> cg_xActive (xCGroups cs ! j)" by simp
  have jl: "j < LENGTH('w)" using j(1) w by (simp add: configMAX_CGROUPS_def)
  define g :: "'w word CGroup_t" where "g =
     \<lparr>pcGroupName = take (configMAX_CGROUP_NAME_LEN - 1) nm,
      xMemoryLimits = \<lparr>ulMemoryLimit = m, ulMemoryUsed = 0, ulMemoryPeak = 0\<rparr>,
      xCpuLimits =
        \<lparr>ulCpuQuota = q, ulTicksUsed = 0,
         ulTicksQuota = (if q = CGROUP_CPU_QUOTA_MAX then CGROUP_NO_LIMIT else q),
         ulPenaltyTicksLeft = 0, xWindowStartTime = now,
         xWindowDuration = cfgWindow\<rparr>,
      cg_uxTaskCount = 0, cg_xActive = pdTRUE\<rparr>"
  define cs' where "cs' = cs\<lparr>uxCGroupBitmap := uxCGroupBitmap cs OR push_bit j 1,
               xCGroups := (xCGroups cs)[j := g]\<rparr>"
  have eq: "snd (xCGroupCreate cfgWindow now cs nm m q) = cs'"
    using Some by (simp add: xCGroupCreate_def g_def cs'_def)
  have gok: "cg_slot_ok now g"
    by (simp add: cg_slot_ok_def cg_quota_consistent_def g_def)
  have g0: "cg_uxTaskCount g = 0" "cg_xActive g" by (simp_all add: g_def)
  note len = cg_inv_length [OF inv]
  have noent: "filter (\<lambda>e. snd e = Some j) (xTaskCGroupMap cs) = []"
    by (rule cg_inv_no_entry [OF inv na])
  have bitj: "bit (uxCGroupBitmap cs') k \<longleftrightarrow> bit (uxCGroupBitmap cs) k \<or> k = j" for k
    using jl by (auto simp: cs'_def bit_simps)
  have nth: "xCGroups cs' ! k = (if k = j then g else xCGroups cs ! k)"
    if "k < configMAX_CGROUPS" for k
    using that len by (simp add: cs'_def)
  have mp: "xTaskCGroupMap cs' = xTaskCGroupMap cs" by (simp add: cs'_def)
  show ?thesis
    unfolding eq
  proof (rule cg_invI)
    show "length (xCGroups cs') = configMAX_CGROUPS" using len by (simp add: cs'_def)
  next
    fix e assume "e \<in> set (xTaskCGroupMap cs')"
    then have "e \<in> set (xTaskCGroupMap cs)" by (simp add: mp)
    from cg_inv_entry [OF inv this]
    obtain k where k: "k < configMAX_CGROUPS" "snd e = Some k" "cg_xActive (xCGroups cs ! k)"
      by auto
    with na have "k \<noteq> j" by auto
    with k show "\<exists>k<configMAX_CGROUPS. snd e = Some k \<and> cg_xActive (xCGroups cs' ! k)"
      by (auto simp: nth)
  next
    fix k assume k: "k < configMAX_CGROUPS"
    show "unat (cg_uxTaskCount (xCGroups cs' ! k))
            = length (filter (\<lambda>e. snd e = Some k) (xTaskCGroupMap cs'))"
      using cg_inv_count [OF inv k] noent g0 by (simp add: nth [OF k] mp)
    show "cg_xActive (xCGroups cs' ! k) \<longleftrightarrow> bit (uxCGroupBitmap cs') k"
      using cg_inv_active [OF inv k] g0 by (simp add: nth [OF k] bitj)
    show "cg_slot_ok now (xCGroups cs' ! k)"
      using cg_inv_slot [OF inv k] gok by (simp add: nth [OF k])
  qed
qed

lemma cg_inv_delete:
  assumes inv: "cg_inv now (cs :: 'w::len word cg_state)"
  shows "cg_inv now (snd (xCGroupDelete cs xGroup))"
proof (cases "fst (xCGroupDelete cs xGroup)")
  case False
  then have "snd (xCGroupDelete cs xGroup) = cs"
    by (auto simp: xCGroupDelete_def Let_def split: option.splits if_splits)
  with inv show ?thesis by simp
next
  case True
  then obtain i where i: "i < configMAX_CGROUPS" "\<not> cg_uxTaskCount (xCGroups cs ! i) > 0"
    and idx: "prvGetCGroupIndex cs xGroup = Some i" "xGroup \<noteq> NULL"
    by (auto simp: xCGroupDelete_def prvGetCGroupIndex_def Let_def split: option.splits if_splits)
  define cs' where "cs' = cs\<lparr>xCGroups := (xCGroups cs)[i := (xCGroups cs ! i)\<lparr>cg_xActive := pdFALSE\<rparr>],
                    uxCGroupBitmap := uxCGroupBitmap cs AND NOT (push_bit i 1)\<rparr>"
  have eq: "snd (xCGroupDelete cs xGroup) = cs'"
    using i idx by (auto simp: xCGroupDelete_def Let_def cs'_def)
  note len = cg_inv_length [OF inv]
  from i(2) have c0: "cg_uxTaskCount (xCGroups cs ! i) = 0" by (simp add: word_gt_0)
  with cg_inv_count [OF inv i(1)]
  have noent: "filter (\<lambda>e. snd e = Some i) (xTaskCGroupMap cs) = []" by simp
  have bitj: "bit (uxCGroupBitmap cs') k \<longleftrightarrow> bit (uxCGroupBitmap cs) k \<and> k \<noteq> i" for k
    by (auto simp: cs'_def bit_simps dest: bit_imp_le_length)
  have nth: "xCGroups cs' ! k =
      (if k = i then (xCGroups cs ! i)\<lparr>cg_xActive := pdFALSE\<rparr> else xCGroups cs ! k)"
    if "k < configMAX_CGROUPS" for k
    using that len by (simp add: cs'_def)
  have mp: "xTaskCGroupMap cs' = xTaskCGroupMap cs" by (simp add: cs'_def)
  show ?thesis
    unfolding eq
  proof (rule cg_invI)
    show "length (xCGroups cs') = configMAX_CGROUPS" using len by (simp add: cs'_def)
  next
    fix e assume e: "e \<in> set (xTaskCGroupMap cs')"
    then have e': "e \<in> set (xTaskCGroupMap cs)" by (simp add: mp)
    from cg_inv_entry [OF inv this]
    obtain k where k: "k < configMAX_CGROUPS" "snd e = Some k" "cg_xActive (xCGroups cs ! k)"
      by auto
    from noent e' have "snd e \<noteq> Some i" by (auto simp: filter_empty_conv)
    with k have "k \<noteq> i" by auto
    with k show "\<exists>k<configMAX_CGROUPS. snd e = Some k \<and> cg_xActive (xCGroups cs' ! k)"
      by (auto simp: nth)
  next
    fix k assume k: "k < configMAX_CGROUPS"
    show "unat (cg_uxTaskCount (xCGroups cs' ! k))
            = length (filter (\<lambda>e. snd e = Some k) (xTaskCGroupMap cs'))"
      using cg_inv_count [OF inv k] by (auto simp: nth [OF k] mp)
    show "cg_xActive (xCGroups cs' ! k) \<longleftrightarrow> bit (uxCGroupBitmap cs') k"
      using cg_inv_active [OF inv k] by (auto simp: nth [OF k] bitj)
    show "cg_slot_ok now (xCGroups cs' ! k)"
      using cg_inv_slot [OF inv k] by (auto simp: nth [OF k] cg_slot_ok_def)
  qed
qed

lemma unat_succ_small:
  fixes c :: "'w::len word"
  assumes "8 \<le> LENGTH('w)" and "unat c < 64"
  shows "unat (c + 1) = unat c + 1"
proof -
  have "(2::nat) ^ 8 \<le> 2 ^ LENGTH('w)" using assms(1) by (rule power_increasing) simp
  with assms(2) have "unat c + 1 < 2 ^ LENGTH('w)" by simp
  then show ?thesis by (rule unat_plus_one)
qed

lemma cg_inv_add_task:
  assumes inv: "cg_inv now (cs :: 'w::len word cg_state)" and w: "8 \<le> LENGTH('w)"
  shows "cg_inv now (snd (xCGroupAddTask cs xGroup xTask))"
proof (cases "fst (xCGroupAddTask cs xGroup xTask)")
  case False
  then have "snd (xCGroupAddTask cs xGroup xTask) = cs"
    by (auto simp: xCGroupAddTask_def prvAddTaskToMap_def split: option.splits if_splits)
  with inv show ?thesis by simp
next
  case True
  then obtain i where i: "xGroup = Some i" "i < length (xCGroups cs)"
      "cg_xActive (xCGroups cs ! i)"
    and room: "length (xTaskCGroupMap cs) < configMAX_CGROUPS * 8"
    and fresh: "prvGetCGroupFromTask cs xTask = NULL" and t: "xTask \<noteq> NULL"
    by (auto simp: xCGroupAddTask_def prvAddTaskToMap_def split: option.splits if_splits)
  note len = cg_inv_length [OF inv]
  have i8: "i < configMAX_CGROUPS" using i(2) len by simp
  define cs' where "cs' = cs\<lparr>xTaskCGroupMap := xTaskCGroupMap cs @ [(xTask, Some i)],
      xCGroups := (xCGroups cs)[i := (xCGroups cs ! i)
         \<lparr>cg_uxTaskCount := cg_uxTaskCount (xCGroups cs ! i) + 1\<rparr>]\<rparr>"
  have eq: "snd (xCGroupAddTask cs xGroup xTask) = cs'"
    using i room fresh t by (auto simp: xCGroupAddTask_def prvAddTaskToMap_def cs'_def)
  have nth: "xCGroups cs' ! k =
      (if k = i then (xCGroups cs ! i)\<lparr>cg_uxTaskCount := cg_uxTaskCount (xCGroups cs ! i) + 1\<rparr>
       else xCGroups cs ! k)"
    if "k < configMAX_CGROUPS" for k
    using that len by (simp add: cs'_def)
  have mp: "xTaskCGroupMap cs' = xTaskCGroupMap cs @ [(xTask, Some i)]" by (simp add: cs'_def)
  have bm: "uxCGroupBitmap cs' = uxCGroupBitmap cs" by (simp add: cs'_def)
  have "unat (cg_uxTaskCount (xCGroups cs ! i)) \<le> length (xTaskCGroupMap cs)"
    using cg_inv_count [OF inv i8] by simp
  with room have "unat (cg_uxTaskCount (xCGroups cs ! i)) < 64"
    by (simp add: configMAX_CGROUPS_def)
  from unat_succ_small [OF w this]
  have cnt: "unat (cg_uxTaskCount (xCGroups cs ! i) + 1)
               = unat (cg_uxTaskCount (xCGroups cs ! i)) + 1" .
  show ?thesis
    unfolding eq
  proof (rule cg_invI)
    show "length (xCGroups cs') = configMAX_CGROUPS" using len by (simp add: cs'_def)
  next
    fix e assume e: "e \<in> set (xTaskCGroupMap cs')"
    show "\<exists>k<configMAX_CGROUPS. snd e = Some k \<and> cg_xActive (xCGroups cs' ! k)"
    proof (cases "e = (xTask, Some i)")
      case True
      with i8 i(3) show ?thesis by (auto simp: nth)
    next
      case False
      with e have "e \<in> set (xTaskCGroupMap cs)" by (simp add: mp)
      from cg_inv_entry [OF inv this]
      obtain k where k: "k < configMAX_CGROUPS" "snd e = Some k" "cg_xActive (xCGroups cs ! k)"
        by auto
      then show ?thesis by (auto simp: nth)
    qed
  next
    fix k assume k: "k < configMAX_CGROUPS"
    show "unat (cg_uxTaskCount (xCGroups cs' ! k))
            = length (filter (\<lambda>e. snd e = Some k) (xTaskCGroupMap cs'))"
      using cg_inv_count [OF inv k] cnt by (auto simp: nth [OF k] mp)
    show "cg_xActive (xCGroups cs' ! k) \<longleftrightarrow> bit (uxCGroupBitmap cs') k"
      using cg_inv_active [OF inv k] by (auto simp: nth [OF k] bm)
    show "cg_slot_ok now (xCGroups cs' ! k)"
      using cg_inv_slot [OF inv k]
      by (auto simp: nth [OF k] cg_slot_ok_def cg_quota_consistent_def)
  qed
qed

lemma cg_inv_remove_task:
  assumes inv: "cg_inv now (cs :: 'w::len word cg_state)"
  shows "cg_inv now (snd (xCGroupRemoveTask cs xGroup xTask))"
proof (cases "fst (xCGroupRemoveTask cs xGroup xTask)")
  case False
  then have "snd (xCGroupRemoveTask cs xGroup xTask) = cs"
    by (auto simp: xCGroupRemoveTask_def prvRemoveTaskFromMap_def Let_def
          split: option.splits if_splits prod.splits)
  with inv show ?thesis by simp
next
  case True
  then obtain i where i: "xGroup = Some i" and t: "xTask \<noteq> NULL"
    and g: "prvGetCGroupFromTask cs xTask = Some i"
    by (auto simp: xCGroupRemoveTask_def split: option.splits if_splits)
  define m where "m = xTaskCGroupMap cs"
  define ux where "ux = length (takeWhile (\<lambda>e. fst e \<noteq> xTask) m)"
  from prvGetCGroupFromTask_entry [OF g]
  have ux: "ux < length m" "snd (m ! ux) = Some i" by (simp_all add: ux_def m_def)
  define m' where "m' = butlast (if ux < length m - 1 then m[ux := last m] else m)"
  define cs' where "cs' = cs\<lparr>xTaskCGroupMap := m',
      xCGroups := (xCGroups cs)[i := (xCGroups cs ! i)
         \<lparr>cg_uxTaskCount := cg_uxTaskCount (xCGroups cs ! i) - 1\<rparr>]\<rparr>"
  have eq: "snd (xCGroupRemoveTask cs xGroup xTask) = cs'"
    using i t g ux(1)
    by (auto simp: xCGroupRemoveTask_def prvRemoveTaskFromMap_def Let_def cs'_def m'_def
          ux_def m_def)
  note len = cg_inv_length [OF inv]
  have i8: "i < configMAX_CGROUPS" using cg_inv_task [OF inv g] by simp
  have nth: "xCGroups cs' ! k =
      (if k = i then (xCGroups cs ! i)\<lparr>cg_uxTaskCount := cg_uxTaskCount (xCGroups cs ! i) - 1\<rparr>
       else xCGroups cs ! k)"
    if "k < configMAX_CGROUPS" for k
    using that len by (simp add: cs'_def)
  have mp: "xTaskCGroupMap cs' = m'" by (simp add: cs'_def)
  have bm: "uxCGroupBitmap cs' = uxCGroupBitmap cs" by (simp add: cs'_def)
  have cnt: "length (filter (\<lambda>e. snd e = Some k) m') + (if k = i then 1 else 0)
               = length (filter (\<lambda>e. snd e = Some k) m)" for k
    using remove_entry_count [OF ux(1), of "\<lambda>e. snd e = Some k", folded m'_def] ux(2)
    by (cases "k = i") auto
  have sub: "set m' \<subseteq> set m" unfolding m'_def by (rule remove_entry_set)
  have ci: "unat (cg_uxTaskCount (xCGroups cs ! i)) = length (filter (\<lambda>e. snd e = Some i) m)"
    using cg_inv_count [OF inv i8] by (simp add: m_def)
  from cnt [of i] have cs: "length (filter (\<lambda>e. snd e = Some i) m)
                              = Suc (length (filter (\<lambda>e. snd e = Some i) m'))"
    by simp
  have pos: "unat (cg_uxTaskCount (xCGroups cs ! i)) \<noteq> 0" unfolding ci cs by simp
  then have dec: "unat (cg_uxTaskCount (xCGroups cs ! i) - 1)
                    = unat (cg_uxTaskCount (xCGroups cs ! i)) - 1"
    by unat_arith
  show ?thesis
    unfolding eq
  proof (rule cg_invI)
    show "length (xCGroups cs') = configMAX_CGROUPS" using len by (simp add: cs'_def)
  next
    fix e assume e: "e \<in> set (xTaskCGroupMap cs')"
    with sub have "e \<in> set (xTaskCGroupMap cs)" by (auto simp: mp m_def)
    from cg_inv_entry [OF inv this]
    obtain k where k: "k < configMAX_CGROUPS" "snd e = Some k" "cg_xActive (xCGroups cs ! k)"
      by auto
    then show "\<exists>k<configMAX_CGROUPS. snd e = Some k \<and> cg_xActive (xCGroups cs' ! k)"
      by (auto simp: nth)
  next
    fix k assume k: "k < configMAX_CGROUPS"
    show "unat (cg_uxTaskCount (xCGroups cs' ! k))
            = length (filter (\<lambda>e. snd e = Some k) (xTaskCGroupMap cs'))"
    proof (cases "k = i")
      case True
      then show ?thesis by (simp add: nth [OF i8] mp dec ci cs)
    next
      case False
      then show ?thesis
        using cnt [of k] cg_inv_count [OF inv k] by (simp add: nth [OF k] mp m_def)
    qed
    show "cg_xActive (xCGroups cs' ! k) \<longleftrightarrow> bit (uxCGroupBitmap cs') k"
      using cg_inv_active [OF inv k] by (auto simp: nth [OF k] bm)
    show "cg_slot_ok now (xCGroups cs' ! k)"
      using cg_inv_slot [OF inv k]
      by (auto simp: nth [OF k] cg_slot_ok_def cg_quota_consistent_def)
  qed
qed

lemma cg_inv_set_cpu_quota:
  assumes inv: "cg_inv now cs"
  shows "cg_inv now (snd (xCGroupSetCpuQuota cs xGroup q))"
proof (cases "fst (xCGroupSetCpuQuota cs xGroup q)")
  case False
  then have "snd (xCGroupSetCpuQuota cs xGroup q) = cs"
    by (auto simp: xCGroupSetCpuQuota_def split: option.splits if_splits)
  with inv show ?thesis by simp
next
  case True
  then obtain i where i: "xGroup = Some i" "i < length (xCGroups cs)"
    by (auto simp: xCGroupSetCpuQuota_def split: option.splits if_splits)
  then have i8: "i < configMAX_CGROUPS" using cg_inv_length [OF inv] by simp
  define g where "g = (xCGroups cs ! i)\<lparr>xCpuLimits :=
                  (xCpuLimits (xCGroups cs ! i))\<lparr>
                     ulCpuQuota := q,
                     ulTicksQuota :=
                       (if q = CGROUP_CPU_QUOTA_MAX then CGROUP_NO_LIMIT else q)\<rparr>\<rparr>"
  have eq: "snd (xCGroupSetCpuQuota cs xGroup q) = cs\<lparr>xCGroups := (xCGroups cs)[i := g]\<rparr>"
    using True i by (auto simp: xCGroupSetCpuQuota_def g_def split: if_splits)
  have "cg_slot_ok now g"
    using cg_inv_slot [OF inv i8] by (simp add: g_def cg_slot_ok_def cg_quota_consistent_def)
  then show ?thesis
    unfolding eq by (intro cg_inv_slot_update [OF inv i8]) (simp_all add: g_def)
qed

lemma prvUpdateCpuWindow_frame:
  assumes "prvUpdateCpuWindow cfgWindow now g = Some g2"
  shows "cg_xActive g2 = cg_xActive g" and "cg_uxTaskCount g2 = cg_uxTaskCount g"
    and "ulCpuQuota (xCpuLimits g2) = ulCpuQuota (xCpuLimits g)"
    and "ulTicksQuota (xCpuLimits g2) = ulTicksQuota (xCpuLimits g)"
  using assms
  by (auto simp: prvUpdateCpuWindow_def prvCalculatePenalty_def Let_def
        split: if_splits option.splits)

lemma prvUpdateCpuWindow_time:
  assumes "prvUpdateCpuWindow cfgWindow now g = Some g2"
      and "now - xWindowStartTime (xCpuLimits g) \<ge> xWindowDuration (xCpuLimits g)"
  shows "ulTicksUsed (xCpuLimits g2) = 0" and "xWindowStartTime (xCpuLimits g2) = now"
  using prvUpdateCpuWindow_rolled [OF assms] by simp_all

lemma prvUpdateCpuWindow_ok:
  assumes u: "prvUpdateCpuWindow cfgWindow now g = Some g2" and ok: "cg_slot_ok now g"
  shows "cg_slot_ok now g2"
proof (cases "now - xWindowStartTime (xCpuLimits g) \<ge> xWindowDuration (xCpuLimits g)")
  case True
  from prvUpdateCpuWindow_time [OF u True] prvUpdateCpuWindow_frame [OF u] ok
  show ?thesis by (simp add: cg_slot_ok_def cg_quota_consistent_def)
next
  case False
  with u have "g2 = g" by (simp add: prvUpdateCpuWindow_def)
  with ok show ?thesis by simp
qed

lemma cg_inv_get_stats:
  assumes inv: "cg_inv now cs" and s: "xCGroupGetStats cfgWindow now cs xGroup = Some (r, st, cs')"
  shows "cg_inv now cs'"
proof (cases r)
  case False
  with s have "cs' = cs"
    by (auto simp: xCGroupGetStats_def split: option.splits if_splits)
  with inv show ?thesis by simp
next
  case True
  with s obtain i g where i: "xGroup = Some i" "i < length (xCGroups cs)"
    and g: "prvUpdateCpuWindow cfgWindow now (xCGroups cs ! i) = Some g"
    and eq: "cs' = cs\<lparr>xCGroups := (xCGroups cs)[i := g]\<rparr>"
    by (auto simp: xCGroupGetStats_def split: option.splits if_splits)
  from i have i8: "i < configMAX_CGROUPS" using cg_inv_length [OF inv] by simp
  show ?thesis
    unfolding eq
    by (intro cg_inv_slot_update [OF inv i8] prvUpdateCpuWindow_frame [OF g]
          prvUpdateCpuWindow_ok [OF g] cg_inv_slot [OF inv i8])
qed

lemma prvTickCGroup_frame:
  assumes "prvTickCGroup cfgWindow now g = Some g'"
  shows "cg_xActive g' = cg_xActive g" and "cg_uxTaskCount g' = cg_uxTaskCount g"
proof -
  from assms obtain g2 where g2: "prvUpdateCpuWindow cfgWindow now g = Some g2"
    and g': "g' = (if ulPenaltyTicksLeft (xCpuLimits g2) > 0
                then g2\<lparr>xCpuLimits := (xCpuLimits g2)\<lparr>ulPenaltyTicksLeft :=
                         ulPenaltyTicksLeft (xCpuLimits g2) - 1\<rparr>\<rparr>
                else g2)"
    by (auto simp: prvTickCGroup_def split: option.splits)
  from prvUpdateCpuWindow_frame [OF g2] g'
  show "cg_xActive g' = cg_xActive g" and "cg_uxTaskCount g' = cg_uxTaskCount g"
    by simp_all
qed

lemma prvTickCGroup_ok:
  assumes t: "prvTickCGroup cfgWindow now g = Some g'"
      and c: "cg_quota_consistent g"
      and u: "unat (ulTicksUsed (xCpuLimits g)) \<le> unat (now - xWindowStartTime (xCpuLimits g))"
  shows "cg_slot_ok now g'"
proof (cases "now - xWindowStartTime (xCpuLimits g) \<ge> xWindowDuration (xCpuLimits g)")
  case True
  from prvTickCGroup_rolled(2,3) [OF t True] prvTickCGroup_consistent [OF t c]
  show ?thesis by (simp add: cg_slot_ok_def)
next
  case False
  then have "now - xWindowStartTime (xCpuLimits g) \<noteq> - 1"
    by (intro word_less_not_max [of _ "xWindowDuration (xCpuLimits g)"]) (simp add: not_le)
  with prvTickCGroup_not_rolled(2,3) [OF t False] prvTickCGroup_consistent [OF t c] u
  show ?thesis by (simp add: cg_slot_ok_def)
qed

lemma prvChargeCurrentTask_map:
  "xTaskCGroupMap (prvChargeCurrentTask cs xCurrentTask) = xTaskCGroupMap cs"
  by (auto simp: prvChargeCurrentTask_def split: option.splits)

lemma cg_charged_cases:
  "cg_charged cs xCurrentTask i = ulTicksUsed (xCpuLimits (xCGroups cs ! i)) \<or>
   cg_charged cs xCurrentTask i = ulTicksUsed (xCpuLimits (xCGroups cs ! i)) + 1"
  by (simp add: cg_charged_def)

lemma cg_inv_tick:
  assumes inv: "cg_inv now (cs :: 'w::len word cg_state)"
      and t: "prvCGroupUpdateTick cfgWindow (now + 1) xCurrentTask cs = Some cs'"
  shows "cg_inv (now + 1) cs'"
proof -
  define cs1 where "cs1 = prvChargeCurrentTask cs xCurrentTask"
  from t obtain groups where
    loop: "prvTickLoop cfgWindow (now + 1) (uxCGroupBitmap cs1) [0..<configMAX_CGROUPS]
             (xCGroups cs1) = Some groups"
    and cs': "cs' = cs1\<lparr>xCGroups := groups\<rparr>"
    by (auto simp: prvCGroupUpdateTick_def Let_def cs1_def split: option.splits)
  note len = cg_inv_length [OF inv]
  have len1: "length (xCGroups cs1) = configMAX_CGROUPS"
    using len by (simp add: cs1_def prvChargeCurrentTask_frame)
  have bm1: "uxCGroupBitmap cs1 = uxCGroupBitmap cs"
    by (simp add: cs1_def prvChargeCurrentTask_frame)
  have mp: "xTaskCGroupMap cs' = xTaskCGroupMap cs"
    by (simp add: cs' cs1_def prvChargeCurrentTask_map)
  have bm: "uxCGroupBitmap cs' = uxCGroupBitmap cs" by (simp add: cs' bm1)
  have gr: "xCGroups cs' = groups" by (simp add: cs')
  have slot: "cg_xActive (groups ! k) = cg_xActive (xCGroups cs ! k) \<and>
              cg_uxTaskCount (groups ! k) = cg_uxTaskCount (xCGroups cs ! k) \<and>
              cg_slot_ok (now + 1) (groups ! k)"
    if k: "k < configMAX_CGROUPS" for k
  proof -
    define g1 where "g1 = xCGroups cs1 ! k"
    have kl: "k < length (xCGroups cs)" using k len by simp
    have g1: "g1 = (xCGroups cs ! k)\<lparr>xCpuLimits :=
              (xCpuLimits (xCGroups cs ! k))\<lparr>ulTicksUsed := cg_charged cs xCurrentTask k\<rparr>\<rparr>"
      unfolding g1_def cs1_def using kl by (rule prvChargeCurrentTask_nth)
    have kl1: "k < length (xCGroups cs1)" using k len1 by simp
    note nth = prvTickLoop_nth [OF loop distinct_upt kl1, folded g1_def]
    show ?thesis
    proof (cases "cg_xActive (xCGroups cs ! k)")
      case False
      then have "\<not> cg_xActive g1" by (simp add: g1)
      with nth have "groups ! k = g1" by simp
      with False show ?thesis by (simp add: g1 cg_slot_ok_def)
    next
      case True
      with cg_inv_active [OF inv k] have "bit (uxCGroupBitmap cs) k" by simp
      then have "uxCGroupBitmap cs1 AND push_bit k 1 \<noteq> 0"
        by (simp add: bm1 bitmap_test_iff)
      moreover have "cg_xActive g1" using True by (simp add: g1)
      ultimately have tk: "prvTickCGroup cfgWindow (now + 1) g1 = Some (groups ! k)"
        using nth k by simp
      from cg_inv_slot [OF inv k] True
      have c: "cg_quota_consistent (xCGroups cs ! k)"
        and u: "unat (ulTicksUsed (xCpuLimits (xCGroups cs ! k)))
                  \<le> unat (now - xWindowStartTime (xCpuLimits (xCGroups cs ! k)))"
        and d: "now - xWindowStartTime (xCpuLimits (xCGroups cs ! k)) \<noteq> - 1"
        by (simp_all add: cg_slot_ok_def)
      define dd where "dd = now - xWindowStartTime (xCpuLimits (xCGroups cs ! k))"
      have dlt: "unat dd + 1 < 2 ^ LENGTH('w)"
        using d unfolding dd_def by (rule unat_succ_not_max)
      then have d1: "unat (dd + 1) = unat dd + 1" by (rule unat_plus_one)
      have "unat (ulTicksUsed (xCpuLimits (xCGroups cs ! k))) + 1 < 2 ^ LENGTH('w)"
        using u dlt by (simp add: dd_def)
      then have "unat (ulTicksUsed (xCpuLimits (xCGroups cs ! k)) + 1)
                   = unat (ulTicksUsed (xCpuLimits (xCGroups cs ! k))) + 1"
        by (rule unat_plus_one)
      with cg_charged_cases [of cs xCurrentTask k] u
      have ch: "unat (cg_charged cs xCurrentTask k) \<le> unat dd + 1"
        by (auto simp: dd_def)
      have e: "now + 1 - xWindowStartTime (xCpuLimits (xCGroups cs ! k)) = dd + 1"
        by (simp add: dd_def)
      have "unat (now + 1 - xWindowStartTime (xCpuLimits (xCGroups cs ! k))) = unat dd + 1"
        unfolding e by (rule d1)
      with ch have u1: "unat (ulTicksUsed (xCpuLimits g1))
                  \<le> unat (now + 1 - xWindowStartTime (xCpuLimits g1))"
        by (simp add: g1)
      have c1: "cg_quota_consistent g1" using c by (simp add: g1 cg_quota_consistent_def)
      from prvTickCGroup_ok [OF tk c1 u1] prvTickCGroup_frame [OF tk]
      show ?thesis by (simp add: g1)
    qed
  qed
  have glen: "length groups = configMAX_CGROUPS"
    using prvTickLoop_length [OF loop] len1 by simp
  show ?thesis
  proof (rule cg_invI)
    show "length (xCGroups cs') = configMAX_CGROUPS" by (simp add: gr glen)
  next
    fix e assume "e \<in> set (xTaskCGroupMap cs')"
    then have "e \<in> set (xTaskCGroupMap cs)" by (simp add: mp)
    from cg_inv_entry [OF inv this]
    obtain k where k: "k < configMAX_CGROUPS" "snd e = Some k" "cg_xActive (xCGroups cs ! k)"
      by auto
    with slot [OF k(1)]
    show "\<exists>k<configMAX_CGROUPS. snd e = Some k \<and> cg_xActive (xCGroups cs' ! k)"
      by (auto simp: gr)
  next
    fix k assume k: "k < configMAX_CGROUPS"
    show "unat (cg_uxTaskCount (xCGroups cs' ! k))
            = length (filter (\<lambda>e. snd e = Some k) (xTaskCGroupMap cs'))"
      using cg_inv_count [OF inv k] slot [OF k] by (simp add: gr mp)
    show "cg_xActive (xCGroups cs' ! k) \<longleftrightarrow> bit (uxCGroupBitmap cs') k"
      using cg_inv_active [OF inv k] slot [OF k] by (simp add: gr bm)
    show "cg_slot_ok (now + 1) (xCGroups cs' ! k)"
      using slot [OF k] by (simp add: gr)
  qed
qed

lemma cg_step_inv:
  assumes inv: "cg_inv (xTickCount W) (xCG (W :: 'w::len word cg_world))"
      and w: "8 \<le> LENGTH('w)"
      and s: "cg_step cfgWindow W op = Some W'"
  shows "cg_inv (xTickCount W') (xCG W')"
proof (cases op)
  case (CgCreate nm m q)
  with s cg_inv_create [OF inv w] show ?thesis by auto
next
  case (CgDelete h)
  with s cg_inv_delete [OF inv] show ?thesis by auto
next
  case (CgAddTask h t)
  with s cg_inv_add_task [OF inv w] show ?thesis by auto
next
  case (CgRemoveTask h t)
  with s cg_inv_remove_task [OF inv] show ?thesis by auto
next
  case (CgUpdateMemoryUsage t d)
  with s cg_inv_update_memory_usage [OF inv] show ?thesis
    by (auto split: option.splits)
next
  case (CgGetStats h)
  with s cg_inv_get_stats [OF inv] show ?thesis
    by (auto split: option.splits)
next
  case (CgSetMemoryLimit h m)
  with s cg_inv_set_memory_limit [OF inv] show ?thesis by auto
next
  case (CgSetCpuQuota h q)
  with s cg_inv_set_cpu_quota [OF inv] show ?thesis by auto
next
  case (CgResetMemoryStats h)
  with s cg_inv_reset_memory_stats [OF inv] show ?thesis by auto
next
  case (CgTick t)
  with s cg_inv_tick [OF inv] show ?thesis
    by (auto split: option.splits)
qed

lemma cg_run_inv:
  assumes "cg_inv (xTickCount W) (xCG (W :: 'w::len word cg_world))"
      and "8 \<le> LENGTH('w)"
      and "cg_run cfgWindow W ops = Some W'"
  shows "cg_inv (xTickCount W') (xCG W')"
  using assms
proof (induction ops arbitrary: W)
  case Nil
  then show ?case by simp
next
  case (Cons op ops)
  from Cons.prems(3) obtain W1 where s: "cg_step cfgWindow W op = Some W1"
    and r: "cg_run cfgWindow W1 ops = Some W'"
    by (auto split: option.splits)
  from cg_step_inv [OF Cons.prems(1,2) s] Cons.IH [OF _ Cons.prems(2) r]
  show ?case by blast
qed

lemma cg_boot_inv: "cg_inv now cg_boot"
  by (rule cg_invI) (simp_all add: cg_boot_def cg_slot_ok_def configMAX_CGROUPS_def)

text \<open>
  In a state that satisfies the invariant a bound task belongs to an active cgroup,
  whose tick quota belongs to its CPU quota and whose tick counter is below the
  all-ones value; so the test of \<open>prvCGroupCanTaskRun\<close> is the comparison with the CPU
  quota. \<open>cg_reachable_can_run\<close> is the result for every machine word of at least
  eight bits (the eight slots of the bitmap).
\<close>

lemma cg_inv_can_run:
  assumes inv: "cg_inv now cs"
  shows "prvCGroupCanTaskRun cs xTask \<longleftrightarrow>
     (case pxCGroupOfTask cs xTask of
        None \<Rightarrow> True
      | Some g \<Rightarrow>
          ulPenaltyTicksLeft (xCpuLimits g) = 0 \<and>
          (ulCpuQuota (xCpuLimits g) = CGROUP_CPU_QUOTA_MAX \<or>
           ulTicksUsed (xCpuLimits g) < ulCpuQuota (xCpuLimits g)))"
proof (rule prvCGroupCanTaskRun_consistent)
  show "case pxCGroupOfTask cs xTask of
             None \<Rightarrow> True
           | Some g \<Rightarrow> cg_quota_consistent g \<and> ulTicksUsed (xCpuLimits g) \<noteq> CGROUP_NO_LIMIT"
  proof (cases "pxCGroupOfTask cs xTask")
    case None
    then show ?thesis by simp
  next
    case (Some g)
    then obtain i where i: "prvGetCGroupFromTask cs xTask = Some i" and g: "g = xCGroups cs ! i"
      by (auto simp: pxCGroupOfTask_def split: option.splits if_splits)
    from cg_inv_task [OF inv i] have i8: "i < configMAX_CGROUPS" and a: "cg_xActive g"
      by (simp_all add: g)
    from cg_inv_slot [OF inv i8] a
    have c: "cg_quota_consistent g"
      and u: "unat (ulTicksUsed (xCpuLimits g)) \<le> unat (now - xWindowStartTime (xCpuLimits g))"
      and d: "now - xWindowStartTime (xCpuLimits g) \<noteq> - 1"
      by (simp_all add: cg_slot_ok_def g)
    have "ulTicksUsed (xCpuLimits g) \<noteq> - 1"
    proof
      assume "ulTicksUsed (xCpuLimits g) = - 1"
      with u unat_succ_not_max [OF d] show False by (simp add: unat_max_word)
    qed
    with c Some show ?thesis by (simp add: CGROUP_NO_LIMIT_def)
  qed
qed

lemma cg_reachable_can_run:
  assumes "8 \<le> LENGTH('w::len)"
      and "cg_run cfgWindow \<lparr>xTickCount = xStart, xCG = cg_boot\<rparr> ops = Some (W :: 'w word cg_world)"
  shows "prvCGroupCanTaskRun (xCG W) xTask \<longleftrightarrow>
     (case pxCGroupOfTask (xCG W) xTask of
        None \<Rightarrow> True
      | Some g \<Rightarrow>
          ulPenaltyTicksLeft (xCpuLimits g) = 0 \<and>
          (ulCpuQuota (xCpuLimits g) = CGROUP_CPU_QUOTA_MAX \<or>
           ulTicksUsed (xCpuLimits g) < ulCpuQuota (xCpuLimits g)))"
proof -
  have "cg_inv (xTickCount \<lparr>xTickCount = xStart, xCG = cg_boot :: 'w word cg_state\<rparr>)
               (xCG \<lparr>xTickCount = xStart, xCG = cg_boot :: 'w word cg_state\<rparr>)"
    by (simp add: cg_boot_inv)
  from cg_run_inv [OF this assms] show ?thesis by (rule cg_inv_can_run)
qed

text \<open>
  Claim C3. In every state the controller reaches from start-up by calls of its
  functions and ticks of the scheduler (on the 32-bit port; \<open>cg_reachable_can_run\<close> is
  the same for the other widths), and for every task \<open>T\<close>, \<open>prvCGroupCanTaskRun\<close> returns
  true if and only if \<open>T\<close> is not bound to any cgroup, or the cgroup of \<open>T\<close> has no penalty
  ticks left and its CPU quota is the sentinel \<open>CGROUP_CPU_QUOTA_MAX\<close> or its ticks used
  in the current window are strictly fewer than its CPU quota.
\<close>

theorem cgroup_can_run_iff:
  assumes "cg_run cfgWindow \<lparr>xTickCount = xStart, xCG = cg_boot\<rparr> ops
             = Some (W :: 32 word cg_world)"
  shows "prvCGroupCanTaskRun (xCG W) xTask \<longleftrightarrow>
     (case pxCGroupOfTask (xCG W) xTask of
        None \<Rightarrow> True
      | Some g \<Rightarrow>
          ulPenaltyTicksLeft (xCpuLimits g) = 0 \<and>
          (ulCpuQuota (xCpuLimits g) = CGROUP_CPU_QUOTA_MAX \<or>
           ulTicksUsed (xCpuLimits g) < ulCpuQuota (xCpuLimits g)))"
  using assms by (intro cg_reachable_can_run [where cfgWindow = cfgWindow and ops = ops]) simp_all

theorem cgroup_can_run_iff_witness:
  "cg_run 10 \<lparr>xTickCount = 0, xCG = cg_boot\<rparr> cg_two_groups_ops = Some cg_two_groups \<and>
   (case pxCGroupOfTask (xCG cg_two_groups) (Some 1) of
      None \<Rightarrow> False
    | Some g \<Rightarrow> ulPenaltyTicksLeft (xCpuLimits g) = 0 \<and> ulCpuQuota (xCpuLimits g) = 2 \<and>
        ulTicksQuota (xCpuLimits g) = 2 \<and> ulTicksUsed (xCpuLimits g) = 2) \<and>
   \<not> prvCGroupCanTaskRun (xCG cg_two_groups) (Some 1) \<and>
   (case pxCGroupOfTask (xCG cg_two_groups) (Some 2) of
      None \<Rightarrow> False
    | Some g \<Rightarrow> ulPenaltyTicksLeft (xCpuLimits g) = 0 \<and>
        ulCpuQuota (xCpuLimits g) = CGROUP_CPU_QUOTA_MAX \<and>
        ulTicksQuota (xCpuLimits g) = CGROUP_NO_LIMIT \<and> ulTicksUsed (xCpuLimits g) = 1) \<and>
   prvCGroupCanTaskRun (xCG cg_two_groups) (Some 2) \<and>
   pxCGroupOfTask (xCG cg_two_groups) (Some 3) = None \<and>
   prvCGroupCanTaskRun (xCG cg_two_groups) (Some 3)"
proof -
  have h: "cg_run 10 \<lparr>xTickCount = 0, xCG = cg_boot\<rparr> cg_two_groups_ops = Some cg_two_groups"
    by code_simp
  have v1: "case pxCGroupOfTask (xCG cg_two_groups) (Some 1) of
      None \<Rightarrow> False
    | Some g \<Rightarrow> ulPenaltyTicksLeft (xCpuLimits g) = 0 \<and> ulCpuQuota (xCpuLimits g) = 2 \<and>
        ulTicksQuota (xCpuLimits g) = 2 \<and> ulTicksUsed (xCpuLimits g) = 2"
    by code_simp
  have v2: "case pxCGroupOfTask (xCG cg_two_groups) (Some 2) of
      None \<Rightarrow> False
    | Some g \<Rightarrow> ulPenaltyTicksLeft (xCpuLimits g) = 0 \<and>
        ulCpuQuota (xCpuLimits g) = CGROUP_CPU_QUOTA_MAX \<and>
        ulTicksQuota (xCpuLimits g) = CGROUP_NO_LIMIT \<and> ulTicksUsed (xCpuLimits g) = 1"
    by code_simp
  have v3: "pxCGroupOfTask (xCG cg_two_groups) (Some 3) = None" by code_simp
  have w2: "(2::32 word) \<noteq> CGROUP_CPU_QUOTA_MAX" by (simp add: CGROUP_CPU_QUOTA_MAX_def)
  show ?thesis
    using h v1 v2 v3 w2 cgroup_can_run_iff [OF h, of "Some 1"]
      cgroup_can_run_iff [OF h, of "Some 2"] cgroup_can_run_iff [OF h, of "Some 3"]
    by (auto split: option.splits)
qed

section \<open>Properties of container creation\<close>

lemma bitmap_set_clear:
  "b AND m = 0 \<Longrightarrow> (b OR m) AND NOT m = (b :: 'w::len word)"
  by (auto simp: bit_eq_iff bit_and_iff bit_or_iff bit_not_iff)

lemma cg_create_delete:
  assumes "length (xCGroups cs) = configMAX_CGROUPS"
      and "xCGroupCreate cfgWindow now cs nm m q = (h, cs1)"
  shows "cg_no_new cs (if h \<noteq> NULL then snd (xCGroupDelete cs1 h) else cs1)"
proof (cases "prvFindFreeCGroupSlot cs")
  case None
  with assms show ?thesis by (simp add: xCGroupCreate_def cg_no_new_def)
next
  case (Some j)
  then have j: "j < configMAX_CGROUPS" "uxCGroupBitmap cs AND push_bit j 1 = 0"
    using find_free_slot_Some [of "uxCGroupBitmap cs" configMAX_CGROUPS j]
    by (simp_all add: prvFindFreeCGroupSlot_def)
  from assms Some have h: "h = Some j" by (auto simp: xCGroupCreate_def)
  from j(2) have b: "(uxCGroupBitmap cs OR push_bit j 1) AND NOT (push_bit j 1) = uxCGroupBitmap cs"
    by (rule bitmap_set_clear)
  show ?thesis
    using assms Some j h b
    by (auto simp: xCGroupCreate_def xCGroupDelete_def prvGetCGroupIndex_def cg_no_new_def
          Let_def nth_list_update)
qed

lemma pid_create_delete:
  assumes "length (xPidNamespaces s) = configMAX_PID_NAMESPACES"
      and "xPidNamespaceCreate s pcName = (h, s1)"
  shows "pid_no_new s (if h \<noteq> NULL then snd (xPidNamespaceDelete s1 h) else s1)"
proof (cases "prvFindFreeNamespaceSlot s")
  case None
  with assms show ?thesis by (simp add: xPidNamespaceCreate_def pid_no_new_def)
next
  case (Some j)
  then have j: "j < configMAX_PID_NAMESPACES" "uxNamespaceBitmap s AND push_bit j 1 = 0"
    using find_free_slot_Some [of "uxNamespaceBitmap s" configMAX_PID_NAMESPACES j]
    by (simp_all add: prvFindFreeNamespaceSlot_def)
  from assms Some have h: "h = Some j"
    by (auto simp: xPidNamespaceCreate_def split: prod.splits)
  from j(2) have b:
    "(uxNamespaceBitmap s OR push_bit j 1) AND NOT (push_bit j 1) = uxNamespaceBitmap s"
    by (rule bitmap_set_clear)
  show ?thesis
    using assms Some j h b
    by (auto simp: xPidNamespaceCreate_def xPidNamespaceDelete_def prvInitializeNamespace_def
          pid_no_new_def Let_def nth_list_update)
qed

lemma ipc_create_delete:
  assumes "length (xIpcNamespaces s) = configMAX_IPC_NAMESPACES"
      and "case ipc_xRootNamespace s of
             None \<Rightarrow> True
           | Some r \<Rightarrow> ipc_uxNamespaceBitmap s AND push_bit r 1 \<noteq> 0"
      and "xIpcNamespaceCreate s pcName = (h, s1)"
  shows "ipc_no_new s (if h \<noteq> NULL then snd (xIpcNamespaceDelete s1 h) else s1)"
proof (cases "h")
  case None
  with assms(3) have "s1 = s"
    by (auto simp: xIpcNamespaceCreate_def split: option.splits if_splits prod.splits)
  with None show ?thesis by (simp add: ipc_no_new_def)
next
  case (Some j)
  with assms(3) obtain nm where nm: "pcName = Some nm" "length nm \<noteq> 0"
    and f: "ipc_prvFindFreeNamespaceSlot s = Some j"
    by (auto simp: xIpcNamespaceCreate_def split: option.splits if_splits prod.splits)
  from f have j: "j < configMAX_IPC_NAMESPACES" "ipc_uxNamespaceBitmap s AND push_bit j 1 = 0"
    using find_free_slot_Some [of "ipc_uxNamespaceBitmap s" configMAX_IPC_NAMESPACES j]
    by (simp_all add: ipc_prvFindFreeNamespaceSlot_def)
  from j(2) assms(2) have r: "ipc_xRootNamespace s \<noteq> Some j"
    by (auto split: option.splits)
  from j(2) have b:
    "(ipc_uxNamespaceBitmap s OR push_bit j 1) AND NOT (push_bit j 1) = ipc_uxNamespaceBitmap s"
    by (rule bitmap_set_clear)
  show ?thesis
    using assms(1,3) Some nm f j r b
    by (auto simp: xIpcNamespaceCreate_def xIpcNamespaceDelete_def ipc_prvInitializeNamespace_def
          ipc_no_new_def Let_def nth_list_update)
qed

text \<open>
  Claim C5, as amended. Container creation is rolled back only when the final list
  insertion fails (the list mutex is not obtained): the cgroup and the namespaces that
  were constructed are deleted (in each controller the slots in use are as before and
  no further slot is active), the container block is freed, the container list is
  unchanged and the result is \<open>pdFAIL\<close>. A failed creation of the cgroup, of the PID
  namespace or of the IPC namespace does not fail container creation: with the mutex
  obtained the result is \<open>pdPASS\<close>, the new container heads the list, and the handle
  of a resource that could not be created is \<open>NULL\<close>.
\<close>

theorem container_create_outcome:
  assumes "ct_wf st"
  shows "case xContainerCreateWithLimits cfgWindow now st (Some nm) pcElf ulStack uxPrio ulMemLimit
                ulQuota True xMutexTaken of
           (xResult, st') \<Rightarrow>
             if xMutexTaken then
               xResult = pdPASS \<and>
               tl (pxContainerList st') = pxContainerList st \<and>
               (case pxContainerList st' of
                  [] \<Rightarrow> False
                | c # rest \<Rightarrow>
                    (prvFindFreeCGroupSlot (ct_cgroups st) = None \<longrightarrow> xCGroup c = NULL) \<and>
                    (prvFindFreeNamespaceSlot (ct_pids st) = None \<longrightarrow> xPidNamespace c = NULL) \<and>
                    (ipc_prvFindFreeNamespaceSlot (ct_ipcs st) = None \<longrightarrow> xIpcNamespace c = NULL))
             else
               xResult = pdFAIL \<and>
               pxContainerList st' = pxContainerList st \<and>
               uxHeapContainers st' = uxHeapContainers st \<and>
               cg_no_new (ct_cgroups st) (ct_cgroups st') \<and>
               pid_no_new (ct_pids st) (ct_pids st') \<and>
               ipc_no_new (ct_ipcs st) (ct_ipcs st')"
proof -
  obtain xCg cg1 where cg: "xCGroupCreate cfgWindow now (ct_cgroups st) (take 31 nm)
      (if ulMemLimit > 0 then ucast ulMemLimit else 8192)
      (if ulQuota > 0 then ucast ulQuota else 100) = (xCg, cg1)"
    by (cases "xCGroupCreate cfgWindow now (ct_cgroups st) (take 31 nm)
      (if ulMemLimit > 0 then ucast ulMemLimit else 8192)
      (if ulQuota > 0 then ucast ulQuota else 100)") blast
  obtain xPid pid1 where pid: "xPidNamespaceCreate (ct_pids st) (Some (take 31 nm)) = (xPid, pid1)"
    by (cases "xPidNamespaceCreate (ct_pids st) (Some (take 31 nm))") blast
  obtain xIpc ipc1 where ipc: "xIpcNamespaceCreate (ct_ipcs st) (Some (take 31 nm)) = (xIpc, ipc1)"
    by (cases "xIpcNamespaceCreate (ct_ipcs st) (Some (take 31 nm))") blast
  from assms have wf:
    "length (xCGroups (ct_cgroups st)) = configMAX_CGROUPS"
    "length (xPidNamespaces (ct_pids st)) = configMAX_PID_NAMESPACES"
    "length (xIpcNamespaces (ct_ipcs st)) = configMAX_IPC_NAMESPACES"
    "case ipc_xRootNamespace (ct_ipcs st) of
        None \<Rightarrow> True
      | Some r \<Rightarrow> ipc_uxNamespaceBitmap (ct_ipcs st) AND push_bit r 1 \<noteq> 0"
    by (simp_all add: ct_wf_def)
  note r1 = cg_create_delete [OF wf(1) cg]
  note r2 = pid_create_delete [OF wf(2) pid]
  note r3 = ipc_create_delete [OF wf(3) wf(4) ipc]
  have n1: "prvFindFreeCGroupSlot (ct_cgroups st) = None \<Longrightarrow> xCg = NULL"
    using cg by (simp add: xCGroupCreate_def)
  have n2: "prvFindFreeNamespaceSlot (ct_pids st) = None \<Longrightarrow> xPid = NULL"
    using pid by (simp add: xPidNamespaceCreate_def)
  have n3: "ipc_prvFindFreeNamespaceSlot (ct_ipcs st) = None \<Longrightarrow> xIpc = NULL"
    using ipc by (auto simp: xIpcNamespaceCreate_def split: if_splits)
  show ?thesis
  proof (cases xMutexTaken)
    case True
    then show ?thesis
      using cg pid ipc n1 n2 n3
      by (simp add: xContainerCreateWithLimits_def Let_def)
  next
    case False
    then show ?thesis
      using cg pid ipc r1 r2 r3
      by (auto simp: xContainerCreateWithLimits_def Let_def)
  qed
qed

theorem container_create_outcome_witness:
  "ct_wf ct_boot \<and>
   fst ct_rolled_back = pdFAIL \<and>
   pxContainerList (snd ct_rolled_back) = pxContainerList ct_boot \<and>
   uxHeapContainers (snd ct_rolled_back) = uxHeapContainers ct_boot \<and>
   cg_no_new (ct_cgroups ct_boot) (ct_cgroups (snd ct_rolled_back)) \<and>
   pid_no_new (ct_pids ct_boot) (ct_pids (snd ct_rolled_back)) \<and>
   ipc_no_new (ct_ipcs ct_boot) (ct_ipcs (snd ct_rolled_back))"
proof -
  have h: "ct_wf ct_boot" by code_simp
  show ?thesis
    using h container_create_outcome [OF h, where cfgWindow = 1000 and now = 5 and nm = "''web''"
        and pcElf = "''app.elf''" and ulStack = 2048 and uxPrio = 3 and ulMemLimit = 0
        and ulQuota = 0 and xMutexTaken = False]
    by (simp add: ct_rolled_back_def split: prod.splits)
qed

text \<open>
  Claim C5 as stated fails: with every cgroup slot taken, the cgroup creation fails,
  yet container creation returns \<open>pdPASS\<close>; the container is in the list without a
  cgroup, and the PID and IPC namespaces created for it stay active.
\<close>

theorem container_create_without_cgroup_counterexample:
  "prvFindFreeCGroupSlot (ct_cgroups ct_cgroups_full) = None \<and>
   pxContainerList ct_cgroups_full = [] \<and>
   fst ct_created_without_cgroup = pdPASS \<and>
   length (pxContainerList (snd ct_created_without_cgroup)) = 1 \<and>
   xCGroup (hd (pxContainerList (snd ct_created_without_cgroup))) = NULL \<and>
   xPidNamespace (hd (pxContainerList (snd ct_created_without_cgroup))) = Some 1 \<and>
   xIpcNamespace (hd (pxContainerList (snd ct_created_without_cgroup))) = Some 1 \<and>
   \<not> xActive (xPidNamespaces (ct_pids ct_cgroups_full) ! 1) \<and>
   xActive (xPidNamespaces (ct_pids (snd ct_created_without_cgroup)) ! 1) \<and>
   \<not> ipc_xActive (xIpcNamespaces (ct_ipcs ct_cgroups_full) ! 1) \<and>
   ipc_xActive (xIpcNamespaces (ct_ipcs (snd ct_created_without_cgroup)) ! 1)"
  by code_simp


section \<open>Properties of the image codec\<close>

lemma prvCountFiles_no_regular:
  assumes "\<forall>info \<in> set entries. info_type info \<noteq> LFS_TYPE_REG"
  shows "prvCountFiles entries c = Some c"
  using assms by (induction entries) auto

lemma lfs_dir_entries_no_regular:
  assumes "\<forall>(p, n) \<in> set (lfs_children fs d). n = LfsDir"
  shows "\<forall>info \<in> set (lfs_dir_entries fs d). info_type info \<noteq> LFS_TYPE_REG"
  using assms by (auto simp: lfs_dir_entries_def lfs_node_type_def)

lemma pack_no_regular_files:
  assumes "\<forall>(p, n) \<in> set (lfs_children fs (prvContainerDir ulId)). n = LfsDir"
  shows "xContainerPackImage uxMallocOk fs ulId pcImagePath = (pdFAIL, fs)"
  using prvCountFiles_no_regular [OF lfs_dir_entries_no_regular [OF assms], of 0]
  by (simp add: xContainerPackImage_def Let_def split: option.splits)

lemma digit_char_not_slash: "char_of (48 + v mod 10 :: nat) \<noteq> CHR ''/''"
proof
  assume "char_of (48 + v mod 10) = CHR ''/''"
  then have "\<not> bit (48 + v mod 10) (4::nat)"
    by (simp add: char_of_def)
  moreover have "(48 + v mod 10) div (2 ^ 4 :: nat) = 3" by simp
  ultimately show False by (simp only: bit_iff_odd) simp
qed

lemma prvDigitsReversed_no_slash: "CHR ''/'' \<notin> set (prvDigitsReversed v)"
proof (induction v rule: prvDigitsReversed.induct)
  case (1 v)
  then show ?case
    using digit_char_not_slash [of v]
    by (subst prvDigitsReversed.simps) auto
qed

lemma uint32_to_string_no_slash: "CHR ''/'' \<notin> set (uint32_to_string v)"
  using prvDigitsReversed_no_slash by (simp add: uint32_to_string_def)

lemma prvContainerDir_eq:
  "prvContainerDir ulId = ''/var/container/'' @ take 48 (uint32_to_string ulId)"
  by (simp add: prvContainerDir_def)

lemma lfs_dirname_container:
  assumes "CHR ''/'' \<notin> set zs"
  shows "lfs_dirname (''/var/container/'' @ zs) = ''/var/container''"
proof -
  have "dropWhile (\<lambda>c. c \<noteq> CHR ''/'') (rev zs @ rev ''/var/container/'')
          = rev ''/var/container/''"
    using assms by (subst dropWhile_append2) auto
  then show ?thesis by (simp add: lfs_dirname_def)
qed

lemma prvContainerDir_dirname: "lfs_dirname (prvContainerDir ulId) = ''/var/container''"
  unfolding prvContainerDir_eq
  by (rule lfs_dirname_container) (meson in_set_takeD uint32_to_string_no_slash)

lemma prvContainerDir_neq:
  "prvContainerDir ulId \<noteq> ''/''" "prvContainerDir ulId \<noteq> ''/var''"
  "prvContainerDir ulId \<noteq> ''/var/container''"
  by (simp_all add: prvContainerDir_eq)

lemma lfs_dirname_var: "lfs_dirname ''/var'' = ''/''" "lfs_dirname ''/var/container'' = ''/var''"
  by (simp_all add: lfs_dirname_def)

lemma lfs_with_dir_present:
  "lfs_with_dir fs fs' p \<Longrightarrow> lfs_lookup fs' p = Some LfsDir"
  by (auto simp: lfs_with_dir_def lfs_lookup_def map_add_def)

lemma lfs_with_dir_keeps:
  "lfs_with_dir fs fs' p \<Longrightarrow> lfs_lookup fs q = Some n \<Longrightarrow> lfs_lookup fs' q = Some n"
  by (auto simp: lfs_with_dir_def lfs_lookup_def map_add_def split: if_splits)

lemma lfs_with_dir_absent:
  "lfs_with_dir fs fs' p \<Longrightarrow> lfs_lookup fs q = None \<Longrightarrow> q \<noteq> p \<Longrightarrow> lfs_lookup fs' q = None"
  by (auto simp: lfs_with_dir_def lfs_lookup_def map_add_def split: if_splits)

lemma lfs_with_dir_children:
  "lfs_with_dir fs fs' p \<Longrightarrow> lfs_dirname p \<noteq> d \<Longrightarrow> lfs_children fs' d = lfs_children fs d"
  by (auto simp: lfs_with_dir_def lfs_children_def)

lemma prvEnsureDirectoryExists_dir:
  assumes "lfs_lookup fs p = None \<or> lfs_lookup fs p = Some LfsDir"
      and "lfs_lookup fs (lfs_dirname p) = Some LfsDir"
  obtains fs' where "prvEnsureDirectoryExists fs p = (pdPASS, fs')" and "lfs_with_dir fs fs' p"
  using assms
  by (auto simp: prvEnsureDirectoryExists_def lfs_stat_def lfs_mkdir_def lfs_with_dir_def
        lfs_node_type_def)

lemma lfs_wf_no_orphans:
  assumes "lfs_wf fs" and "lfs_lookup fs d = None"
  shows "lfs_children fs d = []"
  using assms by (auto simp: lfs_wf_def lfs_children_def filter_empty_conv)

text \<open>
  Claim C7, as amended. An image of zero files is the single byte \<open>0x00\<close>, and
  unpacking it succeeds and yields an empty container directory: on a well-formed
  filesystem where the image file holds the one byte \<open>0x00\<close>, \<open>/var\<close> and
  \<open>/var/container\<close> are directories or absent and the container directory is absent,
  \<open>xContainerUnpackImage\<close> returns \<open>pdPASS\<close> and the container directory exists and has
  no entry. Packing does not produce such an image: on a container directory with no
  regular file \<open>xContainerPackImage\<close> returns \<open>pdFAIL\<close> and leaves the filesystem as it
  was.
\<close>

theorem zero_file_image:
  "(lfs_wf fs \<and> lfs_lookup fs pcPath = Some (LfsReg [0]) \<and>
    (lfs_lookup fs ''/var'' = None \<or> lfs_lookup fs ''/var'' = Some LfsDir) \<and>
    (lfs_lookup fs ''/var/container'' = None \<or> lfs_lookup fs ''/var/container'' = Some LfsDir) \<and>
    lfs_lookup fs (prvContainerDir ulId) = None \<longrightarrow>
      fst (xContainerUnpackImage uxMallocOk fs (Some pcPath) ulId) = pdPASS \<and>
      lfs_lookup (snd (xContainerUnpackImage uxMallocOk fs (Some pcPath) ulId))
        (prvContainerDir ulId) = Some LfsDir \<and>
      lfs_children (snd (xContainerUnpackImage uxMallocOk fs (Some pcPath) ulId))
        (prvContainerDir ulId) = []) \<and>
   ((\<forall>(p, n) \<in> set (lfs_children fs (prvContainerDir ulId)). n = LfsDir) \<longrightarrow>
      xContainerPackImage uxMallocOk fs ulId pcImagePath = (pdFAIL, fs))"
proof (intro conjI impI)
  assume "\<forall>(p, n) \<in> set (lfs_children fs (prvContainerDir ulId)). n = LfsDir"
  then show "xContainerPackImage uxMallocOk fs ulId pcImagePath = (pdFAIL, fs)"
    by (rule pack_no_regular_files)
next
  assume h: "lfs_wf fs \<and> lfs_lookup fs pcPath = Some (LfsReg [0]) \<and>
    (lfs_lookup fs ''/var'' = None \<or> lfs_lookup fs ''/var'' = Some LfsDir) \<and>
    (lfs_lookup fs ''/var/container'' = None \<or> lfs_lookup fs ''/var/container'' = Some LfsDir) \<and>
    lfs_lookup fs (prvContainerDir ulId) = None"
  define dir where "dir = prvContainerDir ulId"
  have root: "lfs_lookup fs (lfs_dirname ''/var'') = Some LfsDir"
    by (simp add: lfs_dirname_var lfs_lookup_def)
  from h have v0: "lfs_lookup fs ''/var'' = None \<or> lfs_lookup fs ''/var'' = Some LfsDir"
    by simp
  obtain fs1 where e1: "prvEnsureDirectoryExists fs ''/var'' = (pdPASS, fs1)"
    and g1: "lfs_with_dir fs fs1 ''/var''"
    by (rule prvEnsureDirectoryExists_dir [OF v0 root])
  have v1: "lfs_lookup fs1 ''/var/container'' = None \<or>
            lfs_lookup fs1 ''/var/container'' = Some LfsDir"
    using h g1 by (auto dest: lfs_with_dir_keeps lfs_with_dir_absent)
  have p1: "lfs_lookup fs1 (lfs_dirname ''/var/container'') = Some LfsDir"
    using g1 by (simp add: lfs_dirname_var lfs_with_dir_present)
  obtain fs2 where e2: "prvEnsureDirectoryExists fs1 ''/var/container'' = (pdPASS, fs2)"
    and g2: "lfs_with_dir fs1 fs2 ''/var/container''"
    by (rule prvEnsureDirectoryExists_dir [OF v1 p1])
  have d2: "lfs_lookup fs2 dir = None"
    using h g1 g2 prvContainerDir_neq [of ulId]
    by (auto simp: dir_def dest!: lfs_with_dir_absent)
  have p2: "lfs_lookup fs2 (lfs_dirname dir) = Some LfsDir"
    using g2 by (simp add: dir_def prvContainerDir_dirname lfs_with_dir_present)
  define fs3 where "fs3 = fs2\<lparr>lfs_nodes := lfs_nodes fs2 @ [(dir, LfsDir)]\<rparr>"
  have g3: "lfs_with_dir fs2 fs3 dir"
    using d2 by (simp add: lfs_with_dir_def fs3_def)
  have mk: "lfs_mkdir fs2 dir = Inr fs3"
    using d2 p2 by (simp add: lfs_mkdir_def fs3_def)
  have ex: "prvDirectoryExists fs2 dir = pdFALSE"
    using d2 by (simp add: prvDirectoryExists_def lfs_stat_def)
  have img: "lfs_lookup fs3 pcPath = Some (LfsReg [0])"
    using h g1 g2 g3 by (blast dest: lfs_with_dir_keeps)
  have res: "xContainerUnpackImage uxMallocOk fs (Some pcPath) ulId = (pdPASS, fs3)"
    using e1 e2 ex mk img
    by (simp add: xContainerUnpackImage_def Let_def dir_def [symmetric] lfs_file_open_rdonly_def)
  have c0: "lfs_children fs dir = []"
    using h by (auto simp: dir_def intro: lfs_wf_no_orphans)
  have c3: "lfs_children fs3 dir = []"
    using c0 g1 g2 g3 prvContainerDir_neq [of ulId]
    by (simp add: lfs_with_dir_children lfs_dirname_var dir_def prvContainerDir_dirname)
  show "fst (xContainerUnpackImage uxMallocOk fs (Some pcPath) ulId) = pdPASS"
    by (simp add: res)
  show "lfs_lookup (snd (xContainerUnpackImage uxMallocOk fs (Some pcPath) ulId))
        (prvContainerDir ulId) = Some LfsDir"
    using g3 by (simp add: res dir_def [symmetric] lfs_with_dir_present)
  show "lfs_children (snd (xContainerUnpackImage uxMallocOk fs (Some pcPath) ulId))
        (prvContainerDir ulId) = []"
    using c3 by (simp add: res dir_def)
qed

theorem zero_file_image_witness:
  "lfs_wf fs_zero_image \<and> lfs_lookup fs_zero_image ''/img'' = Some (LfsReg [0]) \<and>
   lfs_lookup fs_zero_image ''/var'' = None \<and>
   lfs_lookup fs_zero_image ''/var/container'' = None \<and>
   lfs_lookup fs_zero_image (prvContainerDir 1) = None \<and>
   fst (xContainerUnpackImage uxMallocAlways fs_zero_image (Some ''/img'') 1) = pdPASS \<and>
   lfs_lookup (snd (xContainerUnpackImage uxMallocAlways fs_zero_image (Some ''/img'') 1))
     (prvContainerDir 1) = Some LfsDir \<and>
   lfs_children (snd (xContainerUnpackImage uxMallocAlways fs_zero_image (Some ''/img'') 1))
     (prvContainerDir 1) = [] \<and>
   lfs_children fs_empty_container (prvContainerDir 1) = [] \<and>
   xContainerPackImage uxMallocAlways fs_empty_container 1 (Some ''/out'')
     = (pdFAIL, fs_empty_container)"
proof -
  have h1: "lfs_wf fs_zero_image" by code_simp
  have h2: "lfs_lookup fs_zero_image ''/img'' = Some (LfsReg [0])" by code_simp
  have h3: "lfs_lookup fs_zero_image ''/var'' = None" by code_simp
  have h4: "lfs_lookup fs_zero_image ''/var/container'' = None" by code_simp
  have h5: "lfs_lookup fs_zero_image (prvContainerDir 1) = None" by code_simp
  have h6: "lfs_children fs_empty_container (prvContainerDir 1) = []"
    by code_simp
  then have h7:
    "\<forall>(p, n) \<in> set (lfs_children fs_empty_container (prvContainerDir 1)). n = LfsDir"
    by simp
  show ?thesis
    using h1 h2 h3 h4 h5 h6 h7
      zero_file_image [of fs_zero_image "''/img''" 1 uxMallocAlways "Some ''/out''"]
      zero_file_image [of fs_empty_container "''/img''" 1 uxMallocAlways "Some ''/out''"]
    by blast
qed

text \<open>
  Claim C7 as stated fails: the container directory of container 1 exists and is
  empty, and packing it returns \<open>pdFAIL\<close> and writes no image.
\<close>

theorem pack_empty_directory_counterexample:
  "prvDirectoryExists fs_empty_container (prvContainerDir 1) = pdTRUE \<and>
   lfs_children fs_empty_container (prvContainerDir 1) = [] \<and>
   xContainerPackImage uxMallocAlways fs_empty_container 1 (Some ''/out'')
     = (pdFAIL, fs_empty_container) \<and>
   lfs_lookup fs_empty_container ''/out'' = None"
  by code_simp

text \<open>
  Claim C6 (the code departs from it). The image announces one file and ends, so the
  read of the record's size fails after the container directory has been created.
  \<open>xContainerUnpackImage\<close> returns \<open>pdFAIL\<close>, and the filesystem it leaves still holds
  the directory \<open>/var/container/1\<close>.
\<close>

theorem unpack_failure_keeps_directory:
  "xContainerUnpackImage uxMallocAlways fs_truncated_image (Some ''/img'') 1 =
     (pdFAIL,
      \<lparr>lfs_nodes = [(''/img'', LfsReg [1]), (''/var'', LfsDir), (''/var/container'', LfsDir),
                    (''/var/container/1'', LfsDir)],
       lfs_free = 4096\<rparr>)"
  by code_simp

end
